(* ===== verification/Vex_Prelude.thy ===== *)
theory Vex_Prelude
  imports Main "HOL-Library.Word" "HOL-Library.Char_ord" "HOL-Library.List_Lexorder"
begin

text \<open>
  Shared vocabulary of the development: errors and results, the operations of a SQL function (a
  state transformer that may raise), savepoints, the proof rules for such operations, tables with
  SQLite row ids, and the generic list lemmas about chunked files.

  Correspondence with the code: \<open>vex_error\<close> is class \<open>SqlError\<close> (and the other exceptions that
  \<open>Guard\<close> catches), \<open>savepoint\<close> is class \<open>Savepoint\<close>, all in
  src/vexdb\_sqlite/src/agent\_files/vexfs\_sqlite.cpp.
\<close>

section \<open>Collections of facts\<close>

named_theorems op_simps \<open>how an operation runs on a state\<close>
named_theorems op_ok \<open>when an operation returns normally\<close>
named_theorems preserve_intros \<open>rules showing that an operation keeps an invariant\<close>
named_theorems keep_intros \<open>rules showing that an operation that returns keeps an invariant\<close>

section \<open>Errors and results\<close>

type_synonym byte = "8 word"

datatype result_code =
    SQLITE_ERROR
  | SQLITE_MISMATCH
  | SQLITE_NOTFOUND
  | SQLITE_CONSTRAINT
  | SQLITE_RANGE
  | SQLITE_FULL
  | SQLITE_CORRUPT
  | SQLITE_TOOBIG
  | SQLITE_READONLY
  | SQLITE_BUSY
  | SQLITE_CONSTRAINT_NOT_EMPTY

text \<open>
  An \<open>SqlError\<close> carries a message and a SQLite result code; any other C++ exception reaches the
  caller as a plain message.
\<close>

datatype vex_error =
    SqlError string result_code
  | StdException string

type_synonym 'a result = "vex_error + 'a"

definition res_bind :: "'a result \<Rightarrow> ('a \<Rightarrow> 'b result) \<Rightarrow> 'b result" where
  "res_bind r f = (case r of Inl e \<Rightarrow> Inl e | Inr a \<Rightarrow> f a)"

lemma res_bind_simps [simp]:
  "res_bind (Inl e) f = Inl e"
  "res_bind (Inr a) f = f a"
  by (simp_all add: res_bind_def)

lemma res_bind_ok [op_ok]: "res_bind r f = Inr b \<longleftrightarrow> (\<exists>a. r = Inr a \<and> f a = Inr b)"
  by (cases r) auto

definition is_ok :: "'a result \<Rightarrow> bool" where
  "is_ok r = (case r of Inl _ \<Rightarrow> False | Inr _ \<Rightarrow> True)"

lemma is_ok_simps [simp]: "\<not> is_ok (Inl e)" "is_ok (Inr a)"
  by (simp_all add: is_ok_def)

section \<open>Operations: state transformers that may raise\<close>

text \<open>
  An operation that raises still has a state: the statements it ran before the exception stay in
  effect unless an enclosing savepoint rolls them back.
\<close>

type_synonym ('s, 'a) oper = "'s \<Rightarrow> 'a result \<times> 's"

definition ret :: "'a \<Rightarrow> ('s, 'a) oper" where
  "ret a = (\<lambda>s. (Inr a, s))"

definition throw :: "vex_error \<Rightarrow> ('s, 'a) oper" where
  "throw e = (\<lambda>s. (Inl e, s))"

definition query :: "('s \<Rightarrow> 'a result) \<Rightarrow> ('s, 'a) oper" where
  "query q = (\<lambda>s. (q s, s))"

definition gets :: "('s \<Rightarrow> 'a) \<Rightarrow> ('s, 'a) oper" where
  "gets q = (\<lambda>s. (Inr (q s), s))"

definition modify :: "('s \<Rightarrow> 's) \<Rightarrow> ('s, unit) oper" where
  "modify f = (\<lambda>s. (Inr (), f s))"

definition bind :: "('s, 'a) oper \<Rightarrow> ('a \<Rightarrow> ('s, 'b) oper) \<Rightarrow> ('s, 'b) oper" where
  "bind m f = (\<lambda>s. case m s of (Inl e, s') \<Rightarrow> (Inl e, s') | (Inr a, s') \<Rightarrow> f a s')"

definition andthen :: "('s, unit) oper \<Rightarrow> ('s, 'b) oper \<Rightarrow> ('s, 'b) oper" where
  "andthen m k = bind m (\<lambda>_. k)"

definition require :: "bool \<Rightarrow> vex_error \<Rightarrow> ('s, 'b) oper \<Rightarrow> ('s, 'b) oper" where
  "require c e k = (if c then k else throw e)"

definition op_when :: "bool \<Rightarrow> ('s, unit) oper \<Rightarrow> ('s, unit) oper" where
  "op_when c m = (if c then m else ret ())"

text \<open>
  \<open>Savepoint\<close>: the destructor of a savepoint that was not released rolls back to its start
  (\<open>ROLLBACK TO\<close>), and an exception leaves the block without releasing it.
\<close>

definition savepoint :: "('s, 'a) oper \<Rightarrow> ('s, 'a) oper" where
  "savepoint m = (\<lambda>s. case m s of (Inl e, _) \<Rightarrow> (Inl e, s) | (Inr a, s') \<Rightarrow> (Inr a, s'))"

fun for_each :: "'b list \<Rightarrow> ('b \<Rightarrow> ('s, unit) oper) \<Rightarrow> ('s, unit) oper" where
  "for_each [] f = ret ()"
| "for_each (x # xs) f = andthen (f x) (for_each xs f)"

lemma op_run [op_simps]:
  "ret a s = (Inr a, s)"
  "throw e s = (Inl e, s)"
  "query q s = (q s, s)"
  "gets g s = (Inr (g s), s)"
  "modify f s = (Inr (), f s)"
  by (simp_all add: ret_def throw_def query_def gets_def modify_def)

lemma bind_run [op_simps]:
  "bind m f s = (case m s of (Inl e, s') \<Rightarrow> (Inl e, s') | (Inr a, s') \<Rightarrow> f a s')"
  by (simp add: bind_def)

lemma bind_Inr: "m s = (Inr a, t) \<Longrightarrow> bind m f s = f a t"
  and bind_Inl: "m s = (Inl e, t) \<Longrightarrow> bind m f s = (Inl e, t)"
  by (simp_all add: bind_def)

lemma bind_assoc: "bind (bind m f) g = bind m (\<lambda>a. bind (f a) g)"
  by (rule ext) (auto simp: bind_def split: prod.split sum.split)

lemma andthen_Inr: "m s = (Inr u, t) \<Longrightarrow> andthen m k s = k t"
  and andthen_Inl: "m s = (Inl e, t) \<Longrightarrow> andthen m k s = (Inl e, t)"
  by (simp_all add: andthen_def bind_def)

lemma andthen_run [op_simps]:
  "andthen m k s = (case m s of (Inl e, s') \<Rightarrow> (Inl e, s') | (Inr _, s') \<Rightarrow> k s')"
  by (simp add: andthen_def bind_def)

lemma require_run [op_simps]: "require c e k s = (if c then k s else (Inl e, s))"
  by (simp add: require_def throw_def)

lemma op_when_run [op_simps]: "op_when c m s = (if c then m s else (Inr (), s))"
  by (simp add: op_when_def ret_def)

lemma savepoint_run [op_simps]:
  "savepoint m s = (case m s of (Inl e, _) \<Rightarrow> (Inl e, s) | (Inr a, s') \<Rightarrow> (Inr a, s'))"
  by (simp add: savepoint_def)

subsection \<open>When an operation returns normally\<close>

lemma op_run_ok [op_ok]:
  "ret a s = (Inr b, t) \<longleftrightarrow> a = b \<and> s = t"
  "throw e s = (Inr b, t) \<longleftrightarrow> False"
  "query q s = (Inr b, t) \<longleftrightarrow> q s = Inr b \<and> s = t"
  "gets g s = (Inr b, t) \<longleftrightarrow> g s = b \<and> s = t"
  "modify f s = (Inr u, t) \<longleftrightarrow> f s = t"
  by (auto simp: op_simps)

lemma bind_ok [op_ok]:
  "bind m f s = (Inr b, t) \<longleftrightarrow> (\<exists>a s1. m s = (Inr a, s1) \<and> f a s1 = (Inr b, t))"
  by (auto simp: bind_def split: prod.splits sum.splits)

lemma andthen_ok [op_ok]:
  "andthen m k s = (Inr b, t) \<longleftrightarrow> (\<exists>s1. m s = (Inr (), s1) \<and> k s1 = (Inr b, t))"
  by (auto simp: andthen_def bind_ok)

lemma require_ok [op_ok]: "require c e k s = (Inr b, t) \<longleftrightarrow> c \<and> k s = (Inr b, t)"
  by (simp add: op_simps)

lemma op_when_ok [op_ok]:
  "op_when c m s = (Inr u, t) \<longleftrightarrow> (if c then m s = (Inr (), t) else s = t)"
  by (auto simp: op_simps)

lemma savepoint_ok [op_ok]: "savepoint m s = (Inr b, t) \<longleftrightarrow> m s = (Inr b, t)"
  by (auto simp: savepoint_def split: prod.splits sum.splits)

lemma savepoint_atomic: "savepoint m s = (Inl e, t) \<Longrightarrow> t = s"
  by (auto simp: savepoint_def split: prod.splits sum.splits)

subsection \<open>Read-only operations\<close>

definition read_only :: "('s, 'a) oper \<Rightarrow> bool" where
  "read_only m \<longleftrightarrow> (\<forall>s. snd (m s) = s)"

lemma read_only_query [simp]: "read_only (query q)" "read_only (gets g)" "read_only (ret a)"
    "read_only (throw e)"
  by (simp_all add: read_only_def op_simps)

lemma read_only_state: "read_only m \<Longrightarrow> m s = (r, t) \<Longrightarrow> t = s"
  by (metis read_only_def snd_conv)

text \<open>
  An operation is atomic when raising leaves the state as it was: what a savepoint around the
  writes, with read-only checks in front of it, gives.
\<close>

definition atomic :: "('s, 'a) oper \<Rightarrow> bool" where
  "atomic m \<longleftrightarrow> (\<forall>s e t. m s = (Inl e, t) \<longrightarrow> t = s)"

lemma atomicD: "atomic m \<Longrightarrow> m s = (Inl e, t) \<Longrightarrow> t = s"
  by (auto simp: atomic_def)

lemma atomic_basic [simp]: "atomic (query q)" "atomic (gets g)" "atomic (ret a)"
    "atomic (throw e)" "atomic (modify f)" "atomic (savepoint m)"
  by (auto simp: atomic_def op_simps split: prod.splits sum.splits)

lemma atomic_bind_read: "read_only m \<Longrightarrow> (\<And>a. atomic (f a)) \<Longrightarrow> atomic (bind m f)"
  by (auto simp: atomic_def bind_def split: prod.splits sum.splits dest: read_only_state)

lemma atomic_require: "atomic k \<Longrightarrow> atomic (require c e k)"
  by (auto simp: atomic_def op_simps)

lemma atomic_if: "atomic a \<Longrightarrow> atomic b \<Longrightarrow> atomic (if c then a else b)"
  by simp

section \<open>Operations that keep an invariant\<close>

text \<open>
  The invariant is kept on every path, by the state an exception leaves behind too.
\<close>

definition preserves :: "('s \<Rightarrow> bool) \<Rightarrow> ('s, 'a) oper \<Rightarrow> bool" where
  "preserves I m \<longleftrightarrow> (\<forall>s. I s \<longrightarrow> I (snd (m s)))"

lemma preservesI: "(\<And>s. I s \<Longrightarrow> I (snd (m s))) \<Longrightarrow> preserves I m"
  by (simp add: preserves_def)

lemma preservesD: "preserves I m \<Longrightarrow> I s \<Longrightarrow> m s = (r, t) \<Longrightarrow> I t"
  by (metis preserves_def snd_conv)

lemma preserves_read_only: "read_only m \<Longrightarrow> preserves I m"
  by (simp add: preserves_def read_only_def)

lemma preserves_basic [preserve_intros]:
  "preserves I (ret a)" "preserves I (throw e)" "preserves I (query q)" "preserves I (gets g)"
  by (simp_all add: preserves_read_only)

lemma preserves_modify [preserve_intros]: "(\<And>s. I s \<Longrightarrow> I (f s)) \<Longrightarrow> preserves I (modify f)"
  by (simp add: preserves_def op_simps)

lemma preserves_bind [preserve_intros]:
  "preserves I m \<Longrightarrow> (\<And>a. preserves I (f a)) \<Longrightarrow> preserves I (bind m f)"
  by (fastforce simp: preserves_def bind_def split: prod.splits sum.splits)

lemma preserves_andthen [preserve_intros]:
  "preserves I m \<Longrightarrow> preserves I k \<Longrightarrow> preserves I (andthen m k)"
  by (simp add: andthen_def preserves_bind)

lemma preserves_require [preserve_intros]: "(c \<Longrightarrow> preserves I k) \<Longrightarrow> preserves I (require c e k)"
  by (simp add: require_def preserves_basic)

lemma preserves_op_when [preserve_intros]: "preserves I m \<Longrightarrow> preserves I (op_when c m)"
  by (simp add: op_when_def preserves_basic)

lemma preserves_if [preserve_intros]:
  "preserves I m \<Longrightarrow> preserves I k \<Longrightarrow> preserves I (if c then m else k)"
  by simp

lemma preserves_cases [preserve_intros]:
  "(\<And>a b. preserves I (f a b)) \<Longrightarrow> preserves I (case x of (a, b) \<Rightarrow> f a b)"
  "preserves I m \<Longrightarrow> (\<And>a. preserves I (k a)) \<Longrightarrow> preserves I (case y of None \<Rightarrow> m | Some a \<Rightarrow> k a)"
  "(\<And>e. preserves I (l e)) \<Longrightarrow> (\<And>a. preserves I (k a)) \<Longrightarrow> preserves I (case z of Inl e \<Rightarrow> l e | Inr a \<Rightarrow> k a)"
  "(\<And>a. preserves I (k a)) \<Longrightarrow> preserves I (let a = u in k a)"
  by (simp_all split: prod.split option.split sum.split)

lemma preserves_trans:
  "(\<And>s. J s \<Longrightarrow> J (snd (m s)) \<and> R s (snd (m s))) \<Longrightarrow> (\<And>s t u. R s t \<Longrightarrow> R t u \<Longrightarrow> R s u) \<Longrightarrow>
   preserves (\<lambda>t. J t \<and> R s0 t) m"
  unfolding preserves_def by blast

lemma preserves_savepoint [preserve_intros]: "preserves I m \<Longrightarrow> preserves I (savepoint m)"
  by (fastforce simp: preserves_def savepoint_def split: prod.splits sum.splits)

lemma preserves_for_each [preserve_intros]:
  "(\<And>x. preserves I (f x)) \<Longrightarrow> preserves I (for_each xs f)"
  by (induction xs) (auto intro: preserve_intros)

lemma preserves_conj:
  "preserves I m \<Longrightarrow> preserves J m \<Longrightarrow> preserves (\<lambda>s. I s \<and> J s) m"
  by (simp add: preserves_def)

text \<open>
  The weaker form for a block inside a savepoint: only a normal return has to keep the invariant,
  because an exception is rolled back.
\<close>

definition keeps :: "('s \<Rightarrow> bool) \<Rightarrow> ('s, 'a) oper \<Rightarrow> bool" where
  "keeps I m \<longleftrightarrow> (\<forall>s a t. I s \<longrightarrow> m s = (Inr a, t) \<longrightarrow> I t)"

lemma keepsI: "(\<And>s a t. I s \<Longrightarrow> m s = (Inr a, t) \<Longrightarrow> I t) \<Longrightarrow> keeps I m"
  by (auto simp: keeps_def)

lemma keepsD: "keeps I m \<Longrightarrow> I s \<Longrightarrow> m s = (Inr a, t) \<Longrightarrow> I t"
  by (auto simp: keeps_def)

lemma preserves_keeps: "preserves I m \<Longrightarrow> keeps I m"
  by (auto simp: keeps_def dest: preservesD)

lemma preserves_savepoint_keeps: "keeps I m \<Longrightarrow> preserves I (savepoint m)"
  by (rule preservesI) (auto simp: savepoint_def dest: keepsD split: prod.split sum.split)

lemma keeps_bind [keep_intros]: "keeps I m \<Longrightarrow> (\<And>a. keeps I (f a)) \<Longrightarrow> keeps I (bind m f)"
  unfolding keeps_def bind_ok by blast

lemma keeps_andthen [keep_intros]: "keeps I m \<Longrightarrow> keeps I k \<Longrightarrow> keeps I (andthen m k)"
  by (auto simp: andthen_def intro: keeps_bind)

lemma keeps_basic [keep_intros]:
  "keeps I (ret a)" "keeps I (throw e)" "keeps I (query q)" "keeps I (gets g)"
  by (simp_all add: preserves_keeps preserves_basic)

lemma keeps_modify [keep_intros]: "(\<And>s. I s \<Longrightarrow> I (f s)) \<Longrightarrow> keeps I (modify f)"
  by (simp add: preserves_keeps preserves_modify)

lemma keeps_require [keep_intros]: "(c \<Longrightarrow> keeps I k) \<Longrightarrow> keeps I (require c e k)"
  by (auto simp: require_def keeps_basic)

lemma keeps_op_when [keep_intros]: "(c \<Longrightarrow> keeps I m) \<Longrightarrow> keeps I (op_when c m)"
  by (auto simp: op_when_def keeps_basic)

lemma keeps_if [keep_intros]: "keeps I m \<Longrightarrow> keeps I k \<Longrightarrow> keeps I (if c then m else k)"
  by simp

lemma keeps_cases [keep_intros]:
  "(\<And>a b. keeps I (f a b)) \<Longrightarrow> keeps I (case x of (a, b) \<Rightarrow> f a b)"
  "keeps I m \<Longrightarrow> (\<And>a. keeps I (k a)) \<Longrightarrow> keeps I (case y of None \<Rightarrow> m | Some a \<Rightarrow> k a)"
  "(\<And>e. keeps I (l e)) \<Longrightarrow> (\<And>a. keeps I (k a)) \<Longrightarrow> keeps I (case z of Inl e \<Rightarrow> l e | Inr a \<Rightarrow> k a)"
  "(\<And>a. keeps I (k a)) \<Longrightarrow> keeps I (let a = u in k a)"
  by (simp_all split: prod.split option.split sum.split)

lemma keeps_savepoint [keep_intros]: "keeps I m \<Longrightarrow> keeps I (savepoint m)"
  by (simp add: preserves_keeps preserves_savepoint_keeps)

lemma keeps_for_each [keep_intros]: "(\<And>x. keeps I (f x)) \<Longrightarrow> keeps I (for_each xs f)"
  by (induction xs) (simp_all add: keeps_basic keeps_andthen)

section \<open>Tables\<close>

text \<open>
  A table is the list of its rows in row-id order. SQLite gives a new row of a table without
  AUTOINCREMENT the largest row id in use plus one, and 1 to the first row.
\<close>

definition next_rowid :: "nat list \<Rightarrow> nat" where
  "next_rowid ids = Suc (fold max ids 0)"

lemma fold_max_in: "y \<in> set xs \<Longrightarrow> (y::nat) \<le> fold max xs x"
  unfolding Max.set_eq_fold [symmetric] by (rule Max_ge) simp_all

lemma next_rowid_greater: "i \<in> set ids \<Longrightarrow> i < next_rowid ids"
  by (auto simp: next_rowid_def less_Suc_eq_le intro: fold_max_in)

lemma next_rowid_fresh [simp]: "next_rowid ids \<notin> set ids"
  using next_rowid_greater by blast

lemma next_rowid_pos [simp]: "0 < next_rowid ids"
  by (simp add: next_rowid_def)

lemma next_rowid_fresh_map [simp]:
  "x \<in> set xs \<Longrightarrow> f x \<noteq> next_rowid (map f xs)" "x \<in> set xs \<Longrightarrow> next_rowid (map f xs) \<noteq> f x"
  using next_rowid_fresh[of "map f xs"] by (metis image_eqI set_map)+

lemma next_rowid_fresh_image [simp]: "next_rowid (map f xs) \<notin> f ` set xs"
  using next_rowid_fresh[of "map f xs"] by simp

text \<open>The rows of a query that yields at most its first row.\<close>

lemma find_append: "find p (xs @ ys) = (case find p xs of None \<Rightarrow> find p ys | Some x \<Rightarrow> Some x)"
  by (induction xs) auto

lemma find_fresh_key: "k \<notin> f ` set xs \<Longrightarrow> find (\<lambda>x. f x = k) xs = None"
  by (induction xs) auto

lemma find_map_same:
  "(\<And>x. x \<in> set xs \<Longrightarrow> p (f x) = p x) \<Longrightarrow> find p (map f xs) = map_option f (find p xs)"
  by (induction xs) auto

lemma find_SomeD: "find p xs = Some x \<Longrightarrow> x \<in> set xs \<and> p x"
  by (induction xs) (auto split: if_splits)

lemma find_unique:
  assumes "distinct (map key xs)" and x: "x \<in> set xs" "p x"
    and key: "\<And>y. y \<in> set xs \<Longrightarrow> p y \<Longrightarrow> key y = key x"
  shows "find p xs = Some x"
proof -
  obtain z where z: "find p xs = Some z"
    using x by (cases "find p xs") (auto simp: find_None_iff)
  then have "z \<in> set xs" "p z" by (auto dest: find_SomeD)
  moreover from this have "key z = key x" by (rule key)
  ultimately have "z = x" using assms(1) x(1) by (auto simp: distinct_map dest: inj_onD)
  with z show ?thesis by simp
qed

lemma find_filter_other:
  "(\<And>x. x \<in> set xs \<Longrightarrow> p x \<Longrightarrow> q x) \<Longrightarrow> find p (filter q xs) = find p xs"
  by (induction xs) auto

lemma filter_key_unique:
  "distinct (map f xs) \<Longrightarrow> x \<in> set xs \<Longrightarrow> filter (\<lambda>y. f y = f x) xs = [x]"
proof (induction xs)
  case (Cons a xs)
  then show ?case by (cases "x = a") (auto simp: filter_empty_conv image_iff)
qed simp

section \<open>Files as lists of bytes\<close>

text \<open>
  The content of a file is seen as an infinite stream of bytes that is zero beyond the file, with
  a size. \<open>byte_at\<close> reads a list that way.
\<close>

definition byte_at :: "byte list \<Rightarrow> nat \<Rightarrow> byte" where
  "byte_at xs i = (if i < length xs then xs ! i else 0)"

lemma byte_at_replicate [simp]: "byte_at (replicate n 0) i = 0"
  by (simp add: byte_at_def)

lemma byte_at_append:
  "byte_at (xs @ ys) i = (if i < length xs then byte_at xs i else byte_at ys (i - length xs))"
  by (auto simp: byte_at_def nth_append)

lemma byte_at_take: "byte_at (take n xs) i = (if i < n then byte_at xs i else 0)"
  by (auto simp: byte_at_def)

lemma byte_at_drop: "byte_at (drop n xs) i = byte_at xs (n + i)"
  by (auto simp: byte_at_def)

lemma byte_at_pad: "byte_at (xs @ replicate n 0) i = byte_at xs i"
  by (auto simp: byte_at_def nth_append)

lemma bytes_eqI:
  "length xs = length ys \<Longrightarrow> (\<And>i. i < length ys \<Longrightarrow> byte_at xs i = byte_at ys i) \<Longrightarrow> xs = ys"
  by (auto simp: byte_at_def intro: nth_equalityI)

text \<open>\<open>std::memcpy(dst + off, src, n)\<close> into a vector that is long enough.\<close>

definition memcpy_at :: "byte list \<Rightarrow> nat \<Rightarrow> byte list \<Rightarrow> byte list" where
  "memcpy_at dst off src = take off dst @ src @ drop (off + length src) dst"

lemma length_memcpy_at [simp]:
  "off + length src \<le> length dst \<Longrightarrow> length (memcpy_at dst off src) = length dst"
  by (simp add: memcpy_at_def)

lemma byte_at_memcpy_at:
  "off \<le> length dst \<Longrightarrow> byte_at (memcpy_at dst off src) i =
     (if off \<le> i \<and> i < off + length src then byte_at src (i - off) else byte_at dst i)"
  by (auto simp: memcpy_at_def byte_at_def nth_append min_def)

text \<open>\<open>vector::resize(n)\<close>: cut, or extend with zero bytes.\<close>

definition resize :: "nat \<Rightarrow> byte list \<Rightarrow> byte list" where
  "resize n xs = take n xs @ replicate (n - length xs) 0"

lemma length_resize [simp]: "length (resize n xs) = n"
  by (simp add: resize_def)

lemma byte_at_resize: "byte_at (resize n xs) i = (if i < n then byte_at xs i else 0)"
  by (auto simp: resize_def byte_at_append byte_at_take) (simp add: byte_at_def)

text \<open>Splitting a file into chunks of a fixed size.\<close>

function chunks_of :: "nat \<Rightarrow> 'a list \<Rightarrow> 'a list list" where
  "chunks_of n xs = (if n = 0 \<or> xs = [] then [] else take n xs # chunks_of n (drop n xs))"
  by pat_completeness auto
termination
  by (relation "measure (\<lambda>(n, xs). length xs)") (auto simp: neq_Nil_conv)

declare chunks_of.simps [simp del]

lemma chunks_of_Nil [simp]: "chunks_of n [] = []"
  by (simp add: chunks_of.simps)

lemma chunks_of_step: "0 < n \<Longrightarrow> xs \<noteq> [] \<Longrightarrow> chunks_of n xs = take n xs # chunks_of n (drop n xs)"
  by (subst chunks_of.simps) simp

lemma concat_chunks_of: "0 < n \<Longrightarrow> concat (chunks_of n xs) = xs"
proof (induction n xs rule: chunks_of.induct)
  case (1 n xs)
  then show ?case by (cases "xs = []") (auto simp: chunks_of_step[of n xs])
qed

lemma chunks_of_append:
  "0 < n \<Longrightarrow> n dvd length xs \<Longrightarrow> chunks_of n (xs @ ys) = chunks_of n xs @ chunks_of n ys"
proof (induction n xs rule: chunks_of.induct)
  case (1 n xs)
  show ?case
  proof (cases "xs = []")
    case True
    then show ?thesis by simp
  next
    case False
    with "1.prems" have len: "n \<le> length xs" by (simp add: dvd_imp_le)
    then have "n dvd length (drop n xs)" using "1.prems" by simp
    then have "chunks_of n (drop n xs @ ys) = chunks_of n (drop n xs) @ chunks_of n ys"
      using 1 False by simp
    with False len "1.prems" show ?thesis
      by (simp add: chunks_of_step[of n xs] chunks_of_step[of n "xs @ ys"])
  qed
qed

lemma ceiling_step:
  assumes "0 < (n::nat)" "0 < l"
  shows "Suc ((l - n + n - 1) div n) = (l + n - 1) div n"
proof -
  have "(l + n - 1) div n = Suc ((l - 1) div n)"
    using assms by (metis Nat.add_diff_assoc2 One_nat_def Suc_leI add.commute div_add_self1 less_numeral_extra(3) plus_1_eq_Suc)
  moreover have "(l - n + n - 1) div n = (l - 1) div n"
    using assms by (cases "n \<le> l") auto
  ultimately show ?thesis by simp
qed

lemma length_chunks_of: "0 < n \<Longrightarrow> length (chunks_of n xs) = (length xs + n - 1) div n"
proof (induction n xs rule: chunks_of.induct)
  case (1 n xs)
  show ?case
  proof (cases "xs = []")
    case True
    with "1.prems" show ?thesis by simp
  next
    case False
    then have "length (chunks_of n (drop n xs)) = (length xs - n + n - 1) div n" using 1 by simp
    moreover have "length (chunks_of n xs) = Suc (length (chunks_of n (drop n xs)))"
      using False "1.prems" by (simp add: chunks_of_step[of n xs])
    moreover have "0 < length xs" using False by simp
    ultimately show ?thesis using ceiling_step[OF "1.prems"] by metis
  qed
qed

lemma chunk_in_range: "k * n < length xs \<Longrightarrow> 0 < n \<Longrightarrow> k < length (chunks_of n xs)"
proof -
  assume a: "k * n < length xs" "0 < n"
  then have "Suc k * n \<le> length xs + n - 1" by simp
  then have "Suc k \<le> (length xs + n - 1) div n"
    using a(2) by (simp only: less_eq_div_iff_mult_less_eq)
  then show ?thesis using a(2) by (simp add: length_chunks_of)
qed

lemma nth_chunks_of:
  "k < length (chunks_of n xs) \<Longrightarrow> chunks_of n xs ! k = take n (drop (k * n) xs)"
proof (induction n xs arbitrary: k rule: chunks_of.induct)
  case (1 n xs)
  show ?case
  proof (cases "n = 0 \<or> xs = []")
    case True
    with "1.prems" show ?thesis by (simp add: chunks_of.simps)
  next
    case False
    then have step: "chunks_of n xs = take n xs # chunks_of n (drop n xs)"
      by (simp add: chunks_of_step)
    show ?thesis
    proof (cases k)
      case 0
      then show ?thesis by (simp add: step)
    next
      case (Suc j)
      with "1.prems" "1.IH"[OF False, of j] show ?thesis by (simp add: step add.commute)
    qed
  qed
qed

lemma chunks_of_member_length: "c \<in> set (chunks_of n xs) \<Longrightarrow> 0 < length c \<and> length c \<le> n"
proof (induction n xs rule: chunks_of.induct)
  case (1 n xs)
  then show ?case
    by (cases "n = 0 \<or> xs = []") (auto simp: chunks_of_step[of n xs] chunks_of.simps[of 0])
qed

text \<open>The bytes from \<open>a\<close> up to \<open>b\<close>.\<close>

definition segment :: "nat \<Rightarrow> nat \<Rightarrow> 'a list \<Rightarrow> 'a list" where
  "segment a b xs = drop a (take b xs)"

lemma segment_append: "a \<le> m \<Longrightarrow> m \<le> b \<Longrightarrow> segment a m xs @ segment m b xs = segment a b xs"
proof -
  assume "a \<le> m" "m \<le> b"
  then have "take b xs = take m xs @ drop m (take b xs)"
    by (metis append_take_drop_id min.absorb1 take_take)
  then have "drop a (take b xs) = drop a (take m xs) @ drop (a - length (take m xs)) (drop m (take b xs))"
    by (metis drop_append)
  moreover have "drop (a - length (take m xs)) (drop m (take b xs)) = drop m (take b xs)"
    using \<open>a \<le> m\<close> by (cases "m \<le> length xs") auto
  ultimately show ?thesis by (simp add: segment_def)
qed

lemma segment_empty [simp]: "b \<le> a \<Longrightarrow> segment a b xs = []"
  by (simp add: segment_def)

lemma length_segment [simp]: "b \<le> length xs \<Longrightarrow> length (segment a b xs) = b - a"
  by (simp add: segment_def)

text \<open>The rows of a table whose key column counts up from \<open>k\<close>.\<close>

lemma filter_enumerate_range:
  "filter (\<lambda>(no, _). a \<le> no \<and> no \<le> b) (enumerate k xs) =
     enumerate (max a k) (take (b + 1 - max a k) (drop (a - k) xs))"
proof (induction xs arbitrary: k)
  case Nil
  then show ?case by simp
next
  case (Cons x xs)
  show ?case
  proof (cases "a \<le> k")
    case True
    then have "max a k = k" "max a (Suc k) = Suc k" "a - k = 0" "a - Suc k = 0" by simp_all
    with Cons.IH[of "Suc k"] True show ?thesis by (cases "b + 1 - k") (auto simp: Suc_diff_le)
  next
    case False
    then have "max a k = a" "max a (Suc k) = a" "a - k = Suc (a - Suc k)" by simp_all
    with Cons.IH[of "Suc k"] False show ?thesis by simp
  qed
qed

end
