(* ===== verification/Vex_Checksum.thy ===== *)
theory Vex_Checksum
  imports Vex_Prelude
begin

unbundle bit_operations_syntax

text \<open>
  SHA-256 as written in src/agent\_files/mount/common/src/vexfs\_checksum.cpp: the class
  \<open>Sha256\<close> with its 64-byte buffer, \<open>Update\<close> and \<open>Finish\<close>, the hex form of a digest, and the
  checksum of a file manifest.

  The lemmas relate the buffered implementation to the one-shot definition of the standard (pad
  the message, cut it into blocks, fold the compression function), show that a digest is 64 hex
  digits, and say exactly which manifests \<open>ManifestChecksum\<close> accepts and what it hashes.
\<close>

section \<open>Bit operations\<close>

type_synonym u32 = "32 word"
type_synonym u64 = "64 word"

text \<open>The round constants, in rows as the source prints them.\<close>

definition kRoundConstants :: "u32 list" where
  "kRoundConstants = concat [
    [0x428a2f98, 0x71374491, 0xb5c0fbcf, 0xe9b5dba5, 0x3956c25b, 0x59f111f1],
    [0x923f82a4, 0xab1c5ed5, 0xd807aa98, 0x12835b01, 0x243185be, 0x550c7dc3],
    [0x72be5d74, 0x80deb1fe, 0x9bdc06a7, 0xc19bf174, 0xe49b69c1, 0xefbe4786],
    [0x0fc19dc6, 0x240ca1cc, 0x2de92c6f, 0x4a7484aa, 0x5cb0a9dc, 0x76f988da],
    [0x983e5152, 0xa831c66d, 0xb00327c8, 0xbf597fc7, 0xc6e00bf3, 0xd5a79147],
    [0x06ca6351, 0x14292967, 0x27b70a85, 0x2e1b2138, 0x4d2c6dfc, 0x53380d13],
    [0x650a7354, 0x766a0abb, 0x81c2c92e, 0x92722c85, 0xa2bfe8a1, 0xa81a664b],
    [0xc24b8b70, 0xc76c51a3, 0xd192e819, 0xd6990624, 0xf40e3585, 0x106aa070],
    [0x19a4c116, 0x1e376c08, 0x2748774c, 0x34b0bcb5, 0x391c0cb3, 0x4ed8aa4a],
    [0x5b9cca4f, 0x682e6ff3, 0x748f82ee, 0x78a5636f, 0x84c87814, 0x8cc70208],
    [0x90befffa, 0xa4506ceb, 0xbef9a3f7, 0xc67178f2]]"

definition RotateRight :: "u32 \<Rightarrow> nat \<Rightarrow> u32" where
  "RotateRight value bits = drop_bit bits value OR push_bit (32 - bits) value"

definition LoadBigEndian :: "byte list \<Rightarrow> u32" where
  "LoadBigEndian input =
     push_bit 24 (ucast (input ! 0)) OR push_bit 16 (ucast (input ! 1)) OR
     push_bit 8 (ucast (input ! 2)) OR ucast (input ! 3)"

definition StoreBigEndian :: "u32 \<Rightarrow> byte list" where
  "StoreBigEndian value =
     [ucast (drop_bit 24 value), ucast (drop_bit 16 value), ucast (drop_bit 8 value), ucast value]"

lemma length_StoreBigEndian [simp]: "length (StoreBigEndian v) = 4"
  by (simp add: StoreBigEndian_def)

section \<open>The class Sha256\<close>

record sha256 =
  sha_state :: "u32 list"
  sha_buffer :: "byte list"
  sha_buffered_bytes :: nat
  sha_total_bytes :: nat
  sha_finished :: bool

definition Sha256_new :: sha256 where
  "Sha256_new = \<lparr>
     sha_state = [0x6a09e667, 0xbb67ae85, 0x3c6ef372, 0xa54ff53a,
                  0x510e527f, 0x9b05688c, 0x1f83d9ab, 0x5be0cd19],
     sha_buffer = replicate 64 0, sha_buffered_bytes = 0, sha_total_bytes = 0,
     sha_finished = False\<rparr>"

text \<open>
  \<open>Transform\<close>: the message schedule (the second loop extends the 16 words of the block to 64),
  then 64 rounds over the eight working variables.
\<close>

definition schedule_word :: "u32 list \<Rightarrow> nat \<Rightarrow> u32" where
  "schedule_word words index =
     (let s0 = RotateRight (words ! (index - 15)) 7 XOR RotateRight (words ! (index - 15)) 18 XOR
               drop_bit 3 (words ! (index - 15));
          s1 = RotateRight (words ! (index - 2)) 17 XOR RotateRight (words ! (index - 2)) 19 XOR
               drop_bit 10 (words ! (index - 2))
      in words ! (index - 16) + s0 + words ! (index - 7) + s1)"

definition message_schedule :: "byte list \<Rightarrow> u32 list" where
  "message_schedule block =
     fold (\<lambda>index words. words @ [schedule_word words index]) [16..<64]
       (map (\<lambda>index. LoadBigEndian (drop (index * 4) block)) [0..<16])"

type_synonym working = "u32 \<times> u32 \<times> u32 \<times> u32 \<times> u32 \<times> u32 \<times> u32 \<times> u32"

definition compress_round :: "u32 \<times> u32 \<Rightarrow> working \<Rightarrow> working" where
  "compress_round kw v =
     (case kw of (k, w) \<Rightarrow> case v of (a, b, c, d, e, f, g, h) \<Rightarrow>
      let sigma1 = RotateRight e 6 XOR RotateRight e 11 XOR RotateRight e 25;
          chosen = (e AND f) XOR ((NOT e) AND g);
          first = h + sigma1 + chosen + k + w;
          sigma0 = RotateRight a 2 XOR RotateRight a 13 XOR RotateRight a 22;
          majority = (a AND b) XOR (a AND c) XOR (b AND c);
          second = sigma0 + majority
      in (first + second, a, b, c, d + first, e, f, g))"

definition Transform :: "byte list \<Rightarrow> u32 list \<Rightarrow> u32 list" where
  "Transform block st =
     (case fold compress_round (zip kRoundConstants (message_schedule block))
             (st ! 0, st ! 1, st ! 2, st ! 3, st ! 4, st ! 5, st ! 6, st ! 7) of
        (a, b, c, d, e, f, g, h) \<Rightarrow>
          [st ! 0 + a, st ! 1 + b, st ! 2 + c, st ! 3 + d,
           st ! 4 + e, st ! 5 + f, st ! 6 + g, st ! 7 + h])"

lemma length_Transform [simp]: "length (Transform block st) = 8"
  by (simp add: Transform_def split: prod.split)

text \<open>
  The loop of \<open>Update\<close> copies what fits into the buffer and transforms a full buffer. The guard on
  the buffered bytes is the class invariant \<open>sha_pending\<close> below (the buffer is never full between
  calls); it makes the recursion total.
\<close>

function sha_absorb :: "byte list \<Rightarrow> sha256 \<Rightarrow> sha256" where
  "sha_absorb input hash =
     (if input = [] \<or> 64 \<le> sha_buffered_bytes hash then hash
      else
        let copied = min (length input) (64 - sha_buffered_bytes hash);
            buffer = memcpy_at (sha_buffer hash) (sha_buffered_bytes hash) (take copied input);
            buffered = sha_buffered_bytes hash + copied
        in sha_absorb (drop copied input)
             (if buffered = 64
              then hash\<lparr>sha_buffer := buffer, sha_buffered_bytes := 0,
                        sha_state := Transform buffer (sha_state hash)\<rparr>
              else hash\<lparr>sha_buffer := buffer, sha_buffered_bytes := buffered\<rparr>))"
  by pat_completeness auto
termination
  by (relation "measure (\<lambda>(input, hash). length input)") simp_all

declare sha_absorb.simps [simp del]

definition kMaxHashedBytes :: int where
  "kMaxHashedBytes = (2 ^ 64 - 1) div 8"

definition Sha256_Update :: "byte list \<Rightarrow> sha256 \<Rightarrow> sha256 result" where
  "Sha256_Update input hash =
     (if sha_finished hash then Inl (StdException ''SHA-256 is already finished'')
      else if kMaxHashedBytes - int (sha_total_bytes hash) < int (length input)
        then Inl (StdException ''SHA-256 input is too large'')
      else Inr (sha_absorb input
                  (hash\<lparr>sha_total_bytes := sha_total_bytes hash + length input\<rparr>)))"

definition length_bytes :: "nat \<Rightarrow> byte list" where
  "length_bytes total_bytes =
     (let bit_length = of_nat total_bytes * 8 :: u64
      in map (\<lambda>index. ucast (drop_bit ((7 - index) * 8) bit_length)) [0..<8])"

definition Sha256_Finish :: "sha256 \<Rightarrow> byte list result" where
  "Sha256_Finish hash =
     (if sha_finished hash then Inl (StdException ''SHA-256 is already finished'')
      else
        let marked = memcpy_at (sha_buffer hash) (sha_buffered_bytes hash) [0x80];
            buffered = sha_buffered_bytes hash + 1;
            (st, buffered', buffer) =
              (if 56 < buffered
               then let full = memcpy_at marked buffered (replicate (64 - buffered) 0)
                    in (Transform full (sha_state hash), 0, full)
               else (sha_state hash, buffered, marked));
            filled = memcpy_at buffer buffered' (replicate (56 - buffered') 0);
            block = memcpy_at filled 56 (length_bytes (sha_total_bytes hash))
        in Inr (concat (map StoreBigEndian (Transform block st))))"

section \<open>Hex digests\<close>

definition kHex :: string where
  "kHex = ''0123456789abcdef''"

definition Hex :: "byte list \<Rightarrow> string" where
  "Hex digest = concat (map (\<lambda>b. [kHex ! unat (drop_bit 4 b), kHex ! unat (b AND 0x0f)]) digest)"

definition Sha256Hex :: "byte list \<Rightarrow> string result" where
  "Sha256Hex data =
     res_bind (Sha256_Update data Sha256_new) (\<lambda>hash.
     res_bind (Sha256_Finish hash) (\<lambda>digest. Inr (Hex digest)))"

section \<open>The streaming implementation computes the standard's digest\<close>

text \<open>
  The one-shot definition: the message, a one bit, zeros up to 56 bytes modulo 64 and the length in
  bits; then the compression function over the 64-byte blocks in order.
\<close>

definition sha256_pad :: "byte list \<Rightarrow> byte list" where
  "sha256_pad msg =
     msg @ [0x80] @ replicate ((119 - length msg mod 64) mod 64) 0 @ length_bytes (length msg)"

definition sha256_blocks :: "byte list \<Rightarrow> u32 list" where
  "sha256_blocks bytes = fold Transform (chunks_of 64 bytes) (sha_state Sha256_new)"

definition sha256_digest :: "byte list \<Rightarrow> byte list" where
  "sha256_digest msg = concat (map StoreBigEndian (sha256_blocks (sha256_pad msg)))"

lemma length_length_bytes [simp]: "length (length_bytes n) = 8"
  by (simp add: length_bytes_def Let_def)

lemma chunks_of_single: "length xs = n \<Longrightarrow> 0 < n \<Longrightarrow> chunks_of n xs = [xs]"
  by (auto simp: chunks_of_step)

lemma sha256_blocks_append:
  "64 dvd length xs \<Longrightarrow> length b = 64 \<Longrightarrow> sha256_blocks (xs @ b) = Transform b (sha256_blocks xs)"
  by (simp add: sha256_blocks_def chunks_of_append chunks_of_single)

lemma sha256_blocks_append2:
  "64 dvd length xs \<Longrightarrow> length b = 64 \<Longrightarrow> length c = 64 \<Longrightarrow>
   sha256_blocks ((xs @ b) @ c) = Transform c (Transform b (sha256_blocks xs))"
  by (subst sha256_blocks_append) (simp_all add: sha256_blocks_append)

text \<open>The class invariant: the blocks consumed so far and the bytes that wait in the buffer.\<close>

definition sha_pending :: "sha256 \<Rightarrow> byte list \<Rightarrow> bool" where
  "sha_pending hash msg \<longleftrightarrow>
     \<not> sha_finished hash \<and> sha_buffered_bytes hash < 64 \<and> length (sha_buffer hash) = 64 \<and>
     (\<exists>front. msg = front @ take (sha_buffered_bytes hash) (sha_buffer hash) \<and>
              64 dvd length front \<and> sha_state hash = sha256_blocks front)"

lemma sha_pending_new: "sha_pending Sha256_new []"
  by (simp add: sha_pending_def Sha256_new_def sha256_blocks_def)

lemma sha_pending_total [simp]:
  "sha_pending (hash\<lparr>sha_total_bytes := n\<rparr>) msg = sha_pending hash msg"
  by (simp add: sha_pending_def)

lemma take_memcpy_at:
  "off \<le> length dst \<Longrightarrow> take (off + length src) (memcpy_at dst off src) = take off dst @ src"
  by (simp add: memcpy_at_def min_def)

lemma sha_pending_absorb:
  "sha_pending hash msg \<Longrightarrow> sha_pending (sha_absorb input hash) (msg @ input)"
proof (induction input hash arbitrary: msg rule: sha_absorb.induct)
  case (1 input hash)
  let ?b = "sha_buffered_bytes hash"
  let ?c = "min (length input) (64 - ?b)"
  let ?buf = "memcpy_at (sha_buffer hash) ?b (take ?c input)"
  let ?h = "if ?b + ?c = 64
    then hash\<lparr>sha_buffer := ?buf, sha_buffered_bytes := 0, sha_state := Transform ?buf (sha_state hash)\<rparr>
    else hash\<lparr>sha_buffer := ?buf, sha_buffered_bytes := ?b + ?c\<rparr>"
  from "1.prems" obtain front where front: "msg = front @ take ?b (sha_buffer hash)"
      "64 dvd length front" "sha_state hash = sha256_blocks front"
    and b: "\<not> sha_finished hash" "?b < 64" "length (sha_buffer hash) = 64"
    by (auto simp: sha_pending_def)
  show ?case
  proof (cases "input = []")
    case True
    with "1.prems" show ?thesis by (simp add: sha_absorb.simps)
  next
    case False
    have len: "length (take ?c input) = ?c" and cb: "?b + ?c \<le> 64" using b(2) by auto
    have pre: "take (?b + ?c) ?buf = take ?b (sha_buffer hash) @ take ?c input"
      using take_memcpy_at[of ?b "sha_buffer hash" "take ?c input"] b len by simp
    have lbuf: "length ?buf = 64" using b len cb by simp
    have "sha_pending ?h (msg @ take ?c input)"
    proof (cases "?b + ?c = 64")
      case True
      then have "?buf = take ?b (sha_buffer hash) @ take ?c input" using pre lbuf by simp
      with True lbuf front b show ?thesis
        by (simp add: sha_pending_def sha256_blocks_append)
    next
      case False
      with cb pre lbuf front b show ?thesis
        by (auto simp: sha_pending_def)
    qed
    moreover have guard: "\<not> (input = [] \<or> 64 \<le> ?b)" using False b(2) by simp
    ultimately have "sha_pending (sha_absorb (drop ?c input) ?h) ((msg @ take ?c input) @ drop ?c input)"
      using "1.IH"[OF guard refl refl refl] by blast
    then show ?thesis
      using guard by (subst sha_absorb.simps) (simp only: Let_def if_False append_assoc append_take_drop_id)
  qed
qed

lemma fill_after_mark:
  "b < n \<Longrightarrow> n \<le> length buf \<Longrightarrow>
   memcpy_at (memcpy_at buf b [x]) (b + 1) (replicate (n - (b + 1)) y) =
     take b buf @ x # replicate (n - (b + 1)) y @ drop n buf"
  by (simp add: memcpy_at_def min_def drop_Cons')

lemma memcpy_at_end:
  "length dst = 64 \<Longrightarrow> length src = 8 \<Longrightarrow> memcpy_at dst 56 src = take 56 dst @ src"
  by (simp add: memcpy_at_def)

lemma Finish_digest:
  assumes "sha_pending hash msg" and len: "sha_total_bytes hash = length msg"
  shows "Sha256_Finish hash = Inr (sha256_digest msg)"
proof -
  let ?b = "sha_buffered_bytes hash"
  let ?lb = "length_bytes (length msg)"
  from assms obtain front where front: "msg = front @ take ?b (sha_buffer hash)"
      "64 dvd length front" "sha_state hash = sha256_blocks front"
    and b: "\<not> sha_finished hash" "?b < 64" "length (sha_buffer hash) = 64"
    by (auto simp: sha_pending_def)
  let ?p = "take ?b (sha_buffer hash)"
  have mod: "length msg mod 64 = ?b" using front b by (auto simp: mod_add_eq)
  show ?thesis
  proof (cases "56 < ?b + 1")
    case True
    have k: "(119 - ?b) mod 64 = (63 - ?b) + 56"
      using True b(2) by simp
    have pad: "sha256_pad msg = (front @ (?p @ 0x80 # replicate (63 - ?b) 0)) @
        (replicate 56 0 @ ?lb)"
      unfolding sha256_pad_def mod k by (simp add: replicate_add front(1))
    have full: "memcpy_at (memcpy_at (sha_buffer hash) ?b [0x80]) (?b + 1) (replicate (64 - (?b + 1)) 0)
        = ?p @ 0x80 # replicate (63 - ?b) 0"
      using fill_after_mark[of ?b 64 "sha_buffer hash" "0x80" 0] b by simp
    have lfull: "length (?p @ 0x80 # replicate (63 - ?b) 0) = 64" using b by simp
    have fill: "memcpy_at (memcpy_at (?p @ 0x80 # replicate (63 - ?b) 0) 0 (replicate 56 0)) 56 ?lb
        = replicate 56 0 @ ?lb"
      using lfull by (simp add: memcpy_at_end) (simp add: memcpy_at_def)
    have "sha256_blocks (sha256_pad msg) =
        Transform (replicate 56 0 @ ?lb) (Transform (?p @ 0x80 # replicate (63 - ?b) 0) (sha_state hash))"
      unfolding pad front(3) using front(2) lfull by (intro sha256_blocks_append2) simp_all
    then show ?thesis
      using True b(1) len full fill by (simp add: Sha256_Finish_def sha256_digest_def Let_def)
  next
    case False
    have k: "(119 - ?b) mod 64 = 55 - ?b"
      using False by (simp add: mod_if)
    have pad: "sha256_pad msg = front @ (?p @ 0x80 # replicate (55 - ?b) 0 @ ?lb)"
      unfolding sha256_pad_def mod k by (simp add: front(1))
    have fill: "memcpy_at (memcpy_at (memcpy_at (sha_buffer hash) ?b [0x80]) (?b + 1)
          (replicate (56 - (?b + 1)) 0)) 56 ?lb = ?p @ 0x80 # replicate (55 - ?b) 0 @ ?lb"
      using fill_after_mark[of ?b 56 "sha_buffer hash" "0x80" 0] b False
      by (simp add: memcpy_at_end) (simp add: memcpy_at_def min_def take_Cons')
    have "sha256_blocks (sha256_pad msg) =
        Transform (?p @ 0x80 # replicate (55 - ?b) 0 @ ?lb) (sha_state hash)"
      unfolding pad using front(2,3) False b by (simp add: sha256_blocks_append)
    then show ?thesis
      using False b(1) len fill by (simp add: Sha256_Finish_def sha256_digest_def Let_def)
  qed
qed

section \<open>The interface of a streaming hash\<close>

text \<open>
  What the manifest code relies on: feeding a hash that has seen a message with further bytes
  succeeds below the size limit and gives a hash that has seen the longer message.
\<close>

fun feed :: "('p \<Rightarrow> 'h \<Rightarrow> 'h result) \<Rightarrow> 'p list \<Rightarrow> 'h \<Rightarrow> 'h result" where
  "feed update [] hash = Inr hash"
| "feed update (p # ps) hash = res_bind (update p hash) (feed update ps)"

locale streaming_hash =
  fixes seen :: "'h \<Rightarrow> byte list \<Rightarrow> bool"
    and update :: "byte list \<Rightarrow> 'h \<Rightarrow> 'h result"
    and limit :: int
  assumes update_seen:
    "seen hash msg \<Longrightarrow> int (length msg + length data) \<le> limit \<Longrightarrow>
     \<exists>hash'. update data hash = Inr hash' \<and> seen hash' (msg @ data)"
begin

lemma feed_seen:
  "seen hash msg \<Longrightarrow> int (length msg + length (concat ps)) \<le> limit \<Longrightarrow>
   \<exists>hash'. feed update ps hash = Inr hash' \<and> seen hash' (msg @ concat ps)"
proof (induction ps arbitrary: hash msg)
  case Nil
  then show ?case by simp
next
  case (Cons p ps)
  then obtain h1 where h1: "update p hash = Inr h1" "seen h1 (msg @ p)"
    using update_seen[of hash msg p] by auto
  with Cons.prems Cons.IH[of h1 "msg @ p"] show ?case by (auto simp: add.assoc)
qed

end

definition sha_seen :: "sha256 \<Rightarrow> byte list \<Rightarrow> bool" where
  "sha_seen hash msg \<longleftrightarrow> sha_pending hash msg \<and> sha_total_bytes hash = length msg"

lemma sha_seen_new: "sha_seen Sha256_new []"
  by (simp add: sha_seen_def sha_pending_new) (simp add: Sha256_new_def)

lemma sha_absorb_total: "sha_total_bytes (sha_absorb input hash) = sha_total_bytes hash"
proof (induction input hash rule: sha_absorb.induct)
  case (1 input hash)
  then show ?case by (subst sha_absorb.simps) (auto simp: Let_def)
qed

lemma Update_seen:
  assumes "sha_seen hash msg" and "int (length msg + length data) \<le> kMaxHashedBytes"
  shows "\<exists>hash'. Sha256_Update data hash = Inr hash' \<and> sha_seen hash' (msg @ data)"
proof -
  let ?h = "sha_absorb data (hash\<lparr>sha_total_bytes := sha_total_bytes hash + length data\<rparr>)"
  have "Sha256_Update data hash = Inr ?h"
    using assms by (simp add: Sha256_Update_def sha_seen_def sha_pending_def)
  moreover have "sha_seen ?h (msg @ data)"
    using assms sha_pending_absorb[of "hash\<lparr>sha_total_bytes := sha_total_bytes hash + length data\<rparr>"
      msg data] by (simp add: sha_seen_def sha_absorb_total)
  ultimately show ?thesis by blast
qed

interpretation sha: streaming_hash sha_seen Sha256_Update kMaxHashedBytes
  by unfold_locales (rule Update_seen)

lemma Finish_seen: "sha_seen hash msg \<Longrightarrow> Sha256_Finish hash = Inr (sha256_digest msg)"
  by (simp add: sha_seen_def Finish_digest)

lemma Sha256Hex_digest:
  "int (length data) \<le> kMaxHashedBytes \<Longrightarrow> Sha256Hex data = Inr (Hex (sha256_digest data))"
  using Update_seen[OF sha_seen_new, of data] Finish_seen by (auto simp: Sha256Hex_def)

section \<open>Shape of a hex digest\<close>

definition is_lower_hex :: "char \<Rightarrow> bool" where
  "is_lower_hex c \<longleftrightarrow> (CHR ''0'' \<le> c \<and> c \<le> CHR ''9'') \<or> (CHR ''a'' \<le> c \<and> c \<le> CHR ''f'')"

lemma kHex_digit: "n < 16 \<Longrightarrow> is_lower_hex (kHex ! n)"
proof -
  assume "n < 16"
  then have "kHex ! n \<in> set kHex" by (intro nth_mem) (simp add: kHex_def)
  moreover have "\<forall>c \<in> set kHex. is_lower_hex c" by (simp add: kHex_def is_lower_hex_def)
  ultimately show ?thesis by blast
qed

lemma nibble_bounds: "unat (drop_bit 4 b) < 16" "unat (b AND 0x0f) < 16" for b :: byte
proof -
  show "unat (drop_bit 4 b) < 16"
    unfolding unat_drop_bit_eq using unsigned_less[of b, where ?'a = nat]
    by (simp add: drop_bit_eq_div)
  have "unat (b AND 15) \<le> unat (15 :: byte)"
    by (rule word_and_le1 [THEN word_le_nat_alt [THEN iffD1]])
  then show "unat (b AND 0x0f) < 16" by simp
qed

lemma length_Hex [simp]: "length (Hex d) = 2 * length d"
  by (induction d) (simp_all add: Hex_def)

lemma Hex_lower: "c \<in> set (Hex d) \<Longrightarrow> is_lower_hex c"
  by (auto simp: Hex_def intro: kHex_digit nibble_bounds)

lemma length_concat_const: "(\<And>x. x \<in> set xs \<Longrightarrow> length (f x) = n) \<Longrightarrow>
    length (concat (map f xs)) = n * length xs"
  by (induction xs) auto

lemma length_sha256_blocks: "length (sha256_blocks xs) = 8"
proof -
  have "length st = 8 \<Longrightarrow> length (fold Transform bs st) = 8" for bs st
    by (induction bs arbitrary: st) auto
  then show ?thesis by (simp add: sha256_blocks_def Sha256_new_def)
qed

lemma length_sha256_digest [simp]: "length (sha256_digest msg) = 32"
  by (simp add: sha256_digest_def length_concat_const[where n = 4] length_sha256_blocks)

definition is_sha256_text :: "string \<Rightarrow> bool" where
  "is_sha256_text t \<longleftrightarrow> length t = 64 \<and> list_all is_lower_hex t"

lemma Sha256Hex_text: "Sha256Hex data = Inr t \<Longrightarrow> is_sha256_text t"
  using Finish_seen Update_seen[OF sha_seen_new, of data]
  by (cases "int (length data) \<le> kMaxHashedBytes")
    (auto simp: Sha256Hex_digest is_sha256_text_def list_all_iff Hex_lower Sha256Hex_def
      Sha256_Update_def Sha256_new_def)

section \<open>Manifest checksums\<close>

text \<open>\<open>std::to_string\<close> of an unsigned integer: its decimal digits.\<close>

fun to_string :: "nat \<Rightarrow> string" where
  "to_string n =
     (if n < 10 then [kHex ! n] else to_string (n div 10) @ [kHex ! (n mod 10)])"

declare to_string.simps [simp del]

definition bytes_of :: "string \<Rightarrow> byte list" where
  "bytes_of t = map of_char t"

record ManifestChunkChecksum =
  mcc_size :: nat
  mcc_checksum :: string

definition kNewline :: char where
  "kNewline = CHR 0x0A"

definition manifest_header :: "nat \<Rightarrow> nat \<Rightarrow> nat \<Rightarrow> string" where
  "manifest_header chunk_size file_size count =
     ''vexfs-manifest-v1:'' @ to_string chunk_size @ '':'' @ to_string file_size @ '':'' @
     to_string count @ [kNewline]"

definition manifest_entry :: "nat \<Rightarrow> ManifestChunkChecksum \<Rightarrow> string" where
  "manifest_entry index chunk =
     to_string index @ '':'' @ to_string (mcc_size chunk) @ '':'' @ mcc_checksum chunk"

text \<open>The loop over the chunks: \<open>index\<close>, \<open>total\<close> and the hash are its variables.\<close>

fun manifest_loop ::
  "nat \<Rightarrow> nat \<Rightarrow> nat \<Rightarrow> nat \<Rightarrow> ManifestChunkChecksum list \<Rightarrow> sha256 \<Rightarrow> (nat \<times> sha256) result" where
  "manifest_loop file_size chunk_size index tot [] hash = Inr (tot, hash)"
| "manifest_loop file_size chunk_size index tot (chunk # chunks) hash =
     (let expected_size = min chunk_size (file_size - tot);
          valid_checksum = is_sha256_text (mcc_checksum chunk)
      in if mcc_size chunk \<noteq> expected_size \<or> \<not> valid_checksum \<or>
            2 ^ 64 - 1 - int tot < int (mcc_size chunk)
         then Inl (StdException ''manifest chunk metadata is invalid'')
         else
           res_bind (if index \<noteq> 0 then Sha256_Update (bytes_of [kNewline]) hash else Inr hash)
             (\<lambda>hash1.
           res_bind (Sha256_Update (bytes_of (manifest_entry index chunk)) hash1) (\<lambda>hash2.
             manifest_loop file_size chunk_size (index + 1) (tot + mcc_size chunk) chunks hash2)))"

definition ManifestChecksum :: "nat \<Rightarrow> nat \<Rightarrow> ManifestChunkChecksum list \<Rightarrow> string result" where
  "ManifestChecksum file_size chunk_size chunks =
     (if chunk_size = 0 then Inl (StdException ''manifest chunk size is zero'')
      else
        let expected_chunks = (if file_size = 0 then 0 else 1 + (file_size - 1) div chunk_size)
        in if expected_chunks \<noteq> length chunks
           then Inl (StdException ''manifest chunk count does not match file size'')
           else
             res_bind (Sha256_Update
                 (bytes_of (manifest_header chunk_size file_size (length chunks))) Sha256_new)
               (\<lambda>hash.
             res_bind (manifest_loop file_size chunk_size 0 0 chunks hash) (\<lambda>(tot, hash').
               if tot \<noteq> file_size
               then Inl (StdException ''manifest chunks do not cover the file'')
               else res_bind (Sha256_Finish hash') (\<lambda>digest. Inr (Hex digest)))))"

subsection \<open>Decimal numbers\<close>

definition nat_of_digits :: "string \<Rightarrow> nat" where
  "nat_of_digits t = foldl (\<lambda>a c. 10 * a + (of_char c - 48)) 0 t"

lemma digit_value: "d < 10 \<Longrightarrow> of_char (kHex ! d) - 48 = (d::nat)"
proof -
  have "list_all (\<lambda>d. of_char (kHex ! d) - 48 = (d::nat)) [0..<10]" by code_simp
  then show "d < 10 \<Longrightarrow> of_char (kHex ! d) - 48 = (d::nat)" by (simp add: list_all_iff)
qed

lemma digit_not_sep: "d < 10 \<Longrightarrow> kHex ! d \<noteq> CHR '':'' \<and> kHex ! d \<noteq> kNewline"
proof -
  have "list_all (\<lambda>d. kHex ! d \<noteq> CHR '':'' \<and> kHex ! d \<noteq> kNewline) [0..<10]" by code_simp
  then show "d < 10 \<Longrightarrow> kHex ! d \<noteq> CHR '':'' \<and> kHex ! d \<noteq> kNewline" by (simp add: list_all_iff)
qed

lemma nat_of_digits_to_string: "nat_of_digits (to_string n) = n"
proof (induction n rule: to_string.induct)
  case (1 n)
  show ?case
  proof (cases "n < 10")
    case True
    then show ?thesis by (simp add: to_string.simps[of n] nat_of_digits_def digit_value)
  next
    case False
    with 1 have "nat_of_digits (to_string (n div 10)) = n div 10" by simp
    with False show ?thesis
      by (simp add: to_string.simps[of n] nat_of_digits_def digit_value)
  qed
qed

lemma to_string_inj: "to_string m = to_string n \<Longrightarrow> m = n"
  by (metis nat_of_digits_to_string)

lemma to_string_no_sep: "c \<in> set (to_string n) \<Longrightarrow> c \<noteq> CHR '':'' \<and> c \<noteq> kNewline"
proof (induction n rule: to_string.induct)
  case (1 n)
  then show ?case
    by (cases "n < 10") (auto simp: to_string.simps[of n] digit_not_sep)
qed

lemma split_at_separator:
  "x @ s # r = x' @ s # r' \<Longrightarrow> s \<notin> set x \<Longrightarrow> s \<notin> set x' \<Longrightarrow> x = x' \<and> r = r'"
proof (induction x arbitrary: x')
  case Nil
  then show ?case by (cases x') auto
next
  case (Cons a x)
  then show ?case by (cases x') auto
qed

lemma to_string_split:
  "to_string m @ s # r = to_string n @ s # r' \<Longrightarrow> s \<in> {CHR '':'', kNewline} \<Longrightarrow> m = n \<and> r = r'"
  using split_at_separator[of "to_string m" s r "to_string n" r'] to_string_no_sep to_string_inj
  by blast

subsection \<open>What the manifest checksum covers\<close>

fun manifest_body :: "nat \<Rightarrow> ManifestChunkChecksum list \<Rightarrow> string" where
  "manifest_body index [] = []"
| "manifest_body index (chunk # chunks) =
     (if index \<noteq> 0 then [kNewline] else []) @ manifest_entry index chunk @
     manifest_body (index + 1) chunks"

definition manifest_preimage :: "nat \<Rightarrow> nat \<Rightarrow> ManifestChunkChecksum list \<Rightarrow> string" where
  "manifest_preimage file_size chunk_size chunks =
     manifest_header chunk_size file_size (length chunks) @ manifest_body 0 chunks"

function chunk_sizes :: "nat \<Rightarrow> nat \<Rightarrow> nat list" where
  "chunk_sizes chunk_size file_size =
     (if chunk_size = 0 \<or> file_size = 0 then []
      else min chunk_size file_size # chunk_sizes chunk_size (file_size - chunk_size))"
  by pat_completeness auto
termination
  by (relation "measure snd") auto

declare chunk_sizes.simps [simp del]

definition manifest_ok :: "nat \<Rightarrow> nat \<Rightarrow> ManifestChunkChecksum list \<Rightarrow> bool" where
  "manifest_ok file_size chunk_size chunks \<longleftrightarrow>
     0 < chunk_size \<and> map mcc_size chunks = chunk_sizes chunk_size file_size \<and>
     list_all (\<lambda>c. is_sha256_text (mcc_checksum c)) chunks"

lemma chunk_sizes_0 [simp]: "chunk_sizes c 0 = []"
  by (simp add: chunk_sizes.simps)

lemma chunk_sizes_step:
  "0 < c \<Longrightarrow> 0 < n \<Longrightarrow> chunk_sizes c n = min c n # chunk_sizes c (n - c)"
  by (subst chunk_sizes.simps) simp

lemma length_chunk_sizes:
  "0 < c \<Longrightarrow> length (chunk_sizes c n) = (if n = 0 then 0 else 1 + (n - 1) div c)"
proof (induction c n rule: chunk_sizes.induct)
  case (1 c n)
  show ?case
  proof (cases "n \<le> c")
    case True
    then show ?thesis using "1.prems" by (cases "n = 0") (auto simp: chunk_sizes_step[of c n])
  next
    case False
    then have "(n - 1) div c = Suc ((n - c - 1) div c)"
      using "1.prems" by (subst div_if) (auto simp: algebra_simps)
    then show ?thesis using 1 False by (simp add: chunk_sizes_step[of c n])
  qed
qed

lemma sum_chunk_sizes: "0 < c \<Longrightarrow> sum_list (chunk_sizes c n) = n"
proof (induction c n rule: chunk_sizes.induct)
  case (1 c n)
  then show ?case by (cases "n = 0") (auto simp: chunk_sizes_step[of c n])
qed

lemma length_bytes_of [simp]: "length (bytes_of t) = length t"
  by (simp add: bytes_of_def)

lemma bytes_of_append [simp]: "bytes_of (s @ t) = bytes_of s @ bytes_of t"
  by (simp add: bytes_of_def)

lemma length_to_string: "length (to_string n) \<le> Suc n"
proof (induction n rule: to_string.induct)
  case (1 n)
  show ?case
  proof (cases "n < 10")
    case True
    then show ?thesis by (simp add: to_string.simps[of n])
  next
    case False
    then have "length (to_string (n div 10)) \<le> Suc (n div 10)" by (rule 1)
    moreover have "Suc (Suc (n div 10)) \<le> Suc n" using False by simp
    ultimately show ?thesis using False by (simp add: to_string.simps[of n])
  qed
qed

lemma length_manifest_body:
  "list_all (\<lambda>c. length (mcc_checksum c) = 64) cs \<Longrightarrow>
   length (manifest_body k cs) \<le> sum_list (map mcc_size cs) + length cs * (k + length cs + 70)"
proof (induction cs arbitrary: k)
  case Nil
  then show ?case by simp
next
  case (Cons c cs)
  have "length (manifest_body (Suc k) cs) \<le> sum_list (map mcc_size cs) + length cs * (Suc k + length cs + 70)"
    using Cons.prems by (intro Cons.IH) simp
  then show ?case
    using length_to_string[of k] length_to_string[of "mcc_size c"] Cons.prems
    by (auto simp: manifest_entry_def algebra_simps)
qed

text \<open>A file of at most 128 MiB never has a manifest text that is too long to be hashed.\<close>

lemma length_manifest_preimage:
  assumes "manifest_ok n c cs" "n \<le> 2 ^ 27" "c \<le> 2 ^ 27"
  shows "int (length (manifest_preimage n c cs)) \<le> kMaxHashedBytes"
proof -
  have all64: "list_all (\<lambda>c. length (mcc_checksum c) = 64) cs"
    using assms(1) by (auto simp: manifest_ok_def is_sha256_text_def list_all_iff)
  have "0 < c" "map mcc_size cs = chunk_sizes c n" using assms(1) by (auto simp: manifest_ok_def)
  then have total: "sum_list (map mcc_size cs) = n" and len: "length cs = length (chunk_sizes c n)"
    using sum_chunk_sizes map_eq_imp_length_eq[of mcc_size cs id "chunk_sizes c n"] by auto
  have "(n - 1) div c \<le> n - 1" by (rule div_le_dividend)
  then have "n \<noteq> 0 \<Longrightarrow> 1 + (n - 1) div c \<le> n" by linarith
  then have n: "length cs \<le> n" unfolding len length_chunk_sizes[OF \<open>0 < c\<close>] by simp
  then have "length cs * (0 + length cs + 70) \<le> 2 ^ 27 * (2 ^ 27 + 70)"
    using assms(2) by (intro mult_le_mono) linarith+
  with length_manifest_body[OF all64, of 0] total assms(2)
  have body: "length (manifest_body 0 cs) \<le> 2 ^ 27 + 2 ^ 27 * (2 ^ 27 + 70)" by linarith
  have "length (manifest_header c n (length cs)) \<le> 30 + (c + n + length cs)"
    using length_to_string[of c] length_to_string[of n] length_to_string[of "length cs"]
    by (simp add: manifest_header_def)
  then have "length (manifest_header c n (length cs)) \<le> 30 + 3 * 2 ^ 27"
    using n assms(2,3) by linarith
  with body show ?thesis by (simp add: manifest_preimage_def kMaxHashedBytes_def)
qed

lemma manifest_loop_seen:
  assumes "sha_seen hash msg" "0 < cs" "tot \<le> fs" "fs < 2 ^ 64"
    and "map mcc_size chunks = chunk_sizes cs (fs - tot)"
    and "list_all (\<lambda>c. is_sha256_text (mcc_checksum c)) chunks"
    and "int (length msg + length (manifest_body index chunks)) \<le> kMaxHashedBytes"
  shows "\<exists>hash'. manifest_loop fs cs index tot chunks hash = Inr (fs, hash') \<and>
                 sha_seen hash' (msg @ bytes_of (manifest_body index chunks))"
  using assms
proof (induction chunks arbitrary: index tot hash msg)
  case Nil
  then have "fs = tot"
    by (cases "fs - tot = 0") (auto simp: chunk_sizes_step)
  with Nil show ?case by (auto simp: bytes_of_def)
next
  case (Cons chunk chunks)
  from Cons.prems have pos: "0 < fs - tot" by (cases "fs - tot = 0") auto
  with Cons.prems have size: "mcc_size chunk = min cs (fs - tot)"
    and rest: "map mcc_size chunks = chunk_sizes cs (fs - (tot + mcc_size chunk))"
    by (auto simp: chunk_sizes_step min_def)
  let ?sep = "if index \<noteq> 0 then [kNewline] else []"
  obtain h1 where h1: "(if index \<noteq> 0 then Sha256_Update (bytes_of [kNewline]) hash else Inr hash) = Inr h1"
      "sha_seen h1 (msg @ bytes_of ?sep)"
    using Cons.prems(1,7) Update_seen[of hash msg "bytes_of [kNewline]"]
    by (cases "index = 0") (auto simp: bytes_of_def)
  obtain h2 where h2: "Sha256_Update (bytes_of (manifest_entry index chunk)) h1 = Inr h2"
      "sha_seen h2 ((msg @ bytes_of ?sep) @ bytes_of (manifest_entry index chunk))"
    using Update_seen[OF h1(2), of "bytes_of (manifest_entry index chunk)"] Cons.prems(7)
    by (auto split: if_splits)
  have le: "tot + mcc_size chunk \<le> fs" using size Cons.prems(3) by simp
  then have fits: "int (mcc_size chunk) \<le> 2 ^ 64 - 1 - int tot" using Cons.prems(4) by simp
  from Cons.IH[OF h2(2) Cons.prems(2) le Cons.prems(4) rest, of "index + 1"] Cons.prems(6,7)
  obtain h3 where "manifest_loop fs cs (index + 1) (tot + mcc_size chunk) chunks h2 = Inr (fs, h3)"
      "sha_seen h3 (((msg @ bytes_of ?sep) @ bytes_of (manifest_entry index chunk)) @
                    bytes_of (manifest_body (index + 1) chunks))"
    by (auto split: if_splits)
  with h1(1) h2(1) size fits Cons.prems(6) show ?case
    by (auto simp: Let_def bytes_of_def)
qed

lemma manifest_loop_ok_sizes:
  "manifest_loop fs cs index tot chunks hash = Inr (t, hash') \<Longrightarrow> 0 < cs \<Longrightarrow> tot \<le> fs \<Longrightarrow>
   length chunks = length (chunk_sizes cs (fs - tot)) \<Longrightarrow>
   map mcc_size chunks = chunk_sizes cs (fs - tot) \<and>
   list_all (\<lambda>c. is_sha256_text (mcc_checksum c)) chunks"
proof (induction chunks arbitrary: index tot hash)
  case Nil
  then show ?case by simp
next
  case (Cons chunk chunks)
  from Cons.prems have pos: "0 < fs - tot" by (cases "fs - tot = 0") auto
  from Cons.prems(1) obtain hash2 where size: "mcc_size chunk = min cs (fs - tot)"
    and sha: "is_sha256_text (mcc_checksum chunk)"
    and loop: "manifest_loop fs cs (index + 1) (tot + mcc_size chunk) chunks hash2 = Inr (t, hash')"
    by (auto simp: Let_def op_ok split: if_splits)
  have sizes: "chunk_sizes cs (fs - tot) = mcc_size chunk # chunk_sizes cs (fs - (tot + mcc_size chunk))"
    using size pos Cons.prems(2) by (simp add: chunk_sizes_step min_def)
  from Cons.IH[OF loop Cons.prems(2)] sizes size sha Cons.prems(3,4) pos show ?case by simp
qed

lemma ManifestChecksum_correct:
  assumes "file_size < 2 ^ 64"
    and "int (length (manifest_preimage file_size chunk_size chunks)) \<le> kMaxHashedBytes"
  shows "ManifestChecksum file_size chunk_size chunks = Inr t \<longleftrightarrow>
     manifest_ok file_size chunk_size chunks \<and>
     t = Hex (sha256_digest (bytes_of (manifest_preimage file_size chunk_size chunks)))"
proof (cases "0 < chunk_size \<and> length chunks = length (chunk_sizes chunk_size file_size)")
  case False
  then have "\<not> manifest_ok file_size chunk_size chunks"
    by (auto simp: manifest_ok_def dest: arg_cong[where f = length])
  with False show ?thesis
    by (auto simp: ManifestChecksum_def length_chunk_sizes)
next
  case True
  let ?header = "bytes_of (manifest_header chunk_size file_size (length chunks))"
  obtain h where h: "Sha256_Update ?header Sha256_new = Inr h" "sha_seen h ?header"
    using Update_seen[OF sha_seen_new, of ?header] assms(2) by (auto simp: manifest_preimage_def)
  show ?thesis
  proof (cases "manifest_ok file_size chunk_size chunks")
    case ok: True
    obtain h' where "manifest_loop file_size chunk_size 0 0 chunks h = Inr (file_size, h')"
        "sha_seen h' (?header @ bytes_of (manifest_body 0 chunks))"
      using manifest_loop_seen[OF h(2), of chunk_size 0 file_size chunks 0] ok assms True
      by (auto simp: manifest_ok_def manifest_preimage_def)
    then show ?thesis
      using ok True h(1) Finish_seen[of h']
      by (auto simp: ManifestChecksum_def length_chunk_sizes manifest_preimage_def)
  next
    case bad: False
    then have "\<forall>r. manifest_loop file_size chunk_size 0 0 chunks h \<noteq> Inr r"
      using manifest_loop_ok_sizes[of file_size chunk_size 0 0 chunks h] True
      by (auto simp: manifest_ok_def)
    then show ?thesis
      using bad h(1) by (auto simp: ManifestChecksum_def op_ok Let_def)
  qed
qed

lemma manifest_body_inj:
  "length chunks = length chunks' \<Longrightarrow>
   list_all (\<lambda>c. is_sha256_text (mcc_checksum c)) chunks \<Longrightarrow>
   list_all (\<lambda>c. is_sha256_text (mcc_checksum c)) chunks' \<Longrightarrow>
   manifest_body index chunks = manifest_body index chunks' \<Longrightarrow>
   chunks = (chunks' :: ManifestChunkChecksum list)"
proof (induction chunks chunks' arbitrary: index rule: list_induct2)
  case Nil
  then show ?case by simp
next
  case (Cons c cs c' cs')
  have "manifest_entry index c @ manifest_body (index + 1) cs =
        manifest_entry index c' @ manifest_body (index + 1) cs'"
    using Cons.prems(3) by (simp split: if_splits)
  then have "to_string (mcc_size c) @ CHR '':'' # mcc_checksum c @ manifest_body (index + 1) cs =
        to_string (mcc_size c') @ CHR '':'' # mcc_checksum c' @ manifest_body (index + 1) cs'"
    by (simp add: manifest_entry_def)
  from to_string_split[OF this] have "mcc_size c = mcc_size c'"
    and rest: "mcc_checksum c @ manifest_body (index + 1) cs = mcc_checksum c' @ manifest_body (index + 1) cs'"
    by auto
  moreover from rest have "mcc_checksum c = mcc_checksum c'"
      "manifest_body (index + 1) cs = manifest_body (index + 1) cs'"
    using Cons.prems(1,2) by (auto simp: is_sha256_text_def)
  ultimately show ?case using Cons.IH[of "index + 1"] Cons.prems(1,2) by simp
qed

lemma manifest_preimage_inj:
  assumes "manifest_ok file_size chunk_size chunks" and "manifest_ok file_size' chunk_size' chunks'"
    and "manifest_preimage file_size chunk_size chunks = manifest_preimage file_size' chunk_size' chunks'"
  shows "file_size = file_size' \<and> chunk_size = chunk_size' \<and> chunks = chunks'"
proof -
  from assms(3) have "to_string chunk_size @ CHR '':'' # to_string file_size @ CHR '':'' #
      to_string (length chunks) @ kNewline # manifest_body 0 chunks =
      to_string chunk_size' @ CHR '':'' # to_string file_size' @ CHR '':'' #
      to_string (length chunks') @ kNewline # manifest_body 0 chunks'"
    by (simp add: manifest_preimage_def manifest_header_def)
  from to_string_split[OF this] have cs: "chunk_size = chunk_size'"
    and rest: "to_string file_size @ CHR '':'' # to_string (length chunks) @ kNewline # manifest_body 0 chunks =
      to_string file_size' @ CHR '':'' # to_string (length chunks') @ kNewline # manifest_body 0 chunks'"
    by auto
  from to_string_split[OF rest] have fs: "file_size = file_size'"
    and rest': "to_string (length chunks) @ kNewline # manifest_body 0 chunks =
      to_string (length chunks') @ kNewline # manifest_body 0 chunks'"
    by auto
  from to_string_split[OF rest'] have "length chunks = length chunks'"
      "manifest_body 0 chunks = manifest_body 0 chunks'"
    by auto
  then show ?thesis using manifest_body_inj assms(1,2) cs fs by (simp add: manifest_ok_def)
qed

section \<open>Properties\<close>

text \<open>
  C1: Feeding the bytes of a message to a fresh \<open>Sha256\<close> in any pieces and finishing gives the
  SHA-256 digest of the whole message: the 64-byte buffering, the block boundaries and the two
  padding cases of \<open>Finish\<close> agree with the definition that pads the message and folds the
  compression function over its blocks.
\<close>

theorem Sha256_streaming:
  assumes "int (length (concat pieces)) \<le> kMaxHashedBytes"
  shows "res_bind (feed Sha256_Update pieces Sha256_new) Sha256_Finish =
         Inr (sha256_digest (concat pieces))"
  using sha.feed_seen[OF sha_seen_new, of pieces] assms Finish_seen by auto

theorem Sha256_streaming_witness:
  "res_bind (feed Sha256_Update [[0x61], [], [0x62, 0x63]] Sha256_new) Sha256_Finish =
   Inr (sha256_digest [0x61, 0x62, 0x63])"
  using Sha256_streaming[of "[[0x61], [], [0x62, 0x63]]"] by (simp add: kMaxHashedBytes_def)

text \<open>
  C2: \<open>ManifestChecksum\<close> accepts exactly the well-formed manifests (chunk sizes that cut the file
  into full chunks and a last partial one, checksums of 64 lower-case hex digits) and returns the
  SHA-256, in hex, of the header line and the numbered entries; every other input raises.
\<close>

theorem manifest_checksum_spec:
  assumes "file_size < 2 ^ 64"
    and "int (length (manifest_preimage file_size chunk_size chunks)) \<le> kMaxHashedBytes"
  shows "ManifestChecksum file_size chunk_size chunks = Inr t \<longleftrightarrow>
     manifest_ok file_size chunk_size chunks \<and>
     t = Hex (sha256_digest (bytes_of (manifest_preimage file_size chunk_size chunks)))"
  using assms by (rule ManifestChecksum_correct)

lemma chunk_sizes_3_2: "chunk_sizes 2 3 = [2, 1]"
  by (simp add: chunk_sizes.simps)

theorem manifest_checksum_spec_witness:
  "ManifestChecksum 3 2 [\<lparr>mcc_size = 2, mcc_checksum = replicate 64 CHR ''a''\<rparr>,
                         \<lparr>mcc_size = 1, mcc_checksum = replicate 64 CHR ''0''\<rparr>] =
   Inr (Hex (sha256_digest (bytes_of (manifest_preimage 3 2
     [\<lparr>mcc_size = 2, mcc_checksum = replicate 64 CHR ''a''\<rparr>,
      \<lparr>mcc_size = 1, mcc_checksum = replicate 64 CHR ''0''\<rparr>]))))"
  by (subst manifest_checksum_spec)
    (auto simp: manifest_ok_def chunk_sizes_3_2 is_sha256_text_def is_lower_hex_def list_all_iff
      manifest_preimage_def manifest_header_def manifest_entry_def kMaxHashedBytes_def to_string.simps)

text \<open>
  C3: The text that the manifest checksum hashes determines the file size, the chunk size and, in
  order, the size and the checksum of every chunk: two well-formed manifests that differ in any of
  these hash different texts.
\<close>

theorem manifest_text_determines_manifest:
  assumes "manifest_ok file_size chunk_size chunks" and "manifest_ok file_size' chunk_size' chunks'"
    and "manifest_preimage file_size chunk_size chunks = manifest_preimage file_size' chunk_size' chunks'"
  shows "file_size = file_size' \<and> chunk_size = chunk_size' \<and> chunks = chunks'"
  using assms by (rule manifest_preimage_inj)

theorem manifest_text_determines_manifest_witness:
  "manifest_ok 1 2 [\<lparr>mcc_size = 1, mcc_checksum = replicate 64 CHR ''0''\<rparr>] \<and>
   manifest_preimage 1 2 [\<lparr>mcc_size = 1, mcc_checksum = replicate 64 CHR ''0''\<rparr>] \<noteq>
   manifest_preimage 1 2 [\<lparr>mcc_size = 1, mcc_checksum = replicate 64 CHR ''a''\<rparr>]"
proof -
  let ?m = "\<lambda>c. [\<lparr>mcc_size = 1, mcc_checksum = replicate 64 c\<rparr>]"
  have ok: "manifest_ok 1 2 (?m CHR ''0'')" "manifest_ok 1 2 (?m CHR ''a'')"
    by (simp_all add: manifest_ok_def chunk_sizes.simps is_sha256_text_def is_lower_hex_def list_all_iff)
  moreover have "?m CHR ''0'' \<noteq> ?m CHR ''a''" by simp
  ultimately show ?thesis using manifest_text_determines_manifest[OF ok] by blast
qed

end
