(* ===== verification/Vex_Text.thy ===== *)
theory Vex_Text
  imports Vex_Prelude
begin

unbundle bit_operations_syntax

text \<open>
  The text functions of src/vexdb\_sqlite/src/agent\_files/vexfs\_sqlite.cpp: path parsing and
  printing (\<open>PathParts\<close>, \<open>CanonicalPath\<close>), glob matching (\<open>Utf8CodePointBytes\<close>,
  \<open>FindGlobMatches\<close>) and JSON strings (\<open>JsonEscape\<close>). A \<open>std::string\<close> is a list of chars (bytes); an
  index into a string that only moves forward is the suffix that starts there.
\<close>

section \<open>Paths\<close>

definition kSlash :: char where
  "kSlash = CHR ''/''"

function path_loop :: "string \<Rightarrow> string list result" where
  "path_loop rest =
     (let part = takeWhile (\<lambda>c. c \<noteq> kSlash) rest;
          tail = dropWhile (\<lambda>c. c \<noteq> kSlash) rest
      in if part \<noteq> [] \<and> (part = ''.'' \<or> part = ''..'')
         then Inl (SqlError ''path must not contain . or ..'' SQLITE_MISMATCH)
         else if part \<noteq> [] \<and> 255 < length part
         then Inl (SqlError ''path component is longer than 255 bytes'' SQLITE_MISMATCH)
         else if tail = [] then Inr (if part \<noteq> [] then [part] else [])
         else res_bind (path_loop (tl tail)) (\<lambda>parts. Inr (if part \<noteq> [] then part # parts else parts)))"
  by pat_completeness auto

lemma dropWhile_tl_shorter: "dropWhile p xs \<noteq> [] \<Longrightarrow> length (tl (dropWhile p xs)) < length xs"
  using length_dropWhile_le[of p xs] by (cases "dropWhile p xs") auto

lemma in_set_tl: "x \<in> set (tl xs) \<Longrightarrow> x \<in> set xs"
  by (cases xs) auto

termination path_loop
  by (relation "measure length") (auto simp only: in_measure wf_measure intro: dropWhile_tl_shorter)

declare path_loop.simps [simp del]

definition PathParts :: "string \<Rightarrow> string list result" where
  "PathParts path =
     (if path = [] \<or> hd path \<noteq> kSlash then Inl (SqlError ''path must be absolute'' SQLITE_MISMATCH)
      else if CHR 0x00 \<in> set path then Inl (SqlError ''path contains NUL'' SQLITE_MISMATCH)
      else path_loop (tl path))"

definition CanonicalPath :: "string list \<Rightarrow> string" where
  "CanonicalPath parts = (if parts = [] then [kSlash] else concat (map (\<lambda>part. kSlash # part) parts))"

text \<open>What a path component may be.\<close>

definition valid_part :: "string \<Rightarrow> bool" where
  "valid_part p \<longleftrightarrow>
     p \<noteq> [] \<and> kSlash \<notin> set p \<and> CHR 0x00 \<notin> set p \<and> p \<noteq> ''.'' \<and> p \<noteq> ''..'' \<and> length p \<le> 255"

lemma path_loop_parts:
  "path_loop rest = Inr parts \<Longrightarrow> CHR 0x00 \<notin> set rest \<Longrightarrow> list_all valid_part parts"
proof (induction rest arbitrary: parts rule: path_loop.induct)
  case (1 rest)
  let ?part = "takeWhile (\<lambda>c. c \<noteq> kSlash) rest"
  let ?tail = "dropWhile (\<lambda>c. c \<noteq> kSlash) rest"
  from "1.prems"(1) have ok: "\<not> (?part \<noteq> [] \<and> (?part = ''.'' \<or> ?part = ''..''))"
      "\<not> (?part \<noteq> [] \<and> 255 < length ?part)"
    by (auto simp: path_loop.simps[of rest] Let_def split: if_splits)
  have chars: "set ?part \<subseteq> set rest" "set (tl ?tail) \<subseteq> set rest"
    by (auto dest: set_takeWhileD set_dropWhileD in_set_tl)
  have part: "?part \<noteq> [] \<Longrightarrow> valid_part ?part"
    using ok chars "1.prems"(2) by (auto simp: valid_part_def dest: set_takeWhileD)
  show ?case
  proof (cases "?tail = []")
    case True
    with "1.prems" ok part show ?thesis
      by (auto simp: path_loop.simps[of rest] Let_def split: if_splits)
  next
    case False
    with "1.prems" ok obtain parts' where sub: "path_loop (tl ?tail) = Inr parts'"
      and parts: "parts = (if ?part \<noteq> [] then ?part # parts' else parts')"
      by (auto simp: path_loop.simps[of rest] Let_def op_ok split: if_splits)
    have "CHR 0x00 \<notin> set (tl ?tail)" using "1.prems"(2) chars(2) by blast
    then have "list_all valid_part parts'"
      using "1.IH"[OF refl refl ok False sub] by blast
    with part parts show ?thesis by simp
  qed
qed

lemma part_no_slash: "valid_part p \<Longrightarrow> takeWhile (\<lambda>c. c \<noteq> kSlash) p = p"
  by (auto simp: valid_part_def takeWhile_eq_all_conv)

lemma path_loop_last: "valid_part p \<Longrightarrow> path_loop p = Inr [p]"
  by (subst path_loop.simps)
    (auto simp: Let_def part_no_slash valid_part_def dropWhile_eq_Nil_conv)

lemma path_loop_cons:
  "valid_part p \<Longrightarrow> path_loop (p @ kSlash # rest) =
     res_bind (path_loop rest) (\<lambda>parts. Inr (p # parts))"
  by (subst path_loop.simps)
    (auto simp: Let_def takeWhile_append dropWhile_append part_no_slash valid_part_def)

lemma path_loop_concat:
  "list_all valid_part (p # ps) \<Longrightarrow> path_loop (p @ concat (map (\<lambda>part. kSlash # part) ps)) = Inr (p # ps)"
proof (induction ps arbitrary: p)
  case Nil
  then show ?case by (simp add: path_loop_last)
next
  case (Cons q ps)
  then show ?case by (simp add: path_loop_cons)
qed

lemma canonical_path_parts:
  assumes "list_all valid_part parts"
  shows "PathParts (CanonicalPath parts) = Inr parts"
proof (cases parts)
  case Nil
  then show ?thesis by (simp add: PathParts_def CanonicalPath_def kSlash_def path_loop.simps)
next
  case (Cons p ps)
  have "CHR 0x00 \<notin> set (CanonicalPath parts)"
    using assms by (auto simp: CanonicalPath_def kSlash_def list_all_iff valid_part_def)
  with Cons path_loop_concat[of p ps] assms show ?thesis
    by (simp add: PathParts_def CanonicalPath_def)
qed

section \<open>Glob patterns\<close>

definition Utf8CodePointBytes :: "string \<Rightarrow> nat" where
  "Utf8CodePointBytes text =
     (let lead = of_char (hd text) :: byte;
          len = (if lead AND 0xe0 = 0xc0 then 2 else if lead AND 0xf0 = 0xe0 then 3
                 else if lead AND 0xf8 = 0xf0 then 4 else 1)
      in if length text < len then 1
         else if list_all (\<lambda>c. (of_char c :: byte) AND 0xc0 = 0x80) (take (len - 1) (tl text))
         then len else 1)"

text \<open>
  The loop of \<open>FindGlobMatches\<close>. Its variables are the unread pattern and value and, after a
  \<open>*\<close>, the pattern behind it and the value it was last tried against.
\<close>

partial_function (option) glob_loop ::
  "string \<Rightarrow> string \<Rightarrow> (string \<times> string) option \<Rightarrow> bool option" where
  "glob_loop p v star =
     (if v = [] then Some (dropWhile (\<lambda>c. c = CHR ''*'') p = [])
      else if p \<noteq> [] \<and> hd p = CHR ''?''
      then glob_loop (tl p) (drop (Utf8CodePointBytes v) v) star
      else if p \<noteq> [] \<and> hd p \<noteq> CHR ''*''
      then
        (if Utf8CodePointBytes p \<noteq> Utf8CodePointBytes v \<or>
            take (Utf8CodePointBytes p) p \<noteq> take (Utf8CodePointBytes v) v
         then (case star of
                 None \<Rightarrow> Some False
               | Some (sp, sv) \<Rightarrow>
                   glob_loop sp (drop (Utf8CodePointBytes sv) sv)
                     (Some (sp, drop (Utf8CodePointBytes sv) sv)))
         else glob_loop (drop (Utf8CodePointBytes p) p) (drop (Utf8CodePointBytes v) v) star)
      else if p \<noteq> [] \<and> hd p = CHR ''*'' then glob_loop (tl p) v (Some (tl p, v))
      else (case star of
              None \<Rightarrow> Some False
            | Some (sp, sv) \<Rightarrow>
                glob_loop sp (drop (Utf8CodePointBytes sv) sv)
                  (Some (sp, drop (Utf8CodePointBytes sv) sv))))"

definition FindGlobMatches :: "string \<Rightarrow> string \<Rightarrow> bool option" where
  "FindGlobMatches pattern value = glob_loop pattern value None"

subsection \<open>What a pattern means\<close>

text \<open>
  A string as its code points (a byte that starts no complete code point stands for itself), and a
  pattern over them: \<open>*\<close> is any sequence of code points, \<open>?\<close> any one of them.
\<close>

lemma code_point_bytes_bounds:
  "v \<noteq> [] \<Longrightarrow> 0 < Utf8CodePointBytes v \<and> Utf8CodePointBytes v \<le> length v"
  by (auto simp: Utf8CodePointBytes_def Let_def neq_Nil_conv)

function code_points :: "string \<Rightarrow> string list" where
  "code_points v =
     (if v = [] then []
      else take (Utf8CodePointBytes v) v # code_points (drop (Utf8CodePointBytes v) v))"
  by pat_completeness auto
termination
  by (relation "measure length") (auto dest: code_point_bytes_bounds)

declare code_points.simps [simp del]

fun glob_match :: "string list \<Rightarrow> string list \<Rightarrow> bool" where
  "glob_match [] vs = (vs = [])"
| "glob_match (p # ps) vs =
     (if p = ''*'' then list_ex (\<lambda>k. glob_match ps (drop k vs)) [0..<Suc (length vs)]
      else vs \<noteq> [] \<and> (p = ''?'' \<or> p = hd vs) \<and> glob_match ps (tl vs))"

declare glob_match.simps(2) [simp del]

lemma code_points_Nil [simp]: "code_points [] = []"
  by (simp add: code_points.simps)

lemma code_points_step:
  "v \<noteq> [] \<Longrightarrow> code_points v = take (Utf8CodePointBytes v) v # code_points (drop (Utf8CodePointBytes v) v)"
  by (subst code_points.simps) simp

lemma code_points_empty [simp]: "code_points v = [] \<longleftrightarrow> v = []"
  by (cases "v = []") (auto simp: code_points_step)

lemma drop_code_points: "v \<noteq> [] \<Longrightarrow> code_points (drop (Utf8CodePointBytes v) v) = drop 1 (code_points v)"
  by (simp add: code_points_step[of v])

lemma concat_code_points: "concat (code_points v) = v"
proof (induction v rule: code_points.induct)
  case (1 v)
  then show ?case by (cases "v = []") (simp_all add: code_points_step[of v])
qed

lemma length_concat_drop: "length (concat (drop n xs)) \<le> length (concat xs)"
  by (subst (2) append_take_drop_id[of n xs, symmetric]) (simp del: append_take_drop_id)

lemma special_code_point:
  "p \<noteq> [] \<Longrightarrow> hd p = CHR ''?'' \<or> hd p = CHR ''*'' \<Longrightarrow> Utf8CodePointBytes p = 1"
  by (auto simp: Utf8CodePointBytes_def Let_def)

lemma code_points_special:
  "p \<noteq> [] \<Longrightarrow> hd p = CHR ''?'' \<or> hd p = CHR ''*'' \<Longrightarrow> code_points p = [hd p] # code_points (tl p)"
  by (cases p) (auto simp: code_points_step special_code_point)

lemma hd_code_point: "p \<noteq> [] \<Longrightarrow> take (Utf8CodePointBytes p) p = c # cs \<Longrightarrow> hd p = c"
  by (cases p; cases "Utf8CodePointBytes p") auto

lemma glob_match_star:
  "glob_match (''*'' # ps) vs \<longleftrightarrow> (\<exists>k \<le> length vs. glob_match ps (drop k vs))"
  by (auto simp: glob_match.simps list_ex_iff less_Suc_eq_le simp del: upt_Suc)

lemma glob_match_one:
  "p \<noteq> ''*'' \<Longrightarrow> glob_match (p # ps) vs \<longleftrightarrow>
     vs \<noteq> [] \<and> (p = ''?'' \<or> p = hd vs) \<and> glob_match ps (tl vs)"
  by (simp add: glob_match.simps)

lemma glob_match_prefix:
  "''*'' \<notin> set a \<Longrightarrow> glob_match (a @ b) vs \<Longrightarrow> length a \<le> length vs \<and> glob_match b (drop (length a) vs)"
proof (induction a arbitrary: vs)
  case Nil
  then show ?case by simp
next
  case (Cons x a)
  then have "vs \<noteq> []" "glob_match (a @ b) (tl vs)" by (auto simp: glob_match_one)
  with Cons show ?case by (cases vs) auto
qed

lemma glob_match_take:
  "''*'' \<notin> set (take n a) \<Longrightarrow> n \<le> length a \<Longrightarrow> glob_match a vs \<Longrightarrow>
   n \<le> length vs \<and> glob_match (drop n a) (drop n vs)"
  using glob_match_prefix[of "take n a" "drop n a" vs] by (simp add: min.absorb2)

lemma glob_match_empty: "glob_match (code_points p) [] \<longleftrightarrow> dropWhile (\<lambda>c. c = CHR ''*'') p = []"
proof (induction p)
  case Nil
  then show ?case by simp
next
  case (Cons c p)
  show ?case
  proof (cases "c = CHR ''*''")
    case True
    with Cons show ?thesis by (simp add: code_points_special glob_match_star)
  next
    case False
    then have "take (Utf8CodePointBytes (c # p)) (c # p) \<noteq> ''*''"
      using hd_code_point[of "c # p"] by auto
    with False show ?thesis by (simp add: code_points_step[of "c # p"] glob_match_one)
  qed
qed

subsection \<open>The matching loop\<close>

text \<open>
  What a state of the loop can still become: a match from here, or a match with the last \<open>*\<close>
  taking at least one code point more than it does now.
\<close>

definition glob_retry :: "(string \<times> string) option \<Rightarrow> bool" where
  "glob_retry star = (case star of None \<Rightarrow> False | Some (sp, sv) \<Rightarrow>
     (\<exists>k. 0 < k \<and> k \<le> length (code_points sv) \<and> glob_match (code_points sp) (drop k (code_points sv))))"

text \<open>
  Since the last \<open>*\<close> the loop has read as many code points of the value as of the pattern, and no
  other \<open>*\<close>.
\<close>

definition glob_inv :: "string \<Rightarrow> string \<Rightarrow> (string \<times> string) option \<Rightarrow> bool" where
  "glob_inv p v star = (case star of None \<Rightarrow> True | Some (sp, sv) \<Rightarrow>
     (\<exists>n \<le> length (code_points sv). n \<le> length (code_points sp) \<and>
        code_points p = drop n (code_points sp) \<and> code_points v = drop n (code_points sv) \<and>
        ''*'' \<notin> set (take n (code_points sp))))"

definition glob_measure :: "string \<Rightarrow> string \<Rightarrow> (string \<times> string) option \<Rightarrow> nat \<times> nat \<times> nat" where
  "glob_measure p v star = (case star of
     None \<Rightarrow> (Suc (length p), 0, 0)
   | Some (sp, sv) \<Rightarrow> (length sp, length sv, length p + length v))"

lemma glob_inv_refl: "glob_inv sp sv (Some (sp, sv))"
  by (auto simp: glob_inv_def intro!: exI[of _ 0])

lemma glob_inv_step:
  assumes "glob_inv p v star" "code_points p = x # ps" "code_points v = y # vs" "x \<noteq> ''*''"
    "code_points p' = ps" "code_points v' = vs"
  shows "glob_inv p' v' star"
proof (cases star)
  case (Some s)
  obtain sp sv where s: "s = (sp, sv)" by (cases s)
  from assms(1) Some s obtain n where n: "n \<le> length (code_points sv)" "n \<le> length (code_points sp)"
      "drop n (code_points sp) = x # ps" "drop n (code_points sv) = y # vs"
      "''*'' \<notin> set (take n (code_points sp))"
    using assms(2,3) by (auto simp: glob_inv_def)
  then have lt: "n < length (code_points sp)" "n < length (code_points sv)"
    by (auto simp: not_le[symmetric])
  have "take (Suc n) (code_points sp) = take n (code_points sp) @ [x]"
    using n(3) lt(1) by (metis hd_drop_conv_nth list.sel(1) take_Suc_conv_app_nth)
  moreover have "drop (Suc n) (code_points sp) = ps" "drop (Suc n) (code_points sv) = vs"
    using n(3,4) by (metis drop_Suc list.sel(3) tl_drop)+
  ultimately have "Suc n \<le> length (code_points sv) \<and> Suc n \<le> length (code_points sp) \<and>
      code_points p' = drop (Suc n) (code_points sp) \<and> code_points v' = drop (Suc n) (code_points sv) \<and>
      ''*'' \<notin> set (take (Suc n) (code_points sp))"
    using lt n(5) assms(4-6) by auto
  then show ?thesis unfolding Some s glob_inv_def by auto
qed (simp add: glob_inv_def)

lemma glob_retry_empty:
  assumes "glob_inv p [] star" shows "\<not> glob_retry star"
proof (cases star)
  case (Some s)
  obtain sp sv where s: "s = (sp, sv)" by (cases s)
  from assms Some s obtain n where n: "n = length (code_points sv)" "n \<le> length (code_points sp)"
      "''*'' \<notin> set (take n (code_points sp))"
    by (auto simp: glob_inv_def)
  have "\<not> glob_match (code_points sp) (drop k (code_points sv))"
    if "0 < k" "k \<le> length (code_points sv)" for k
    using glob_match_take[OF n(3,2), of "drop k (code_points sv)"] n(1) that by auto
  with Some s show ?thesis by (auto simp: glob_retry_def)
qed (simp add: glob_retry_def)

lemma glob_retry_star:
  assumes "glob_inv p v star" "code_points p = ''*'' # ps" "glob_retry star"
  shows "glob_match (code_points p) (code_points v)"
proof -
  obtain sp sv where star: "star = Some (sp, sv)"
    using assms(3) by (auto simp: glob_retry_def split: option.splits)
  with assms obtain n k where n: "n \<le> length (code_points sv)" "n \<le> length (code_points sp)"
      "code_points p = drop n (code_points sp)" "code_points v = drop n (code_points sv)"
      "''*'' \<notin> set (take n (code_points sp))"
    and k: "k \<le> length (code_points sv)" "glob_match (code_points sp) (drop k (code_points sv))"
    by (auto simp: glob_inv_def glob_retry_def)
  from glob_match_take[OF n(5,2) k(2)]
  have "n \<le> length (code_points sv) - k" "glob_match (code_points p) (drop (n + k) (code_points sv))"
    using n(3) by (simp_all add: ac_simps)
  then obtain j where "j \<le> length (drop (n + k) (code_points sv))"
      "glob_match ps (drop j (drop (n + k) (code_points sv)))"
    unfolding assms(2) glob_match_star by blast
  then have "k + j \<le> length (code_points v)" "glob_match ps (drop (k + j) (code_points v))"
    using n(4) \<open>n \<le> length (code_points sv) - k\<close> k(1) by (simp_all add: ac_simps)
  then show ?thesis unfolding assms(2) glob_match_star by blast
qed

lemma glob_retry_next:
  assumes "sv \<noteq> []"
  shows "glob_retry (Some (sp, sv)) \<longleftrightarrow>
     glob_match (code_points sp) (code_points (drop (Utf8CodePointBytes sv) sv)) \<or>
     glob_retry (Some (sp, drop (Utf8CodePointBytes sv) sv))"
proof -
  let ?V = "code_points sv"
  have len: "0 < length ?V" using assms by simp
  have "(\<exists>k. 0 < k \<and> k \<le> length ?V \<and> glob_match (code_points sp) (drop k ?V)) \<longleftrightarrow>
      glob_match (code_points sp) (drop 1 ?V) \<or>
      (\<exists>k. 0 < k \<and> k \<le> length ?V - 1 \<and> glob_match (code_points sp) (drop (Suc k) ?V))"
    (is "?L \<longleftrightarrow> ?R")
  proof
    assume ?L
    then obtain k where k: "0 < k" "k \<le> length ?V" "glob_match (code_points sp) (drop k ?V)" by blast
    show ?R
    proof (cases "k = 1")
      case False
      with k have "0 < k - 1 \<and> k - 1 \<le> length ?V - 1 \<and> glob_match (code_points sp) (drop (Suc (k - 1)) ?V)"
        by auto
      then show ?R by blast
    qed (use k in simp)
  next
    assume ?R
    then show ?L
    proof
      assume "glob_match (code_points sp) (drop 1 ?V)"
      with len show ?L by (intro exI[of _ 1]) (simp add: Suc_le_eq)
    next
      assume "\<exists>k. 0 < k \<and> k \<le> length ?V - 1 \<and> glob_match (code_points sp) (drop (Suc k) ?V)"
      then obtain k where "k \<le> length ?V - 1" "glob_match (code_points sp) (drop (Suc k) ?V)" by blast
      moreover from this(1) len have "Suc k \<le> length ?V" by linarith
      ultimately show ?L by (intro exI[of _ "Suc k"]) simp
    qed
  qed
  then show ?thesis using assms by (simp add: glob_retry_def drop_code_points)
qed

lemma glob_inv_star_value: "glob_inv p v (Some (sp, sv)) \<Longrightarrow> v \<noteq> [] \<Longrightarrow> sv \<noteq> []"
  by (auto simp: glob_inv_def)

lemma glob_inv_pattern_length:
  assumes "glob_inv p v (Some (sp, sv))" shows "length p \<le> length sp"
proof -
  from assms obtain n where "code_points p = drop n (code_points sp)" by (auto simp: glob_inv_def)
  then show ?thesis
    using length_concat_drop[of n "code_points sp"] concat_code_points[of p] concat_code_points[of sp]
    by simp
qed

definition glob_less :: "((string \<times> string \<times> (string \<times> string) option) \<times>
    (string \<times> string \<times> (string \<times> string) option)) set" where
  "glob_less = inv_image (less_than <*lex*> less_than <*lex*> less_than)
     (\<lambda>(p, v, star). glob_measure p v star)"

lemma wf_glob_less: "wf glob_less"
  by (simp add: glob_less_def wf_inv_image wf_lex_prod)

lemma glob_less_step:
  "p \<noteq> [] \<Longrightarrow> 0 < n \<Longrightarrow> ((drop n p, drop m v, star), (p, v, star)) \<in> glob_less"
  by (cases p) (auto simp: glob_less_def glob_measure_def split: option.splits)

lemma glob_less_retry:
  "glob_inv p v (Some (sp, sv)) \<Longrightarrow> v \<noteq> [] \<Longrightarrow>
   ((sp, drop (Utf8CodePointBytes sv) sv, Some (sp, drop (Utf8CodePointBytes sv) sv)),
    (p, v, Some (sp, sv))) \<in> glob_less"
  using glob_inv_star_value[of p v sp sv] code_point_bytes_bounds[of sv]
  by (auto simp: glob_less_def glob_measure_def)

lemma glob_less_star:
  "glob_inv p v star \<Longrightarrow> p \<noteq> [] \<Longrightarrow> ((tl p, v, Some (tl p, v)), (p, v, star)) \<in> glob_less"
  using glob_inv_pattern_length[of p v]
  by (cases p) (fastforce simp: glob_less_def glob_measure_def split: option.splits)+

lemma glob_loop_correct:
  "glob_inv p v star \<Longrightarrow>
   glob_loop p v star = Some (glob_match (code_points p) (code_points v) \<or> glob_retry star)"
proof (induction "(p, v, star)" arbitrary: p v star rule: wf_induct_rule[OF wf_glob_less])
  case (1 p v star)
  note IH = "1.hyps" and inv = "1.prems"
  have retry: "(case star of None \<Rightarrow> Some False
      | Some (sp, sv) \<Rightarrow> glob_loop sp (drop (Utf8CodePointBytes sv) sv)
          (Some (sp, drop (Utf8CodePointBytes sv) sv))) = Some (glob_retry star)" if v: "v \<noteq> []"
  proof (cases star)
    case (Some s)
    obtain sp sv where s: "s = (sp, sv)" by (cases s)
    with inv Some have "glob_inv p v (Some (sp, sv))" by simp
    from IH[OF glob_less_retry[OF this v, folded s Some, unfolded s] glob_inv_refl]
      glob_retry_next[OF glob_inv_star_value[OF this v]] Some s
    show ?thesis by simp
  qed (simp add: glob_retry_def)
  show ?case
  proof (cases "v = []")
    case True
    with inv glob_retry_empty show ?thesis
      by (subst glob_loop.simps) (auto simp: glob_match_empty)
  next
    case v: False
    note Vs = code_points_step[OF v]
    consider (none) "p = []" | (any) "p \<noteq> []" "hd p = CHR ''?''" | (star) "p \<noteq> []" "hd p = CHR ''*''"
      | (char) "p \<noteq> []" "hd p \<noteq> CHR ''?''" "hd p \<noteq> CHR ''*''" by blast
    then show ?thesis
    proof cases
      case none
      with v retry[OF v] show ?thesis by (subst glob_loop.simps) simp
    next
      case any
      then have P: "code_points p = ''?'' # code_points (tl p)" by (simp add: code_points_special)
      have "glob_inv (tl p) (drop (Utf8CodePointBytes v) v) star"
        using glob_inv_step[OF inv P Vs] by simp
      then have "glob_loop (tl p) (drop (Utf8CodePointBytes v) v) star = Some
          (glob_match (code_points (tl p)) (code_points (drop (Utf8CodePointBytes v) v)) \<or> glob_retry star)"
        using IH[OF glob_less_step[of p 1, folded drop_Suc]] any by (simp add: drop_Suc)
      with v any show ?thesis
        by (subst glob_loop.simps) (simp add: P Vs glob_match_one)
    next
      case star
      then have P: "code_points p = ''*'' # code_points (tl p)" by (simp add: code_points_special)
      have "glob_loop (tl p) v (Some (tl p, v)) = Some
          (glob_match (code_points (tl p)) (code_points v) \<or> glob_retry (Some (tl p, v)))"
        using IH[OF glob_less_star[OF inv star(1)] glob_inv_refl] .
      moreover have "(glob_match (code_points (tl p)) (code_points v) \<or> glob_retry (Some (tl p, v))) =
          glob_match (code_points p) (code_points v)"
        unfolding P glob_match_star glob_retry_def
        by (auto intro: exI[of _ 0]) (metis drop0 neq0_conv)
      ultimately show ?thesis
        using v star glob_retry_star[OF inv P] by (subst glob_loop.simps) auto
    next
      case char
      let ?x = "take (Utf8CodePointBytes p) p" and ?y = "take (Utf8CodePointBytes v) v"
      have P: "code_points p = ?x # code_points (drop (Utf8CodePointBytes p) p)"
        by (rule code_points_step[OF char(1)])
      have x: "?x \<noteq> ''*''" "?x \<noteq> ''?''" using hd_code_point[OF char(1)] char(2,3) by auto
      have same: "(Utf8CodePointBytes p \<noteq> Utf8CodePointBytes v \<or> ?x \<noteq> ?y) = (?x \<noteq> ?y)"
        using code_point_bytes_bounds[OF char(1)] code_point_bytes_bounds[OF v]
        by (metis length_take min.absorb2)
      show ?thesis
      proof (cases "?x = ?y")
        case True
        have "glob_inv (drop (Utf8CodePointBytes p) p) (drop (Utf8CodePointBytes v) v) star"
          using glob_inv_step[OF inv P Vs x(1)] by simp
        from IH[OF glob_less_step[OF char(1)] this] code_point_bytes_bounds[OF char(1)]
        have "glob_loop (drop (Utf8CodePointBytes p) p) (drop (Utf8CodePointBytes v) v) star = Some
            (glob_match (code_points (drop (Utf8CodePointBytes p) p))
               (code_points (drop (Utf8CodePointBytes v) v)) \<or> glob_retry star)" by simp
        moreover have "glob_match (code_points p) (code_points v) =
            glob_match (code_points (drop (Utf8CodePointBytes p) p))
               (code_points (drop (Utf8CodePointBytes v) v))"
          using True x unfolding P Vs by (simp add: glob_match_one)
        ultimately show ?thesis
          using True v char same by (subst glob_loop.simps) simp
      next
        case False
        then have "\<not> glob_match (code_points p) (code_points v)"
          using x unfolding P Vs by (simp add: glob_match_one)
        with False v char same retry[OF v] show ?thesis by (subst glob_loop.simps) simp
      qed
    qed
  qed
qed

section \<open>JSON strings\<close>

definition hex_digit :: "nat \<Rightarrow> char" where
  "hex_digit n = ''0123456789abcdef'' ! n"

text \<open>\<open>snprintf(escaped, "\\u%04x", c)\<close> for a character below 0x20.\<close>

definition unicode_escape :: "char \<Rightarrow> string" where
  "unicode_escape c =
     [CHR 0x5C, CHR ''u'', CHR ''0'', CHR ''0'',
      hex_digit (of_char c div 16), hex_digit (of_char c mod 16)]"

definition json_escape_char :: "char \<Rightarrow> string" where
  "json_escape_char c =
     (if c = CHR 0x22 then [CHR 0x5C, CHR 0x22]
      else if c = CHR 0x5C then [CHR 0x5C, CHR 0x5C]
      else if c = CHR 0x08 then [CHR 0x5C, CHR ''b'']
      else if c = CHR 0x0C then [CHR 0x5C, CHR ''f'']
      else if c = CHR 0x0A then [CHR 0x5C, CHR ''n'']
      else if c = CHR 0x0D then [CHR 0x5C, CHR ''r'']
      else if c = CHR 0x09 then [CHR 0x5C, CHR ''t'']
      else if (of_char c :: nat) < 0x20 then unicode_escape c
      else [c])"

definition JsonEscape :: "string \<Rightarrow> string" where
  "JsonEscape value = concat (map json_escape_char value)"

text \<open>
  A reader of JSON string bodies: it stops at an unescaped quotation mark and refuses control
  characters and unknown escapes.
\<close>

definition hex_value :: "char \<Rightarrow> nat option" where
  "hex_value c = find (\<lambda>n. hex_digit n = c) [0..<16]"

definition json_short_escape :: "char \<Rightarrow> char option" where
  "json_short_escape c =
     map_of [(CHR 0x22, CHR 0x22), (CHR 0x5C, CHR 0x5C), (CHR ''b'', CHR 0x08), (CHR ''f'', CHR 0x0C),
             (CHR ''n'', CHR 0x0A), (CHR ''r'', CHR 0x0D), (CHR ''t'', CHR 0x09)] c"

fun json_read_string :: "string \<Rightarrow> (string \<times> string) option" where
  "json_read_string [] = None"
| "json_read_string (c # rest) =
     (if c = CHR 0x22 then Some ([], rest)
      else if (of_char c :: nat) < 0x20 then None
      else if c \<noteq> CHR 0x5C
      then map_option (\<lambda>(body, r). (c # body, r)) (json_read_string rest)
      else (case rest of
              [] \<Rightarrow> None
            | e # more \<Rightarrow>
                if e = CHR ''u''
                then (case more of
                        a # b # x # y # more' \<Rightarrow>
                          (case (hex_value a, hex_value b, hex_value x, hex_value y) of
                             (Some 0, Some 0, Some h, Some l) \<Rightarrow>
                               map_option (\<lambda>(body, r). (char_of (16 * h + l) # body, r))
                                 (json_read_string more')
                           | _ \<Rightarrow> None)
                      | _ \<Rightarrow> None)
                else (case json_short_escape e of
                        None \<Rightarrow> None
                      | Some d \<Rightarrow> map_option (\<lambda>(body, r). (d # body, r)) (json_read_string more))))"

lemma hex_value_hex_digit: "n < 16 \<Longrightarrow> hex_value (hex_digit n) = Some n"
proof -
  have "list_all (\<lambda>n. hex_value (hex_digit n) = Some n) [0..<16]" by code_simp
  then show "n < 16 \<Longrightarrow> hex_value (hex_digit n) = Some n" by (simp add: list_all_iff)
qed

lemma hex_digit_zero: "CHR ''0'' = hex_digit 0"
  by (simp add: hex_digit_def)

lemma json_read_unicode:
  assumes "(of_char c :: nat) < 0x20"
  shows "json_read_string (unicode_escape c @ rest) =
         map_option (\<lambda>(body, r). (c # body, r)) (json_read_string rest)"
proof -
  have "hex_value (hex_digit (of_char c div 16)) = Some (of_char c div 16)"
      "hex_value (hex_digit (of_char c mod 16)) = Some (of_char c mod 16)"
      "hex_value (CHR ''0'') = Some 0"
    using assms by (simp_all add: hex_value_hex_digit hex_digit_zero)
  moreover have "char_of (16 * (of_char c div 16) + of_char c mod 16 :: nat) = c"
    by simp
  ultimately show ?thesis
    by (simp add: unicode_escape_def)
qed

lemma json_read_escaped_char:
  "json_read_string (json_escape_char c @ rest) =
   map_option (\<lambda>(body, r). (c # body, r)) (json_read_string rest)"
  by (simp add: json_escape_char_def json_read_unicode json_short_escape_def)

lemma json_read_JsonEscape:
  "json_read_string (JsonEscape value @ CHR 0x22 # rest) = Some (value, rest)"
  by (induction "value") (simp_all add: JsonEscape_def json_read_escaped_char)

section \<open>Properties\<close>

text \<open>
  C4: Every path that \<open>CanonicalPath\<close> prints from valid components is parsed back to the same
  components by \<open>PathParts\<close>.
\<close>

theorem path_round_trip:
  "list_all valid_part parts \<Longrightarrow> PathParts (CanonicalPath parts) = Inr parts"
  by (rule canonical_path_parts)

theorem path_round_trip_witness:
  "PathParts (CanonicalPath [''notes'', ''hello.txt'']) = Inr [''notes'', ''hello.txt'']"
  by (rule path_round_trip) (simp add: valid_part_def kSlash_def)

text \<open>
  C5: The components of an accepted path are never empty, \<open>.\<close> or \<open>..\<close>, hold no slash and no NUL
  byte and have at most 255 bytes, so resolving them cannot leave the workspace; printing them
  gives a path that parses to the same components.
\<close>

theorem path_parts_safe:
  assumes "PathParts path = Inr parts"
  shows "list_all valid_part parts \<and> PathParts (CanonicalPath parts) = Inr parts"
proof -
  have "list_all valid_part parts"
    using assms by (auto simp: PathParts_def split: if_splits dest: path_loop_parts in_set_tl)
  then show ?thesis by (simp add: canonical_path_parts)
qed

theorem path_parts_safe_witness:
  "PathParts ''/a//b/'' = Inr [''a'', ''b''] \<and> list_all valid_part [''a'', ''b'']"
proof -
  have parse: "PathParts ''/a//b/'' = Inr [''a'', ''b'']"
    by (simp add: PathParts_def path_loop.simps kSlash_def)
  with path_parts_safe[OF this] show ?thesis by simp
qed

text \<open>
  C6: \<open>FindGlobMatches\<close> always returns, and its greedy single-backtrack loop decides exactly the
  meaning of the pattern over code points: \<open>*\<close> any sequence, \<open>?\<close> any one code point, everything
  else itself.
\<close>

theorem find_glob_matches_correct:
  "FindGlobMatches pattern str = Some (glob_match (code_points pattern) (code_points str))"
  unfolding FindGlobMatches_def using glob_loop_correct[of pattern str None]
  by (simp add: glob_inv_def glob_retry_def)

text \<open>
  C7: A string that \<open>JsonEscape\<close> writes between quotation marks reads back as the same string and
  ends exactly at the closing mark, whatever follows: no name or path can break out of the JSON
  documents the functions return.
\<close>

theorem json_escape_round_trip:
  "json_read_string (JsonEscape str @ CHR 0x22 # rest) = Some (str, rest)"
  by (rule json_read_JsonEscape)

end
