(* ===== verification/Vex_Schema.thy ===== *)
theory Vex_Schema
  imports Vex_Prelude
begin

text \<open>
  The database of VexFS: the tables that \<open>EnsureSchemaSlow\<close> and \<open>CreateHistorySchema\<close> create, one
  record per row type, the triggers that fire on their rows, and the argument checks of the SQL
  functions (src/vexdb\_sqlite/src/agent\_files/vexfs\_sqlite.cpp).

  Row ids, and the columns a CHECK constraint keeps non-negative or that only count up from 0, are
  natural numbers; sizes without a CHECK, times, user ids, quotas and the live counters are
  integers. A nullable column is an option. The state also holds what a statement reads from its
  surroundings: the clock in milliseconds, and the user and group of the process.
\<close>

section \<open>Limits\<close>

definition kMaxStagedBytes :: nat where
  "kMaxStagedBytes = 128 * 1024 * 1024"

definition kContentChunkBytes :: nat where
  "kContentChunkBytes = 64 * 1024"

definition kMaxSymlinkBytes :: nat where
  "kMaxSymlinkBytes = 4096"

definition kMaxXattrBytes :: nat where
  "kMaxXattrBytes = 64 * 1024"

definition kRequestRetentionRows :: nat where
  "kRequestRetentionRows = 64 * 1024"

definition kRequestPruneInterval :: nat where
  "kRequestPruneInterval = 4 * 1024"

lemma kContentChunkBytes_pos [simp]: "0 < kContentChunkBytes"
  by (simp add: kContentChunkBytes_def)

section \<open>Rows\<close>

datatype kind = KFile | KDirectory | KSymlink

datatype workspace_state = Active | Importing

datatype handle_state = HOpen | HRetained | HClosed

datatype GrepIndexState = GrepDisabled | GrepAvailable | GrepUnavailable

record workspace_row =
  w_id :: nat
  w_name :: string
  w_state :: workspace_state
  w_root :: "nat option"
  w_head :: "nat option"
  w_floor :: "nat option"
  w_keep_versions :: nat
  w_keep_days :: nat
  w_agent_keep :: nat
  w_safety_keep :: nat
  w_snapshot_days :: nat
  w_gc_paused :: bool
  w_max_bytes :: "int option"
  w_max_files :: "int option"
  w_max_file_bytes :: "int option"
  w_live_files :: int
  w_live_bytes :: int

record inode_row =
  i_id :: nat
  i_workspace :: nat
  i_kind :: kind
  i_mode :: nat
  i_owner :: string
  i_uid :: int
  i_gid :: int
  i_size :: int
  i_version :: nat
  i_created :: int
  i_accessed :: int
  i_updated :: int
  i_changed :: int
  i_deleted :: "int option"

record dentry_row =
  d_workspace :: nat
  d_parent :: nat
  d_name :: string
  d_inode :: nat

record commit_row =
  c_id :: nat
  c_workspace :: nat
  c_parent :: "nat option"
  c_message :: string
  c_path :: string
  c_session :: "string option"
  c_created :: int

record manifest_row =
  m_id :: nat
  m_workspace :: nat
  m_file_size :: nat
  m_chunk_size :: nat
  m_chunk_count :: nat
  m_checksum :: string

record chunk_row =
  ch_id :: nat
  ch_workspace :: nat
  ch_inode :: nat
  ch_content :: "byte list"
  ch_size :: nat
  ch_checksum :: string

record manifest_chunk_row =
  mc_manifest :: nat
  mc_no :: nat
  mc_chunk :: nat

record version_row =
  v_id :: nat
  v_inode :: nat
  v_no :: nat
  v_commit :: nat
  v_manifest :: "nat option"
  v_size :: int
  v_checksum :: string
  v_source :: "nat option"
  v_created :: int

record xattr_row =
  x_inode :: nat
  x_name :: string
  x_value :: "byte list"

record acl_row =
  a_workspace :: nat
  a_inode :: nat
  a_principal :: string
  a_effect :: string
  a_permissions :: string
  a_inherit :: nat

record handle_row =
  h_id :: string
  h_workspace :: nat
  h_inode :: nat
  h_flags :: string
  h_writable :: bool
  h_expected :: nat
  h_dirty :: nat
  h_published :: nat
  h_state :: handle_state
  h_lease :: "int option"
  h_owner :: "string option"
  h_updated :: int

record staging_row =
  s_handle :: string
  s_generation :: nat
  s_base_manifest :: "nat option"
  s_base_size :: nat
  s_base_visible :: nat
  s_logical :: nat
  s_capacity :: nat

record staging_chunk_row =
  sc_handle :: string
  sc_no :: nat
  sc_content :: "byte list"

record snapshot_row =
  sn_id :: nat
  sn_workspace :: nat
  sn_name :: string
  sn_type :: string
  sn_commit :: nat
  sn_created :: int

record request_row =
  r_rowid :: nat
  r_id :: string
  r_operation :: string
  r_fingerprint :: "byte list"
  r_integer :: "int option"
  r_text :: "string option"

record session_row =
  ss_workspace :: nat
  ss_id :: string
  ss_lease :: int

text \<open>The history tables: the state of a row as of a commit.\<close>

record inode_state_row =
  is_commit :: nat
  is_row :: inode_row

record dentry_state_row =
  ds_workspace :: nat
  ds_parent :: nat
  ds_name :: string
  ds_commit :: nat
  ds_inode :: nat
  ds_deleted :: bool

record xattr_state_row =
  xs_workspace :: nat
  xs_inode :: nat
  xs_name :: string
  xs_commit :: nat
  xs_value :: "byte list"
  xs_deleted :: bool

record acl_state_row =
  as_workspace :: nat
  as_inode :: nat
  as_principal :: string
  as_effect :: string
  as_commit :: nat
  as_permissions :: string
  as_inherit :: nat
  as_deleted :: bool

record dirty_dentry_row =
  dd_workspace :: nat
  dd_parent :: nat
  dd_name :: string
  dd_inode :: nat

record fts_row =
  f_inode :: nat
  f_workspace :: nat
  f_version :: nat
  f_content :: "byte list"

section \<open>The database\<close>

record db =
  workspaces :: "workspace_row list"
  inodes :: "inode_row list"
  dentries :: "dentry_row list"
  commits :: "commit_row list"
  manifests :: "manifest_row list"
  chunks :: "chunk_row list"
  manifest_chunks :: "manifest_chunk_row list"
  file_versions :: "version_row list"
  xattrs :: "xattr_row list"
  acl_entries :: "acl_row list"
  inode_states :: "inode_state_row list"
  dentry_states :: "dentry_state_row list"
  xattr_states :: "xattr_state_row list"
  acl_states :: "acl_state_row list"
  dirty_inodes :: "(nat \<times> nat) list"
  dirty_dentries :: "dirty_dentry_row list"
  dirty_xattrs :: "(nat \<times> nat \<times> string) list"
  dirty_acl :: "(nat \<times> nat \<times> string \<times> string) list"
  handles :: "handle_row list"
  staging :: "staging_row list"
  staging_chunks :: "staging_chunk_row list"
  snapshots :: "snapshot_row list"
  requests :: "request_row list"
  mount_sessions :: "session_row list"
  content_fts :: "fts_row list"
  grep_marker :: bool
  grep_dirty :: bool
  grep_state :: GrepIndexState
  clock :: int
  process_uid :: int
  process_gid :: int

definition empty_db :: db where
  "empty_db = \<lparr>workspaces = [], inodes = [], dentries = [], commits = [], manifests = [], chunks = [],
     manifest_chunks = [], file_versions = [], xattrs = [], acl_entries = [], inode_states = [],
     dentry_states = [], xattr_states = [], acl_states = [], dirty_inodes = [], dirty_dentries = [],
     dirty_xattrs = [], dirty_acl = [], handles = [], staging = [], staging_chunks = [],
     snapshots = [], requests = [], mount_sessions = [], content_fts = [], grep_marker = False, grep_dirty = False,
     grep_state = GrepDisabled, clock = 0, process_uid = 0, process_gid = 0\<rparr>"

type_synonym 'a vexfs = "(db, 'a) oper"

text \<open>
  \<open>CAST(unixepoch('subsec')*1000 AS INTEGER)\<close> and \<open>CAST(strftime('%s','now') AS INTEGER)*1000\<close>.
\<close>

definition now_ms :: "db \<Rightarrow> int" where
  "now_ms s = clock s"

definition now_s_ms :: "db \<Rightarrow> int" where
  "now_s_ms s = clock s div 1000 * 1000"

section \<open>Triggers on inodes\<close>

text \<open>
  \<open>_vexfs_quota_inode_insert\<close>, \<open>_vexfs_quota_inode_update\<close> and the history triggers. A row counts
  for the quota of its workspace while it is live and not a directory.
\<close>

definition counted :: "inode_row \<Rightarrow> bool" where
  "counted i \<longleftrightarrow> i_kind i \<noteq> KDirectory \<and> i_deleted i = None"

definition quota_add :: "inode_row \<Rightarrow> workspace_row \<Rightarrow> workspace_row" where
  "quota_add i w = (if w_id w = i_workspace i
     then w\<lparr>w_live_files := w_live_files w + (if counted i then 1 else 0),
             w_live_bytes := w_live_bytes w + (if counted i then i_size i else 0)\<rparr>
     else w)"

definition quota_sub :: "inode_row \<Rightarrow> workspace_row \<Rightarrow> workspace_row" where
  "quota_sub i w = (if w_id w = i_workspace i
     then w\<lparr>w_live_files := w_live_files w - (if counted i then 1 else 0),
             w_live_bytes := w_live_bytes w - (if counted i then i_size i else 0)\<rparr>
     else w)"

text \<open>\<open>INSERT ... ON CONFLICT DO NOTHING\<close> into a table of keys.\<close>

definition add_key :: "'k \<Rightarrow> 'k list \<Rightarrow> 'k list" where
  "add_key k ks = (if k \<in> set ks then ks else ks @ [k])"

definition inode_key :: "inode_row \<Rightarrow> nat \<times> nat" where
  "inode_key i = (i_workspace i, i_id i)"

definition insert_inode :: "inode_row \<Rightarrow> db \<Rightarrow> db" where
  "insert_inode i s =
     s\<lparr>inodes := inodes s @ [i], workspaces := map (quota_add i) (workspaces s),
       dirty_inodes := add_key (inode_key i) (dirty_inodes s)\<rparr>"

text \<open>\<open>UPDATE _vexfs_inodes SET f WHERE p\<close>: the triggers run for every row that is written.\<close>

definition update_inodes :: "(inode_row \<Rightarrow> bool) \<Rightarrow> (inode_row \<Rightarrow> inode_row) \<Rightarrow> db \<Rightarrow> db" where
  "update_inodes p f s =
     s\<lparr>inodes := map (\<lambda>i. if p i then f i else i) (inodes s),
       workspaces :=
         fold (\<lambda>i. map (\<lambda>w. quota_add (f i) (quota_sub i w))) (filter p (inodes s)) (workspaces s),
       dirty_inodes := fold (\<lambda>i. add_key (inode_key (f i))) (filter p (inodes s)) (dirty_inodes s)\<rparr>"

section \<open>Triggers on directory entries\<close>

definition dentry_key :: "dentry_row \<Rightarrow> nat \<times> nat \<times> string" where
  "dentry_key d = (d_workspace d, d_parent d, d_name d)"

text \<open>\<open>INSERT ... ON CONFLICT DO UPDATE SET inode_id=excluded.inode_id\<close>\<close>

definition upsert_dirty :: "dentry_row \<Rightarrow> dirty_dentry_row list \<Rightarrow> dirty_dentry_row list" where
  "upsert_dirty d rows =
     (if \<exists>r \<in> set rows. (dd_workspace r, dd_parent r, dd_name r) = dentry_key d
      then map (\<lambda>r. if (dd_workspace r, dd_parent r, dd_name r) = dentry_key d
                    then r\<lparr>dd_inode := d_inode d\<rparr> else r) rows
      else rows @ [\<lparr>dd_workspace = d_workspace d, dd_parent = d_parent d, dd_name = d_name d,
                    dd_inode = d_inode d\<rparr>])"

definition unique_failed :: vex_error where
  "unique_failed = SqlError ''UNIQUE constraint failed'' SQLITE_CONSTRAINT"

text \<open>The primary key is (workspace, parent, name).\<close>

definition insert_dentry :: "dentry_row \<Rightarrow> unit vexfs" where
  "insert_dentry d =
     bind (gets (\<lambda>s. dentry_key d \<in> dentry_key ` set (dentries s))) (\<lambda>exists.
     require (\<not> exists) unique_failed
       (modify (\<lambda>s. s\<lparr>dentries := dentries s @ [d],
                       dirty_dentries := upsert_dirty d (dirty_dentries s)\<rparr>)))"

definition delete_dentries :: "(dentry_row \<Rightarrow> bool) \<Rightarrow> db \<Rightarrow> db" where
  "delete_dentries p s =
     s\<lparr>dentries := filter (\<lambda>d. \<not> p d) (dentries s),
       dirty_dentries := fold upsert_dirty (filter p (dentries s)) (dirty_dentries s)\<rparr>"

text \<open>
  \<open>UPDATE _vexfs_dentries SET parent_inode, name WHERE key\<close>: one row at most, and the new key must
  be free.
\<close>

definition move_dentry :: "nat \<Rightarrow> nat \<Rightarrow> string \<Rightarrow> nat \<Rightarrow> string \<Rightarrow> unit vexfs" where
  "move_dentry ws parent name parent' name' =
     bind (gets (\<lambda>s. find (\<lambda>d. dentry_key d = (ws, parent, name)) (dentries s))) (\<lambda>row.
     case row of
       None \<Rightarrow> ret ()
     | Some d \<Rightarrow>
         bind (gets (\<lambda>s. (ws, parent', name') \<in> dentry_key ` (set (dentries s) - {d}))) (\<lambda>exists.
         require (\<not> exists) unique_failed
           (modify (\<lambda>s.
              let d' = d\<lparr>d_parent := parent', d_name := name'\<rparr>
              in s\<lparr>dentries := map (\<lambda>r. if r = d then d' else r) (dentries s),
                   dirty_dentries := upsert_dirty d' (upsert_dirty d (dirty_dentries s))\<rparr>))))"

section \<open>Triggers on access entries\<close>

definition acl_key :: "acl_row \<Rightarrow> nat \<times> nat \<times> string \<times> string" where
  "acl_key a = (a_workspace a, a_inode a, a_principal a, a_effect a)"

text \<open>\<open>INSERT OR IGNORE\<close>\<close>

definition insert_acl_or_ignore :: "acl_row \<Rightarrow> db \<Rightarrow> db" where
  "insert_acl_or_ignore a s =
     (if acl_key a \<in> acl_key ` set (acl_entries s) then s
      else s\<lparr>acl_entries := acl_entries s @ [a], dirty_acl := add_key (acl_key a) (dirty_acl s)\<rparr>)"

end
