(* ===== verification/Vex_Content.thy ===== *)
theory Vex_Content
  imports Vex_Schema Vex_Checksum
begin

text \<open>
  The content store: a file version refers to a manifest, a manifest to numbered chunks of 64 KiB.
  \<open>ResolveVersionStorage\<close>, \<open>ReadVersionContent\<close>, \<open>ReadVersionRange\<close> and \<open>StoreManifest\<close> of
  src/vexdb\_sqlite/src/agent\_files/vexfs\_sqlite.cpp.

  The lemmas show that what was stored is read back, that storing leaves every other manifest as
  it was, and that reading a range is the segment of reading the whole.
\<close>

section \<open>Looking up a version\<close>

record VersionStorage =
  vs_manifest :: nat
  vs_size :: nat
  vs_canonical :: nat
  vs_chunk_count :: nat
  vs_checksum :: string

definition find_version :: "db \<Rightarrow> nat \<Rightarrow> nat \<Rightarrow> version_row option" where
  "find_version s inode no = find (\<lambda>v. v_inode v = inode \<and> v_no v = no) (file_versions s)"

definition find_manifest :: "db \<Rightarrow> nat \<Rightarrow> manifest_row option" where
  "find_manifest s mid = find (\<lambda>m. m_id m = mid) (manifests s)"

text \<open>\<open>(size + kContentChunkBytes - 1) / kContentChunkBytes\<close>\<close>

definition chunk_count_of :: "nat \<Rightarrow> nat" where
  "chunk_count_of file_size = (file_size + kContentChunkBytes - 1) div kContentChunkBytes"

text \<open>
  The row that \<open>CASE WHEN v.source_version_no IS NULL THEN v.x ELSE source.x END\<close> reads from, and the
  manifest it refers to: the two left joins, none when a join finds nothing.
\<close>

definition canonical_row :: "db \<Rightarrow> version_row \<Rightarrow> version_row option" where
  "canonical_row s v = (case v_source v of None \<Rightarrow> Some v | Some no \<Rightarrow> find_version s (v_inode v) no)"

definition canonical_manifest :: "db \<Rightarrow> version_row \<Rightarrow> (version_row \<times> manifest_row) option" where
  "canonical_manifest s v =
     (case canonical_row s v of
        None \<Rightarrow> None
      | Some r \<Rightarrow> (case v_manifest r of
                    None \<Rightarrow> None
                  | Some mid \<Rightarrow> map_option (Pair r) (find_manifest s mid)))"

definition reference_corrupt :: "version_row \<Rightarrow> version_row \<Rightarrow> manifest_row \<Rightarrow> bool" where
  "reference_corrupt v r m \<longleftrightarrow>
     m_id m = 0 \<or> v_size v < 0 \<or> int kMaxStagedBytes < v_size v \<or> v_size v \<noteq> int (m_file_size m) \<or>
     length (v_checksum v) \<noteq> 64 \<or> v_checksum v \<noteq> v_checksum r \<or> v_checksum v \<noteq> m_checksum m \<or>
     m_chunk_size m \<noteq> kContentChunkBytes \<or> m_chunk_count m \<noteq> chunk_count_of (nat (v_size v))"

definition ResolveVersionStorage :: "db \<Rightarrow> nat \<Rightarrow> nat \<Rightarrow> VersionStorage result" where
  "ResolveVersionStorage s inode_id version =
     (case find_version s inode_id version of
        None \<Rightarrow> Inl (SqlError (''file version not found: '' @ to_string version) SQLITE_NOTFOUND)
      | Some v \<Rightarrow>
          let corrupt = Inl (SqlError ''file version content reference is corrupt'' SQLITE_CORRUPT)
          in (case canonical_manifest s v of
                None \<Rightarrow> corrupt
              | Some (r, m) \<Rightarrow>
                  if reference_corrupt v r m then corrupt
                  else Inr \<lparr>vs_manifest = m_id m, vs_size = nat (v_size v),
                            vs_canonical = (case v_source v of None \<Rightarrow> v_no v | Some n \<Rightarrow> n),
                            vs_chunk_count = m_chunk_count m, vs_checksum = v_checksum v\<rparr>))"

section \<open>Reading a version\<close>

text \<open>\<open>SELECT ... JOIN _vexfs_chunks ... WHERE manifest_id=? ORDER BY chunk_no\<close>\<close>

definition manifest_rows :: "db \<Rightarrow> nat \<Rightarrow> (nat \<times> chunk_row) list" where
  "manifest_rows s mid =
     sort_key fst (concat (map (\<lambda>e. map (Pair (mc_no e)) (filter (\<lambda>c. ch_id c = mc_chunk e) (chunks s)))
       (filter (\<lambda>e. mc_manifest e = mid) (manifest_chunks s))))"

text \<open>
  The loop over the rows. Each chunk is copied behind the previous one, so the offset is the length
  of the content read so far.
\<close>

definition expected_chunk_size :: "nat \<Rightarrow> nat \<Rightarrow> nat" where
  "expected_chunk_size file_size chunk_offset = min kContentChunkBytes (file_size - chunk_offset)"

definition chunk_corrupt :: "nat \<Rightarrow> nat \<Rightarrow> nat \<Rightarrow> chunk_row \<Rightarrow> bool" where
  "chunk_corrupt expected_chunk expected_size no c \<longleftrightarrow>
     no \<noteq> expected_chunk \<or> expected_size = 0 \<or> ch_size c \<noteq> expected_size \<or>
     length (ch_content c) \<noteq> expected_size \<or> length (ch_checksum c) \<noteq> 64 \<or>
     Sha256Hex (ch_content c) \<noteq> Inr (ch_checksum c)"

function read_chunks ::
  "nat \<Rightarrow> nat \<Rightarrow> (nat \<times> chunk_row) list \<Rightarrow> byte list \<Rightarrow> ManifestChunkChecksum list \<Rightarrow>
   (nat \<times> byte list \<times> ManifestChunkChecksum list) result" where
  "read_chunks file_size expected_chunk [] content acc = Inr (expected_chunk, content, acc)"
| "read_chunks file_size expected_chunk ((no, c) # rows) content acc =
     (let expected_size = expected_chunk_size file_size (length content)
      in if chunk_corrupt expected_chunk expected_size no c
         then Inl (SqlError ''file manifest chunk is corrupt'' SQLITE_CORRUPT)
         else read_chunks file_size (expected_chunk + 1) rows (content @ ch_content c)
                (acc @ [\<lparr>mcc_size = length (ch_content c), mcc_checksum = ch_checksum c\<rparr>]))"
  by pat_completeness auto
termination
  by (relation "measure (\<lambda>(_, _, rows, _, _). length rows)") auto

definition ReadVersionContent :: "db \<Rightarrow> nat \<Rightarrow> nat \<Rightarrow> byte list result" where
  "ReadVersionContent s inode_id version =
     res_bind (ResolveVersionStorage s inode_id version) (\<lambda>storage.
     if kMaxStagedBytes < vs_size storage
     then Inl (SqlError ''file version is larger than 128 MiB'' SQLITE_CORRUPT)
     else
       res_bind (read_chunks (vs_size storage) 0 (manifest_rows s (vs_manifest storage)) [] [])
         (\<lambda>(expected_chunk, content, acc).
       let corrupt = Inl (SqlError ''file version checksum does not match content'' SQLITE_CORRUPT)
       in if length content \<noteq> vs_size storage \<or> expected_chunk \<noteq> vs_chunk_count storage \<or>
             expected_chunk \<noteq> chunk_count_of (vs_size storage)
          then corrupt
          else res_bind (ManifestChecksum (vs_size storage) kContentChunkBytes acc) (\<lambda>t.
                 if t \<noteq> vs_checksum storage then corrupt else Inr content)))"

section \<open>Reading a range\<close>

text \<open>The bytes of \<open>[offset, range_end)\<close> that lie in the chunk at \<open>chunk_offset\<close>.\<close>

definition range_part :: "nat \<Rightarrow> nat \<Rightarrow> nat \<Rightarrow> nat \<Rightarrow> byte list \<Rightarrow> byte list" where
  "range_part offset range_end chunk_offset expected_size data =
     (let copy_start = max offset chunk_offset - chunk_offset;
          copy_end = min range_end (chunk_offset + expected_size) - chunk_offset
      in drop copy_start (take copy_end data))"

function read_range_chunks ::
  "nat \<Rightarrow> nat \<Rightarrow> nat \<Rightarrow> nat \<Rightarrow> (nat \<times> chunk_row) list \<Rightarrow> byte list \<Rightarrow> (nat \<times> byte list) result" where
  "read_range_chunks file_size offset range_end expected_chunk [] content =
     Inr (expected_chunk, content)"
| "read_range_chunks file_size offset range_end expected_chunk ((no, c) # rows) content =
     (let chunk_offset = no * kContentChunkBytes;
          expected_size = expected_chunk_size file_size chunk_offset
      in if chunk_corrupt expected_chunk expected_size no c
         then Inl (SqlError ''file manifest range chunk is corrupt'' SQLITE_CORRUPT)
         else read_range_chunks file_size offset range_end (expected_chunk + 1) rows
                (content @ range_part offset range_end chunk_offset expected_size (ch_content c)))"
  by pat_completeness auto
termination
  by (relation "measure (\<lambda>(_, _, _, _, rows, _). length rows)") simp_all

definition ReadVersionRange :: "db \<Rightarrow> nat \<Rightarrow> nat \<Rightarrow> int \<Rightarrow> int \<Rightarrow> byte list result" where
  "ReadVersionRange s inode_id version off len =
     res_bind (ResolveVersionStorage s inode_id version) (\<lambda>storage.
     if kMaxStagedBytes < vs_size storage
     then Inl (SqlError ''file version is larger than 128 MiB'' SQLITE_CORRUPT)
     else if off < 0 \<or> len < 0 \<or> int kMaxStagedBytes < off \<or> int kMaxStagedBytes < len
     then Inl (SqlError ''read range must be within 0..128 MiB'' SQLITE_RANGE)
     else if len = 0 \<or> int (vs_size storage) \<le> off then Inr []
     else
       let offset = nat off;
           range_end = min (vs_size storage) (offset + nat len);
           first_chunk = offset div kContentChunkBytes;
           last_chunk = (range_end - 1) div kContentChunkBytes;
           rows = filter (\<lambda>(no, _). first_chunk \<le> no \<and> no \<le> last_chunk)
                    (manifest_rows s (vs_manifest storage))
       in res_bind (read_range_chunks (vs_size storage) offset range_end first_chunk rows [])
            (\<lambda>(expected_chunk, content).
          if expected_chunk \<noteq> last_chunk + 1 \<or> length content \<noteq> range_end - offset
          then Inl (SqlError ''file manifest range is incomplete'' SQLITE_CORRUPT)
          else Inr content))"

section \<open>Storing a manifest\<close>

definition insert_manifest :: "nat \<Rightarrow> nat \<Rightarrow> nat vexfs" where
  "insert_manifest workspace_id file_size =
     bind (gets (\<lambda>s. next_rowid (map m_id (manifests s)))) (\<lambda>mid.
     andthen (modify (\<lambda>s. s\<lparr>manifests := manifests s @
         [\<lparr>m_id = mid, m_workspace = workspace_id, m_file_size = file_size,
           m_chunk_size = kContentChunkBytes, m_chunk_count = chunk_count_of file_size,
           m_checksum = replicate 64 CHR ''0''\<rparr>]\<rparr>))
     (ret mid))"

definition insert_chunk :: "nat \<Rightarrow> nat \<Rightarrow> byte list \<Rightarrow> string \<Rightarrow> nat vexfs" where
  "insert_chunk workspace_id inode_id data checksum =
     bind (gets (\<lambda>s. next_rowid (map ch_id (chunks s)))) (\<lambda>cid.
     andthen (modify (\<lambda>s. s\<lparr>chunks := chunks s @
         [\<lparr>ch_id = cid, ch_workspace = workspace_id, ch_inode = inode_id, ch_content = data,
           ch_size = length data, ch_checksum = checksum\<rparr>]\<rparr>))
     (ret cid))"

text \<open>The primary key is (manifest, chunk number).\<close>

definition insert_entry :: "nat \<Rightarrow> nat \<Rightarrow> nat \<Rightarrow> unit vexfs" where
  "insert_entry mid no cid =
     bind (gets (\<lambda>s. \<exists>e \<in> set (manifest_chunks s). mc_manifest e = mid \<and> mc_no e = no)) (\<lambda>exists.
     require (\<not> exists) unique_failed
       (modify (\<lambda>s. s\<lparr>manifest_chunks := manifest_chunks s @
          [\<lparr>mc_manifest = mid, mc_no = no, mc_chunk = cid\<rparr>]\<rparr>)))"

definition set_manifest_checksum :: "nat \<Rightarrow> string \<Rightarrow> db \<Rightarrow> db" where
  "set_manifest_checksum mid t s =
     s\<lparr>manifests := map (\<lambda>m. if m_id m = mid then m\<lparr>m_checksum := t\<rparr> else m) (manifests s)\<rparr>"

text \<open>The chunk at this position of the previous manifest, if it holds these bytes.\<close>

definition previous_chunk :: "db \<Rightarrow> nat \<Rightarrow> nat \<Rightarrow> nat \<Rightarrow> byte list \<Rightarrow> string \<Rightarrow> nat option" where
  "previous_chunk s previous_manifest no inode_id data checksum =
     (if previous_manifest = 0 then None
      else case find (\<lambda>(n, c). n = no \<and> ch_inode c = inode_id) (manifest_rows s previous_manifest) of
             None \<Rightarrow> None
           | Some (_, c) \<Rightarrow>
               if ch_size c = length data \<and> ch_checksum c = checksum \<and> ch_content c = data
               then Some (ch_id c) else None)"

definition reuse_key :: "byte list \<Rightarrow> string \<Rightarrow> string" where
  "reuse_key data checksum = to_string (length data) @ '':'' @ checksum"

text \<open>
  One iteration after the chunk id has been looked up: reuse a chunk stored for this manifest, or
  insert a new one; then insert the manifest entry.
\<close>

definition place_chunk ::
  "nat \<Rightarrow> nat \<Rightarrow> nat \<Rightarrow> nat \<Rightarrow> byte list \<Rightarrow> string \<Rightarrow> nat option \<Rightarrow> (string \<times> nat) list \<Rightarrow>
   (string \<times> nat) list vexfs" where
  "place_chunk workspace_id inode_id mid no data checksum found new_chunks =
     (case (found, map_of new_chunks (reuse_key data checksum)) of
        (Some cid, _) \<Rightarrow> andthen (insert_entry mid no cid) (ret new_chunks)
      | (None, Some cid) \<Rightarrow> andthen (insert_entry mid no cid) (ret new_chunks)
      | (None, None) \<Rightarrow>
          bind (insert_chunk workspace_id inode_id data checksum) (\<lambda>cid.
          andthen (insert_entry mid no cid) (ret ((reuse_key data checksum, cid) # new_chunks))))"

function store_chunks ::
  "nat \<Rightarrow> nat \<Rightarrow> nat \<Rightarrow> nat \<Rightarrow> nat \<Rightarrow> byte list list \<Rightarrow> (string \<times> nat) list \<Rightarrow>
   ManifestChunkChecksum list \<Rightarrow> ManifestChunkChecksum list vexfs" where
  "store_chunks workspace_id inode_id previous_manifest mid no [] new_chunks acc = ret acc"
| "store_chunks workspace_id inode_id previous_manifest mid no (data # rest) new_chunks acc =
     bind (query (\<lambda>_. Sha256Hex data)) (\<lambda>checksum.
     bind (gets (\<lambda>s. previous_chunk s previous_manifest no inode_id data checksum)) (\<lambda>found.
     bind (place_chunk workspace_id inode_id mid no data checksum found new_chunks) (\<lambda>new_chunks'.
       store_chunks workspace_id inode_id previous_manifest mid (no + 1) rest new_chunks'
         (acc @ [\<lparr>mcc_size = length data, mcc_checksum = checksum\<rparr>]))))"
  by pat_completeness auto
termination
  by (relation "measure (\<lambda>(_, _, _, _, _, rest, _, _). length rest)") auto

definition StoreManifest :: "nat \<Rightarrow> nat \<Rightarrow> nat \<Rightarrow> byte list \<Rightarrow> (nat \<times> string) vexfs" where
  "StoreManifest workspace_id inode_id previous_manifest content =
     bind (insert_manifest workspace_id (length content)) (\<lambda>mid.
     bind (store_chunks workspace_id inode_id previous_manifest mid 0
             (chunks_of kContentChunkBytes content) [] []) (\<lambda>acc.
     bind (query (\<lambda>_. ManifestChecksum (length content) kContentChunkBytes acc)) (\<lambda>checksum.
     andthen (modify (set_manifest_checksum mid checksum)) (ret (mid, checksum)))))"

section \<open>What reading returns\<close>

lemma chunk_count_of_length: "chunk_count_of (length xs) = length (chunks_of kContentChunkBytes xs)"
  by (simp add: chunk_count_of_def length_chunks_of)

text \<open>A chunk row that holds the given bytes.\<close>

definition stored_chunk :: "byte list \<Rightarrow> chunk_row \<Rightarrow> bool" where
  "stored_chunk d c \<longleftrightarrow> ch_content c = d \<and> ch_size c = length d \<and> Sha256Hex d = Inr (ch_checksum c)"

text \<open>A manifest that holds the given content.\<close>

definition manifest_stored :: "db \<Rightarrow> nat \<Rightarrow> byte list \<Rightarrow> bool" where
  "manifest_stored s mid content \<longleftrightarrow>
     (\<exists>cs. manifest_rows s mid = enumerate 0 cs \<and>
           list_all2 stored_chunk (chunks_of kContentChunkBytes content) cs)"

definition chunk_mcc :: "chunk_row \<Rightarrow> ManifestChunkChecksum" where
  "chunk_mcc c = \<lparr>mcc_size = length (ch_content c), mcc_checksum = ch_checksum c\<rparr>"

lemma stored_chunk_not_corrupt:
  "stored_chunk d c \<Longrightarrow> d \<noteq> [] \<Longrightarrow> length d = n \<Longrightarrow> \<not> chunk_corrupt k n k c"
  using Sha256Hex_text[of d "ch_checksum c"]
  by (auto simp: stored_chunk_def chunk_corrupt_def is_sha256_text_def)

lemma read_chunks_stored:
  "list_all2 stored_chunk (chunks_of kContentChunkBytes rest) cs \<Longrightarrow>
   read_chunks (length content + length rest) k (enumerate k cs) content acc =
     Inr (k + length cs, content @ rest, acc @ map chunk_mcc cs)"
proof (induction kContentChunkBytes rest arbitrary: cs k content acc rule: chunks_of.induct)
  case (1 rest)
  show ?case
  proof (cases "rest = []")
    case True
    with "1.prems" show ?thesis by simp
  next
    case False
    define d where "d = take kContentChunkBytes rest"
    define r where "r = drop kContentChunkBytes rest"
    have rest: "rest = d @ r" by (simp add: d_def r_def)
    have d: "d \<noteq> []" "length d = expected_chunk_size (length content + length rest) (length content)"
      using False kContentChunkBytes_pos
      by (auto simp: d_def expected_chunk_size_def simp del: kContentChunkBytes_pos)
    from "1.prems" False obtain c cs' where cs: "cs = c # cs'" "stored_chunk d c"
        "list_all2 stored_chunk (chunks_of kContentChunkBytes r) cs'"
      by (auto simp: chunks_of_step[of _ rest] list_all2_Cons1 d_def r_def)
    note ok = stored_chunk_not_corrupt[OF cs(2) d]
    have "read_chunks (length (content @ d) + length r) (Suc k) (enumerate (Suc k) cs') (content @ d)
            (acc @ [chunk_mcc c]) = Inr (Suc k + length cs', (content @ d) @ r, (acc @ [chunk_mcc c]) @ map chunk_mcc cs')"
      using 1(1)[of "cs'" "content @ d" "Suc k" "acc @ [chunk_mcc c]"] False cs(3) by (simp add: r_def)
    moreover have "length content + length rest = length (content @ d) + length r" by (simp add: rest)
    ultimately have *: "read_chunks (length content + length rest) (Suc k) (enumerate (Suc k) cs')
        (content @ d) (acc @ [chunk_mcc c]) = Inr (k + length cs, content @ rest, acc @ map chunk_mcc cs)"
      using cs(1) rest by (simp add: add.assoc)
    from ok d(2) have "\<not> chunk_corrupt k (expected_chunk_size (length content + length rest)
        (length content)) k c" by metis
    with * cs(2) show ?thesis by (simp add: cs(1) chunk_mcc_def stored_chunk_def)
  qed
qed

lemma read_chunks_ok:
  "read_chunks n k rows content acc = Inr (k', content', acc') \<Longrightarrow> length content' = n \<Longrightarrow>
   \<exists>cs rest. rows = enumerate k cs \<and> content' = content @ rest \<and>
     list_all2 stored_chunk (chunks_of kContentChunkBytes rest) cs"
proof (induction n k rows content acc rule: read_chunks.induct)
  case (1 n k content acc)
  then show ?case by auto
next
  case (2 n k no c rows content acc)
  define m where "m = expected_chunk_size n (length content)"
  from "2.prems"(1) have ok: "\<not> chunk_corrupt k m no c"
    and step: "read_chunks n (k + 1) rows (content @ ch_content c)
        (acc @ [\<lparr>mcc_size = length (ch_content c), mcc_checksum = ch_checksum c\<rparr>]) = Inr (k', content', acc')"
    by (auto simp: Let_def m_def split: if_splits)
  from "2.IH"[OF refl ok[unfolded m_def] step "2.prems"(2)]
  obtain cs rest where ih: "rows = enumerate (Suc k) cs"
      "content' = (content @ ch_content c) @ rest"
      "list_all2 stored_chunk (chunks_of kContentChunkBytes rest) cs"
    by auto
  from ok have c: "no = k" "length (ch_content c) = m" "0 < m" "stored_chunk (ch_content c) c"
    by (auto simp: chunk_corrupt_def stored_chunk_def)
  have "chunks_of kContentChunkBytes (ch_content c @ rest) = ch_content c # chunks_of kContentChunkBytes rest"
  proof (cases "rest = []")
    case True
    have "m \<le> kContentChunkBytes" by (simp add: m_def expected_chunk_size_def)
    then have "length (ch_content c) \<le> kContentChunkBytes" "ch_content c \<noteq> []"
      using c(2,3) by auto
    then show ?thesis
      by (simp add: True chunks_of_step[of _ "ch_content c"] del: length_0_conv)
  next
    case False
    with ih(2) "2.prems"(2) c have "length (ch_content c) = kContentChunkBytes"
      by (auto simp: m_def expected_chunk_size_def min_def split: if_splits)
    then show ?thesis using False
      by (subst chunks_of_step) auto
  qed
  with ih c show ?case
    by (intro exI[of _ "c # cs"] exI[of _ "ch_content c @ rest"]) simp
qed

text \<open>The checksum of a file's content: its chunks and their digests.\<close>

definition bytes_mcc :: "byte list \<Rightarrow> ManifestChunkChecksum" where
  "bytes_mcc d = \<lparr>mcc_size = length d, mcc_checksum = projr (Sha256Hex d)\<rparr>"

definition content_checksum :: "byte list \<Rightarrow> string result" where
  "content_checksum content =
     ManifestChecksum (length content) kContentChunkBytes (map bytes_mcc (chunks_of kContentChunkBytes content))"

lemma stored_mcc: "list_all2 stored_chunk ds cs \<Longrightarrow> map chunk_mcc cs = map bytes_mcc ds"
  by (induction rule: list_all2_induct) (auto simp: stored_chunk_def chunk_mcc_def bytes_mcc_def)

lemma ResolveVersionStorage_Inr:
  "ResolveVersionStorage s inode version = Inr st \<longleftrightarrow>
     (\<exists>v r m. find_version s inode version = Some v \<and> canonical_manifest s v = Some (r, m) \<and>
        \<not> reference_corrupt v r m \<and>
        st = \<lparr>vs_manifest = m_id m, vs_size = nat (v_size v),
              vs_canonical = (case v_source v of None \<Rightarrow> v_no v | Some n \<Rightarrow> n),
              vs_chunk_count = m_chunk_count m, vs_checksum = v_checksum v\<rparr>)"
  by (auto simp: ResolveVersionStorage_def Let_def split: option.splits)

lemma ResolveVersionStorage_ok:
  assumes "ResolveVersionStorage s inode version = Inr st"
  shows "vs_size st \<le> kMaxStagedBytes" "vs_chunk_count st = chunk_count_of (vs_size st)"
    "length (vs_checksum st) = 64" "0 < vs_manifest st"
  using assms by (auto simp: ResolveVersionStorage_Inr reference_corrupt_def)

lemma find_manifest_id: "find_manifest s mid = Some m \<Longrightarrow> m_id m = mid"
  by (auto simp: find_manifest_def dest: find_SomeD)

lemma canonical_manifest_Some:
  "canonical_manifest s v = Some (r, m) \<longleftrightarrow>
     canonical_row s v = Some r \<and> v_manifest r = Some (m_id m) \<and> find_manifest s (m_id m) = Some m"
  by (auto simp: canonical_manifest_def dest: find_manifest_id split: option.splits)

lemma ReadVersionContent_ok:
  "ReadVersionContent s inode version = Inr content \<longleftrightarrow>
     (\<exists>st. ResolveVersionStorage s inode version = Inr st \<and> vs_size st = length content \<and>
           manifest_stored s (vs_manifest st) content \<and> content_checksum content = Inr (vs_checksum st))"
  (is "?L \<longleftrightarrow> ?R")
proof
  assume ?L
  then obtain st k acc where st: "ResolveVersionStorage s inode version = Inr st"
      "read_chunks (vs_size st) 0 (manifest_rows s (vs_manifest st)) [] [] = Inr (k, content, acc)"
      "length content = vs_size st" "ManifestChecksum (vs_size st) kContentChunkBytes acc = Inr (vs_checksum st)"
    by (auto simp: ReadVersionContent_def op_ok Let_def split: if_splits)
  from read_chunks_ok[OF st(2,3)] obtain cs where cs: "manifest_rows s (vs_manifest st) = enumerate 0 cs"
      "list_all2 stored_chunk (chunks_of kContentChunkBytes content) cs" by auto
  with read_chunks_stored[OF cs(2), of "[]" 0 "[]"] st have "acc = map chunk_mcc cs" by simp
  then have "content_checksum content = Inr (vs_checksum st)"
    using st stored_mcc[OF cs(2)] by (simp add: content_checksum_def)
  with st cs show ?R by (auto simp: manifest_stored_def)
next
  assume ?R
  then obtain st cs where st: "ResolveVersionStorage s inode version = Inr st"
      "vs_size st = length content" "content_checksum content = Inr (vs_checksum st)"
    and cs: "manifest_rows s (vs_manifest st) = enumerate 0 cs"
      "list_all2 stored_chunk (chunks_of kContentChunkBytes content) cs"
    by (auto simp: manifest_stored_def)
  have "length cs = chunk_count_of (length content)"
    using list_all2_lengthD[OF cs(2)] by (simp add: chunk_count_of_length)
  with st cs ResolveVersionStorage_ok[OF st(1)] read_chunks_stored[OF cs(2), of "[]" 0 "[]"]
    stored_mcc[OF cs(2)]
  show ?L by (simp add: ReadVersionContent_def content_checksum_def)
qed

section \<open>Reading a range is a segment of reading the whole\<close>

lemma range_part_segment:
  assumes "d = take kContentChunkBytes (drop co content)"
  shows "range_part offset range_end co (expected_chunk_size (length content) co) d =
     segment (max offset co) (min range_end (co + expected_chunk_size (length content) co)) content"
proof -
  let ?e = "expected_chunk_size (length content) co"
  have e: "length d = ?e" using assms by (simp add: expected_chunk_size_def min.commute)
  have "take (min range_end (co + ?e) - co) d = drop co (take (min range_end (co + ?e)) content)"
  proof -
    have "min range_end (co + ?e) - co \<le> kContentChunkBytes" by (simp add: expected_chunk_size_def)
    then have "take (min range_end (co + ?e) - co) d = take (min range_end (co + ?e) - co) (drop co content)"
      by (simp add: assms min_def)
    then show ?thesis by (simp add: drop_take)
  qed
  then show ?thesis by (simp add: range_part_def segment_def Let_def max_def)
qed

lemma segment_chunk_append:
  assumes "offset < range_end" "offset div n \<le> k" "k * n < range_end" "0 < n"
  shows "segment (max offset (k * n)) (min range_end (Suc k * n)) xs @
         segment (max offset (Suc k * n)) range_end xs = segment (max offset (k * n)) range_end xs"
proof -
  have "offset < Suc k * n" using assms by (metis div_less_iff_less_mult less_Suc_eq_le)
  then have a: "max offset (Suc k * n) = Suc k * n" by simp
  show ?thesis
  proof (cases "Suc k * n \<le> range_end")
    case True
    have "max offset (k * n) \<le> Suc k * n" using \<open>offset < Suc k * n\<close> by simp
    with True show ?thesis unfolding a min.absorb2[OF True] by (simp only: segment_append)
  next
    case False
    then have "min range_end (Suc k * n) = range_end" "segment (Suc k * n) range_end xs = []" by simp_all
    then show ?thesis unfolding a by simp
  qed
qed

lemma chunk_last:
  assumes "k \<le> (range_end - 1) div n" "0 < range_end" "0 < (n::nat)"
  shows "k * n < range_end"
proof -
  have "k * n \<le> (range_end - 1) div n * n" using assms(1) by (rule mult_le_mono1)
  also have "\<dots> \<le> range_end - 1" by (rule div_times_less_eq_dividend)
  finally show ?thesis using assms(2) by simp
qed

lemma read_range_stored:
  assumes stored: "list_all2 stored_chunk (chunks_of kContentChunkBytes content) cs"
    and range: "offset < range_end" "range_end \<le> length content"
  shows "offset div kContentChunkBytes \<le> k \<Longrightarrow> k \<le> (range_end - 1) div kContentChunkBytes + 1 \<Longrightarrow>
    read_range_chunks (length content) offset range_end k
      (enumerate k (take ((range_end - 1) div kContentChunkBytes + 1 - k) (drop k cs))) acc =
    Inr ((range_end - 1) div kContentChunkBytes + 1,
         acc @ segment (max offset (k * kContentChunkBytes)) range_end content)"
proof (induction "(range_end - 1) div kContentChunkBytes + 1 - k" arbitrary: k acc)
  case 0
  then have "k = (range_end - 1) div kContentChunkBytes + 1" by simp
  moreover have "range_end \<le> ((range_end - 1) div kContentChunkBytes + 1) * kContentChunkBytes"
    using kContentChunkBytes_pos by (metis Suc_eq_plus1 Suc_leI Suc_pred' diff_is_0_eq'
        div_less_iff_less_mult lessI not_gr_zero zero_le)
  ultimately show ?case by simp
next
  case (Suc n)
  let ?C = kContentChunkBytes
  let ?last = "(range_end - 1) div ?C"
  let ?d = "take ?C (drop (k * ?C) content)"
  let ?e = "expected_chunk_size (length content) (k * ?C)"
  have k: "k \<le> ?last" using Suc.hyps(2) by simp
  then have kC: "k * ?C < range_end" by (rule chunk_last) (use range in simp_all)
  then have kl: "k < length (chunks_of ?C content)"
    using range(2) by (intro chunk_in_range) simp_all
  have d: "chunks_of ?C content ! k = ?d" "?d \<noteq> []" "length ?d = ?e"
    using kl kC range(2) by (auto simp: nth_chunks_of expected_chunk_size_def min.commute)
  have ks: "k < length cs" "stored_chunk ?d (cs ! k)"
    using kl list_all2_lengthD[OF stored] list_all2_nthD[OF stored kl] d(1) by simp_all
  note ok = stored_chunk_not_corrupt[OF ks(2) d(2,3)]
  have part: "range_part offset range_end (k * ?C) ?e (ch_content (cs ! k)) =
      segment (max offset (k * ?C)) (min range_end (Suc k * ?C)) content"
    using ks(2) range(2) range_part_segment[of ?d "k * ?C" content offset range_end]
    by (simp add: stored_chunk_def) (simp add: expected_chunk_size_def min_def add.commute)
  have rows: "enumerate k (take (?last + 1 - k) (drop k cs)) =
      (k, cs ! k) # enumerate (Suc k) (take (?last + 1 - Suc k) (drop (Suc k) cs))"
    using ks(1) k by (simp add: Cons_nth_drop_Suc[symmetric] Suc_diff_le)
  have "read_range_chunks (length content) offset range_end (Suc k)
      (enumerate (Suc k) (take (?last + 1 - Suc k) (drop (Suc k) cs)))
      (acc @ segment (max offset (k * ?C)) (min range_end (Suc k * ?C)) content) =
    Inr (?last + 1, (acc @ segment (max offset (k * ?C)) (min range_end (Suc k * ?C)) content) @
      segment (max offset (Suc k * ?C)) range_end content)"
    using Suc.hyps(2) Suc.prems k by (intro Suc.hyps(1)) simp_all
  with ok segment_chunk_append[OF range(1) Suc.prems(1) kC kContentChunkBytes_pos, of content]
  show ?case by (simp only: rows read_range_chunks.simps Let_def part if_False Suc_eq_plus1 append_assoc)
qed

lemma ReadVersionRange_segment:
  assumes content: "ReadVersionContent s inode version = Inr content"
    and range: "0 \<le> off" "off \<le> int kMaxStagedBytes" "0 \<le> len" "len \<le> int kMaxStagedBytes"
  shows "ReadVersionRange s inode version off len = Inr (take (nat len) (drop (nat off) content))"
proof -
  let ?C = kContentChunkBytes
  from content obtain st cs where st: "ResolveVersionStorage s inode version = Inr st"
      "vs_size st = length content"
    and cs: "manifest_rows s (vs_manifest st) = enumerate 0 cs"
      "list_all2 stored_chunk (chunks_of ?C content) cs"
    by (auto simp: ReadVersionContent_ok manifest_stored_def)
  have small: "length content \<le> kMaxStagedBytes" using ResolveVersionStorage_ok(1)[OF st(1)] st(2) by simp
  show ?thesis
  proof (cases "len = 0 \<or> int (length content) \<le> off")
    case True
    with st small range show ?thesis by (auto simp: ReadVersionRange_def)
  next
    case False
    let ?a = "nat off"
    let ?b = "min (length content) (?a + nat len)"
    from False range have ab: "?a < ?b" "?b \<le> length content" by auto
    have rows: "filter (\<lambda>(no, _). ?a div ?C \<le> no \<and> no \<le> (?b - 1) div ?C) (enumerate 0 cs) =
        enumerate (?a div ?C) (take ((?b - 1) div ?C + 1 - ?a div ?C) (drop (?a div ?C) cs))"
      by (simp only: filter_enumerate_range max_0R diff_zero)
    have first: "?a div ?C \<le> (?b - 1) div ?C + 1" using ab by (metis Suc_eq_plus1 Suc_pred' div_le_mono le_SucI le_simps(2) less_nat_zero_code not_gr_zero)
    have start: "max ?a (?a div ?C * ?C) = ?a" by (simp add: max.absorb1)
    have "take (nat len) (drop ?a content) = segment ?a ?b content"
      by (simp add: segment_def drop_take min_def)
    with st small range False ab show ?thesis
      by (simp only: ReadVersionRange_def res_bind_simps cs(1) Let_def rows
            read_range_stored[OF cs(2) ab order.refl first] start st(2)) simp
  qed
qed

section \<open>The tables of the content store\<close>

text \<open>
  Row ids are unique, and every entry of a manifest refers to a manifest and to a chunk that are
  there.
\<close>

definition content_wf :: "db \<Rightarrow> bool" where
  "content_wf s \<longleftrightarrow> distinct (map ch_id (chunks s)) \<and> distinct (map m_id (manifests s)) \<and>
     (\<forall>e \<in> set (manifest_chunks s).
        mc_manifest e \<in> m_id ` set (manifests s) \<and> mc_chunk e \<in> ch_id ` set (chunks s))"

lemma content_wf_empty [simp]: "content_wf empty_db"
  by (simp add: content_wf_def empty_db_def)

definition entries :: "nat \<Rightarrow> nat \<Rightarrow> chunk_row list \<Rightarrow> manifest_chunk_row list" where
  "entries mid no cs = map (\<lambda>(n, c). \<lparr>mc_manifest = mid, mc_no = n, mc_chunk = ch_id c\<rparr>) (enumerate no cs)"

lemma entries_simps [simp]:
  "entries mid no [] = []"
  "entries mid no (c # cs) = \<lparr>mc_manifest = mid, mc_no = no, mc_chunk = ch_id c\<rparr> # entries mid (Suc no) cs"
  by (simp_all add: entries_def)

text \<open>The chunks of a file are told apart by their digests.\<close>

definition no_collision :: "byte list list \<Rightarrow> bool" where
  "no_collision ds \<longleftrightarrow>
     (\<forall>a \<in> set ds. \<forall>b \<in> set ds. length a = length b \<and> Sha256Hex a = Sha256Hex b \<longrightarrow> a = b)"

lemma reuse_key_inj: "reuse_key a t = reuse_key b u \<Longrightarrow> length a = length b \<and> t = u"
  using to_string_split[of "length a" "CHR '':''" t "length b" u] by (simp add: reuse_key_def)

text \<open>A chunk of the inode that holds the given bytes.\<close>

definition owned_chunk :: "nat \<Rightarrow> byte list \<Rightarrow> chunk_row \<Rightarrow> bool" where
  "owned_chunk inode d c \<longleftrightarrow> stored_chunk d c \<and> ch_inode c = inode"

text \<open>What the map of chunks stored for this manifest holds.\<close>

definition new_chunks_ok :: "nat \<Rightarrow> byte list set \<Rightarrow> chunk_row list \<Rightarrow> (string \<times> nat) list \<Rightarrow> bool" where
  "new_chunks_ok inode ds rows new \<longleftrightarrow>
     (\<forall>(key, cid) \<in> set new. \<exists>c \<in> set rows. \<exists>d \<in> ds.
        ch_id c = cid \<and> owned_chunk inode d c \<and> key = reuse_key d (ch_checksum c))"

lemma manifest_rows_chunk: "(n, c) \<in> set (manifest_rows s mid) \<Longrightarrow> c \<in> set (chunks s)"
  by (auto simp: manifest_rows_def)

lemma previous_chunk_stored:
  "previous_chunk s prev no inode d t = Some cid \<Longrightarrow> Sha256Hex d = Inr t \<Longrightarrow>
   \<exists>c \<in> set (chunks s). ch_id c = cid \<and> owned_chunk inode d c"
  by (auto simp: previous_chunk_def owned_chunk_def stored_chunk_def split: if_splits option.splits
      dest!: find_SomeD dest: manifest_rows_chunk)

lemma insert_entry_run:
  "(\<And>e. e \<in> set (manifest_chunks s) \<Longrightarrow> mc_manifest e = mid \<Longrightarrow> mc_no e < no) \<Longrightarrow>
   insert_entry mid no cid s = (Inr (), s\<lparr>manifest_chunks := manifest_chunks s @
      [\<lparr>mc_manifest = mid, mc_no = no, mc_chunk = cid\<rparr>]\<rparr>)"
  by (auto simp: insert_entry_def op_simps)

text \<open>
  A chunk that is reused for the same manifest is chosen by length and digest alone. So an entry may
  refer to another chunk of the content with the same length and digest; without a collision it is
  the same chunk.
\<close>

definition stand_in :: "byte list set \<Rightarrow> byte list \<Rightarrow> byte list \<Rightarrow> bool" where
  "stand_in all d d' \<longleftrightarrow> d' \<in> all \<and> length d' = length d \<and> Sha256Hex d' = Sha256Hex d"

lemma stand_in_refl: "d \<in> all \<Longrightarrow> stand_in all d d"
  by (simp add: stand_in_def)

lemma stand_in_eq: "stand_in (set all) d d' \<Longrightarrow> no_collision all \<Longrightarrow> d \<in> set all \<Longrightarrow> d' = d"
  by (auto simp: stand_in_def no_collision_def)

text \<open>Chunks \<open>ds\<close> have been entered into a manifest from number \<open>no\<close> on, and nothing else changed.\<close>

definition placed :: "nat \<Rightarrow> byte list set \<Rightarrow> nat \<Rightarrow> nat \<Rightarrow> byte list list \<Rightarrow> db \<Rightarrow> db \<Rightarrow> bool" where
  "placed inode all mid no ds s t \<longleftrightarrow>
     (\<exists>extra cs ds'. t = s\<lparr>chunks := chunks s @ extra, manifest_chunks := manifest_chunks s @ entries mid no cs\<rparr> \<and>
        list_all2 (stand_in all) ds ds' \<and> list_all2 (owned_chunk inode) ds' cs \<and>
        set cs \<subseteq> set (chunks s @ extra) \<and> distinct (map ch_id (chunks s @ extra)))"

definition entries_below :: "nat \<Rightarrow> nat \<Rightarrow> db \<Rightarrow> bool" where
  "entries_below mid no s \<longleftrightarrow> (\<forall>e \<in> set (manifest_chunks s). mc_manifest e = mid \<longrightarrow> mc_no e < no)"

lemma placed_Nil: "distinct (map ch_id (chunks s)) \<Longrightarrow> placed inode all mid no [] s s"
  unfolding placed_def by (intro exI[of _ "[]"]) simp

lemma placed_Cons:
  assumes "placed inode all mid no [d] s t" "placed inode all mid (Suc no) ds t u"
  shows "placed inode all mid no (d # ds) s u"
proof -
  from assms(1) obtain extra c d' where t: "t = s\<lparr>chunks := chunks s @ extra, manifest_chunks := manifest_chunks s @ entries mid no [c]\<rparr>"
      "stand_in all d d'" "owned_chunk inode d' c" "c \<in> set (chunks s @ extra)"
    by (auto simp: placed_def list_all2_Cons1)
  from assms(2) obtain extra' cs ds' where u: "u = t\<lparr>chunks := chunks t @ extra', manifest_chunks := manifest_chunks t @ entries mid (Suc no) cs\<rparr>"
      "list_all2 (stand_in all) ds ds'" "list_all2 (owned_chunk inode) ds' cs" "set cs \<subseteq> set (chunks t @ extra')"
      "distinct (map ch_id (chunks t @ extra'))"
    by (auto simp: placed_def)
  have "u = s\<lparr>chunks := chunks s @ (extra @ extra'), manifest_chunks := manifest_chunks s @ entries mid no (c # cs)\<rparr>"
    by (simp add: u(1) t(1))
  moreover have "list_all2 (stand_in all) (d # ds) (d' # ds')" "list_all2 (owned_chunk inode) (d' # ds') (c # cs)"
    using t u by simp_all
  moreover have "set (c # cs) \<subseteq> set (chunks s @ (extra @ extra'))" "distinct (map ch_id (chunks s @ (extra @ extra')))"
    using t u by auto
  ultimately show ?thesis unfolding placed_def by blast
qed

lemma placed_below:
  assumes "placed inode all mid no [d] s t" "entries_below mid no s"
  shows "entries_below mid (Suc no) t"
proof -
  from assms(1) obtain c where "manifest_chunks t = manifest_chunks s @ entries mid no [c]"
    by (auto simp: placed_def list_all2_Cons1)
  with assms(2) show ?thesis by (auto simp: entries_below_def less_Suc_eq)
qed

lemma placed_ids: "placed inode all mid no ds s t \<Longrightarrow> distinct (map ch_id (chunks t))"
  by (auto simp: placed_def)

lemma place_chunk_run:
  assumes ids: "distinct (map ch_id (chunks s))" and below: "entries_below mid no s"
    and new: "new_chunks_ok inode ds (chunks s) new" and d: "d \<in> ds" "Sha256Hex d = Inr t"
    and found: "\<And>cid. found = Some cid \<Longrightarrow> \<exists>c \<in> set (chunks s). ch_id c = cid \<and> owned_chunk inode d c"
  shows "\<exists>new' u. place_chunk ws inode mid no d t found new s = (Inr new', u) \<and>
    placed inode ds mid no [d] s u \<and> new_chunks_ok inode ds (chunks u) new'"
proof -
  have free: "\<And>e. e \<in> set (manifest_chunks s) \<Longrightarrow> mc_manifest e = mid \<Longrightarrow> mc_no e < no"
    using below by (simp add: entries_below_def)
  consider (reused) cid c d' where "found = Some cid \<or> found = None \<and> map_of new (reuse_key d t) = Some cid"
      "c \<in> set (chunks s)" "ch_id c = cid" "owned_chunk inode d' c" "stand_in ds d d'"
    | (fresh) "found = None" "map_of new (reuse_key d t) = None"
  proof (cases found)
    case (Some cid)
    then show ?thesis using found[OF Some] that(1) stand_in_refl[OF d(1)] by blast
  next
    case None
    show ?thesis
    proof (cases "map_of new (reuse_key d t)")
      case (Some cid)
      then have "(reuse_key d t, cid) \<in> set new" by (rule map_of_SomeD)
      with new obtain c d' where c: "c \<in> set (chunks s)" "d' \<in> ds" "ch_id c = cid"
          "owned_chunk inode d' c" "reuse_key d t = reuse_key d' (ch_checksum c)"
        by (fastforce simp: new_chunks_ok_def)
      then have "length d = length d'" "t = ch_checksum c" using reuse_key_inj by blast+
      then have "stand_in ds d d'" using c(2,4) d by (simp add: stand_in_def owned_chunk_def stored_chunk_def)
      with c Some None that(1) show ?thesis by blast
    qed (use None that(2) in blast)
  qed
  then show ?thesis
  proof cases
    case reused
    then have "place_chunk ws inode mid no d t found new s =
        (Inr new, s\<lparr>chunks := chunks s @ [], manifest_chunks := manifest_chunks s @ entries mid no [c]\<rparr>)"
      using insert_entry_run[OF free] by (auto simp: place_chunk_def op_simps)
    moreover have "placed inode ds mid no [d] s (s\<lparr>chunks := chunks s @ [], manifest_chunks := manifest_chunks s @ entries mid no [c]\<rparr>)"
      unfolding placed_def using reused ids
      by (intro exI[of _ "[]"] exI[of _ "[c]"] exI[of _ "[d']"]) simp
    moreover have "new_chunks_ok inode ds (chunks (s\<lparr>chunks := chunks s @ [],
        manifest_chunks := manifest_chunks s @ entries mid no [c]\<rparr>)) new"
      using new by simp
    ultimately show ?thesis by blast
  next
    case fresh
    define c where "c = \<lparr>ch_id = next_rowid (map ch_id (chunks s)), ch_workspace = ws,
      ch_inode = inode, ch_content = d, ch_size = length d, ch_checksum = t\<rparr>"
    let ?u = "s\<lparr>chunks := chunks s @ [c], manifest_chunks := manifest_chunks s @ entries mid no [c]\<rparr>"
    have "insert_entry mid no (ch_id c) (s\<lparr>chunks := chunks s @ [c]\<rparr>) = (Inr (), ?u)"
      using free by (subst insert_entry_run) auto
    then have run: "place_chunk ws inode mid no d t found new s = (Inr ((reuse_key d t, ch_id c) # new), ?u)"
      using fresh by (simp add: place_chunk_def insert_chunk_def op_simps c_def)
    have stored: "owned_chunk inode d c" using d(2) by (simp add: c_def owned_chunk_def stored_chunk_def)
    have "distinct (map ch_id (chunks s @ [c]))" using ids by (simp add: c_def)
    then have "placed inode ds mid no [d] s ?u"
      unfolding placed_def using stored stand_in_refl[OF d(1)]
      by (intro exI[of _ "[c]"] exI[of _ "[c]"] exI[of _ "[d]"]) simp
    moreover have "new_chunks_ok inode ds (chunks ?u) ((reuse_key d t, ch_id c) # new)"
      using new d(1) stored by (fastforce simp: new_chunks_ok_def c_def)
    ultimately show ?thesis using run by blast
  qed
qed

lemma chunk_digest:
  "d \<in> set (chunks_of kContentChunkBytes content) \<Longrightarrow> \<exists>t. Sha256Hex d = Inr t"
  using chunks_of_member_length[of d kContentChunkBytes content] Sha256Hex_digest[of d]
  by (auto simp: kContentChunkBytes_def kMaxHashedBytes_def)

text \<open>The loop: every chunk of the content has an entry of the new manifest, in order.\<close>

lemma store_chunks_run:
  "distinct (map ch_id (chunks s)) \<Longrightarrow> entries_below mid no s \<Longrightarrow> new_chunks_ok inode all (chunks s) new \<Longrightarrow>
   set ds \<subseteq> all \<Longrightarrow> (\<And>d. d \<in> all \<Longrightarrow> \<exists>t. Sha256Hex d = Inr t) \<Longrightarrow>
   \<exists>u. store_chunks ws inode prev mid no ds new acc s = (Inr (acc @ map bytes_mcc ds), u) \<and>
     placed inode all mid no ds s u"
proof (induction ds arbitrary: s no new acc)
  case Nil
  then show ?case by (simp add: op_simps placed_Nil)
next
  case (Cons d ds)
  have d: "d \<in> all" using Cons.prems(4) by simp
  with Cons.prems(5) obtain t where t: "Sha256Hex d = Inr t" by blast
  from place_chunk_run[OF Cons.prems(1,2,3) d t, of "previous_chunk s prev no inode d t" ws]
    previous_chunk_stored[OF _ t, of s prev no inode]
  obtain new' s1 where step: "place_chunk ws inode mid no d t (previous_chunk s prev no inode d t) new s = (Inr new', s1)"
      "placed inode all mid no [d] s s1" "new_chunks_ok inode all (chunks s1) new'"
    by blast
  from Cons.IH[OF placed_ids[OF step(2)] placed_below[OF step(2) Cons.prems(2)] step(3) _ Cons.prems(5),
      of "acc @ [bytes_mcc d]"] Cons.prems(4)
  obtain u where u: "store_chunks ws inode prev mid (Suc no) ds new' (acc @ [bytes_mcc d]) s1 =
      (Inr ((acc @ [bytes_mcc d]) @ map bytes_mcc ds), u)" "placed inode all mid (Suc no) ds s1 u"
    by auto
  have "store_chunks ws inode prev mid no (d # ds) new acc s = (Inr (acc @ map bytes_mcc (d # ds)), u)"
    using t step(1) u(1) by (simp add: op_simps bytes_mcc_def)
  with placed_Cons[OF step(2) u(2)] show ?case by blast
qed

text \<open>A content whose chunks stand in for the chunks of another.\<close>

lemma chunks_of_concat:
  "0 < n \<Longrightarrow> map length ds = map length (chunks_of n xs) \<Longrightarrow> chunks_of n (concat ds) = ds"
proof (induction n xs arbitrary: ds rule: chunks_of.induct)
  case (1 n xs)
  show ?case
  proof (cases "xs = []")
    case True
    with "1.prems" show ?thesis by simp
  next
    case False
    with "1.prems" obtain d ds' where ds: "ds = d # ds'" "length d = min n (length xs)"
        "map length ds' = map length (chunks_of n (drop n xs))"
      by (auto simp: chunks_of_step[of n xs] min.commute)
    have rest: "chunks_of n (concat ds') = ds'" using 1 False ds(3) by simp
    have "0 < length d" "length d \<le> n" unfolding ds(2) using False "1.prems"(1) by auto
    then have "d \<noteq> []" "length d \<le> n" by auto
    moreover have "length d = n \<or> ds' = []" using ds(2,3) by (auto simp: min_def split: if_splits)
    ultimately have "take n (concat ds) = d" "drop n (concat ds) = concat ds'" by (auto simp: ds(1))
    with rest \<open>d \<noteq> []\<close> "1.prems"(1) show ?thesis by (simp add: ds(1) chunks_of_step[of n "d @ concat ds'"])
  qed
qed

definition stored_as :: "byte list \<Rightarrow> byte list \<Rightarrow> bool" where
  "stored_as content content' \<longleftrightarrow> length content' = length content \<and>
     content_checksum content' = content_checksum content \<and>
     (no_collision (chunks_of kContentChunkBytes content) \<longrightarrow> content' = content)"

lemma stand_in_content:
  assumes "list_all2 (stand_in A) ds ds'" "map length ds = map length (chunks_of kContentChunkBytes xs)"
  shows "chunks_of kContentChunkBytes (concat ds') = ds'" "map bytes_mcc ds' = map bytes_mcc ds"
    "length (concat ds') = length xs"
proof -
  have same: "map length ds' = map length ds" "map bytes_mcc ds' = map bytes_mcc ds"
    using assms(1) by (auto simp: list_all2_conv_all_nth stand_in_def bytes_mcc_def intro!: nth_equalityI)
  then show "chunks_of kContentChunkBytes (concat ds') = ds'" using assms(2) by (intro chunks_of_concat) simp_all
  show "map bytes_mcc ds' = map bytes_mcc ds" by (rule same(2))
  show "length (concat ds') = length xs"
    using same(1) assms(2) concat_chunks_of[of kContentChunkBytes xs]
    by (metis kContentChunkBytes_pos length_concat)
qed

lemma stand_in_stored_as:
  assumes "list_all2 (stand_in (set (chunks_of kContentChunkBytes content))) (chunks_of kContentChunkBytes content) ds'"
  shows "stored_as content (concat ds')"
proof -
  let ?ds = "chunks_of kContentChunkBytes content"
  have "ds' = ?ds" if "no_collision ?ds"
    using assms stand_in_eq[OF _ that] by (auto simp: list_all2_conv_all_nth intro: nth_equalityI)
  with stand_in_content[OF assms refl] show ?thesis
    by (auto simp: stored_as_def content_checksum_def concat_chunks_of)
qed

lemma content_checksum_ok:
  assumes "length content \<le> kMaxStagedBytes"
  obtains t where "content_checksum content = Inr t" "length t = 64"
proof -
  let ?cs = "map bytes_mcc (chunks_of kContentChunkBytes content)"
  have sizes: "map length (chunks_of n xs) = chunk_sizes n (length xs)" if "0 < n" for n and xs :: "byte list"
    using that
  proof (induction n xs rule: chunks_of.induct)
    case (1 n xs)
    then show ?case
      by (cases "xs = []") (auto simp: chunks_of_step[of n xs] chunk_sizes_step min.commute)
  qed
  have "is_sha256_text (mcc_checksum (bytes_mcc d))" if "d \<in> set (chunks_of kContentChunkBytes content)" for d
  proof -
    have "length d \<le> kContentChunkBytes" using chunks_of_member_length[OF that] by simp
    then have "int (length d) \<le> kMaxHashedBytes" by (simp add: kContentChunkBytes_def kMaxHashedBytes_def)
    then have "Sha256Hex d = Inr (Hex (sha256_digest d))" by (rule Sha256Hex_digest)
    with Sha256Hex_text[OF this] show ?thesis by (simp add: bytes_mcc_def)
  qed
  then have ok: "manifest_ok (length content) kContentChunkBytes ?cs"
    by (simp add: manifest_ok_def list_all_iff o_def bytes_mcc_def sizes[symmetric])
  have small: "length content \<le> 2 ^ 27" "kContentChunkBytes \<le> 2 ^ 27"
    using assms by (simp_all add: kMaxStagedBytes_def kContentChunkBytes_def)
  have "length content < 2 ^ 64" using small(1) by simp
  from ManifestChecksum_correct[OF this length_manifest_preimage[OF ok small]] ok that
  show ?thesis by (auto simp: content_checksum_def)
qed

section \<open>A stored manifest\<close>

text \<open>
  The contract of the two writers of manifests: a new manifest that holds the content, with its
  checksum, and nothing else changed.
\<close>

definition manifest_added :: "nat \<Rightarrow> nat \<Rightarrow> byte list \<Rightarrow> nat \<times> string \<Rightarrow> db \<Rightarrow> db \<Rightarrow> bool" where
  "manifest_added ws inode content r s s' \<longleftrightarrow>
     0 < fst r \<and> fst r \<notin> m_id ` set (manifests s) \<and> content_wf s' \<and>
     content_checksum content = Inr (snd r) \<and> manifest_stored s' (fst r) content \<and>
     (\<forall>(no, c) \<in> set (manifest_rows s' (fst r)). ch_inode c = inode) \<and>
     (\<exists>extra new. s' = s\<lparr>manifests := manifests s @
        [\<lparr>m_id = fst r, m_workspace = ws, m_file_size = length content, m_chunk_size = kContentChunkBytes,
          m_chunk_count = chunk_count_of (length content), m_checksum = snd r\<rparr>],
        chunks := chunks s @ extra, manifest_chunks := manifest_chunks s @ new\<rparr> \<and>
        (\<forall>e \<in> set new. mc_manifest e = fst r))"

lemma manifest_rows_entries:
  assumes ids: "distinct (map ch_id (chunks s))" and cs: "set cs \<subseteq> set (chunks s)"
    and es: "filter (\<lambda>e. mc_manifest e = mid) (manifest_chunks s) = entries mid no cs"
  shows "manifest_rows s mid = enumerate no cs"
proof -
  note one = filter_key_unique[OF ids]
  have "concat (map (\<lambda>e. map (Pair (mc_no e)) (filter (\<lambda>c. ch_id c = mc_chunk e) (chunks s)))
          (entries mid no cs)) = enumerate no cs" for no
    using cs
  proof (induction cs arbitrary: no)
    case (Cons c cs)
    then show ?case using one[of c] by simp
  qed simp
  moreover have "sorted (map fst (enumerate no cs))" by (simp add: enumerate_eq_zip)
  ultimately show ?thesis by (simp add: manifest_rows_def es sort_key_id_if_sorted)
qed

lemma entries_manifest [simp]: "e \<in> set (entries mid no cs) \<Longrightarrow> mc_manifest e = mid"
  by (auto simp: entries_def)

lemma entries_chunk: "e \<in> set (entries mid no cs) \<Longrightarrow> mc_chunk e \<in> ch_id ` set cs"
  by (induction cs arbitrary: no) auto

text \<open>Tables to which a manifest with its chunks and entries has been appended.\<close>

lemma manifest_addedI:
  assumes wf: "content_wf s" and mid: "mid = next_rowid (map m_id (manifests s))"
    and t: "content_checksum content = Inr t"
    and cs: "list_all2 (owned_chunk inode) (chunks_of kContentChunkBytes content) cs"
      "set cs \<subseteq> set (chunks s @ extra)" "distinct (map ch_id (chunks s @ extra))"
    and s': "s' = s\<lparr>manifests := manifests s @
        [\<lparr>m_id = mid, m_workspace = ws, m_file_size = length content, m_chunk_size = kContentChunkBytes,
          m_chunk_count = chunk_count_of (length content), m_checksum = t\<rparr>],
        chunks := chunks s @ extra, manifest_chunks := manifest_chunks s @ entries mid 0 cs\<rparr>"
  shows "manifest_added ws inode content (mid, t) s s'"
proof -
  have old: "mc_manifest e \<noteq> mid" if "e \<in> set (manifest_chunks s)" for e
    using wf that by (auto simp: content_wf_def mid)
  then have "filter (\<lambda>e. mc_manifest e = mid) (manifest_chunks s') = entries mid 0 cs"
    by (simp add: s' filter_empty_conv filter_id_conv)
  then have rows: "manifest_rows s' mid = enumerate 0 cs"
    using cs by (intro manifest_rows_entries) (simp_all add: s')
  have "list_all2 stored_chunk (chunks_of kContentChunkBytes content) cs"
    using cs(1) by (rule list_all2_mono) (simp add: owned_chunk_def)
  then have "manifest_stored s' mid content" using rows by (auto simp: manifest_stored_def)
  moreover have "\<forall>(no, c) \<in> set (manifest_rows s' mid). ch_inode c = inode"
    using cs(1) by (auto simp: rows owned_chunk_def list_all2_conv_all_nth in_set_enumerate_eq)
  moreover have "content_wf s'"
    using wf cs(2,3) entries_chunk[of _ mid 0 cs] by (fastforce simp: content_wf_def s' mid)
  ultimately show ?thesis using t s'
    unfolding manifest_added_def fst_conv snd_conv
    by (intro conjI exI[of _ extra] exI[of _ "entries mid 0 cs"]) (simp_all add: mid)
qed

section \<open>Content that is there stays as it is\<close>

text \<open>
  The later database still has every version and every manifest of the earlier one, with the same
  rows.
\<close>

definition content_extends :: "db \<Rightarrow> db \<Rightarrow> bool" where
  "content_extends s s' \<longleftrightarrow>
     (\<forall>i n r. find_version s i n = Some r \<longrightarrow> find_version s' i n = Some r) \<and>
     (\<forall>m r. find_manifest s m = Some r \<longrightarrow> find_manifest s' m = Some r \<and> manifest_rows s' m = manifest_rows s m)"

lemma content_extends_refl [simp]: "content_extends s s"
  by (simp add: content_extends_def)

lemma content_extends_trans: "content_extends s t \<Longrightarrow> content_extends t u \<Longrightarrow> content_extends s u"
  unfolding content_extends_def by metis

lemma canonical_row_extends:
  "content_extends s s' \<Longrightarrow> canonical_row s v = Some r \<Longrightarrow> canonical_row s' v = Some r"
  by (auto simp: content_extends_def canonical_row_def split: option.splits)

lemma ResolveVersionStorage_extends:
  assumes ext: "content_extends s s'" and st: "ResolveVersionStorage s inode version = Inr st"
  shows "ResolveVersionStorage s' inode version = Inr st \<and>
         manifest_rows s' (vs_manifest st) = manifest_rows s (vs_manifest st)"
proof -
  from st obtain v r m where v: "find_version s inode version = Some v" "canonical_manifest s v = Some (r, m)"
      "\<not> reference_corrupt v r m"
      "st = \<lparr>vs_manifest = m_id m, vs_size = nat (v_size v),
         vs_canonical = (case v_source v of None \<Rightarrow> v_no v | Some n \<Rightarrow> n),
         vs_chunk_count = m_chunk_count m, vs_checksum = v_checksum v\<rparr>"
    unfolding ResolveVersionStorage_Inr by blast
  from v(2) have r: "canonical_row s v = Some r" "v_manifest r = Some (m_id m)" "find_manifest s (m_id m) = Some m"
    by (simp_all add: canonical_manifest_Some)
  have m: "find_manifest s' (m_id m) = Some m" "manifest_rows s' (m_id m) = manifest_rows s (m_id m)"
    and v': "find_version s' inode version = Some v"
    using ext r(3) v(1) by (auto simp: content_extends_def)
  have "canonical_manifest s' v = Some (r, m)"
    using canonical_row_extends[OF ext r(1)] r(2) m(1) by (simp add: canonical_manifest_Some)
  with v v' have "ResolveVersionStorage s' inode version = Inr st"
    unfolding ResolveVersionStorage_Inr by blast
  with m(2) v(4) show ?thesis by simp
qed

lemma ReadVersionContent_extends:
  "content_extends s s' \<Longrightarrow> ReadVersionContent s inode version = Inr c \<Longrightarrow>
   ReadVersionContent s' inode version = Inr c"
  using ResolveVersionStorage_extends
  by (fastforce simp: ReadVersionContent_ok manifest_stored_def)

text \<open>
  A database to which one manifest has been added, with entries of its own that refer to chunks that
  are there, keeps what it held.
\<close>

definition manifest_appended :: "nat \<Rightarrow> db \<Rightarrow> db \<Rightarrow> bool" where
  "manifest_appended mid s t \<longleftrightarrow> mid \<notin> m_id ` set (manifests s) \<and>
     (\<exists>row extra new. t = s\<lparr>manifests := manifests s @ [row], chunks := chunks s @ extra,
          manifest_chunks := manifest_chunks s @ new\<rparr> \<and> m_id row = mid \<and>
        distinct (map ch_id (chunks s @ extra)) \<and>
        (\<forall>e \<in> set new. mc_manifest e = mid \<and> mc_chunk e \<in> ch_id ` set (chunks s @ extra)))"

lemma manifest_appended_wf: "manifest_appended mid s t \<Longrightarrow> content_wf s \<Longrightarrow> content_wf t"
  unfolding manifest_appended_def content_wf_def by fastforce

lemma manifest_appended_extends:
  assumes "manifest_appended mid s t" and wf: "content_wf s"
  shows "content_extends s t"
proof -
  from assms(1) obtain extra new row where t: "t = s\<lparr>manifests := manifests s @ [row],
      chunks := chunks s @ extra, manifest_chunks := manifest_chunks s @ new\<rparr>"
      "\<forall>e \<in> set new. mc_manifest e = mid" and fresh: "mid \<notin> m_id ` set (manifests s)"
    and ids: "distinct (map ch_id (chunks s @ extra))"
    by (auto simp: manifest_appended_def)
  have rows: "manifest_rows t m = manifest_rows s m" if "m \<in> m_id ` set (manifests s)" for m
  proof -
    have "filter (\<lambda>e. mc_manifest e = m) (manifest_chunks t) = filter (\<lambda>e. mc_manifest e = m) (manifest_chunks s)"
      using t fresh that by (auto simp: filter_empty_conv)
    moreover have chunk: "filter (\<lambda>c. ch_id c = mc_chunk e) (chunks t) = filter (\<lambda>c. ch_id c = mc_chunk e) (chunks s)"
      if "e \<in> set (manifest_chunks s)" for e
    proof -
      have "mc_chunk e \<in> ch_id ` set (chunks s)" using wf that by (simp add: content_wf_def)
      with ids have "mc_chunk e \<notin> ch_id ` set extra" by auto
      then have "\<forall>c \<in> set extra. ch_id c \<noteq> mc_chunk e" by (metis image_eqI)
      then show ?thesis by (simp add: t(1) filter_empty_conv)
    qed
    moreover have "map (\<lambda>e. map (Pair (mc_no e)) (filter (\<lambda>c. ch_id c = mc_chunk e) (chunks t)))
        (filter (\<lambda>e. mc_manifest e = m) (manifest_chunks s)) =
      map (\<lambda>e. map (Pair (mc_no e)) (filter (\<lambda>c. ch_id c = mc_chunk e) (chunks s)))
        (filter (\<lambda>e. mc_manifest e = m) (manifest_chunks s))"
      using chunk by (intro map_cong) auto
    ultimately show ?thesis by (simp only: manifest_rows_def)
  qed
  have "find_manifest s m = Some q \<Longrightarrow> m \<in> m_id ` set (manifests s)" for m q
    by (auto simp: find_manifest_def dest!: find_SomeD)
  with rows show ?thesis
    by (auto simp: content_extends_def find_version_def find_manifest_def t(1) find_append)
qed

lemma manifest_added_appended: "manifest_added ws inode content r s t \<Longrightarrow> content_wf s \<Longrightarrow> manifest_appended (fst r) s t"
  unfolding manifest_added_def manifest_appended_def content_wf_def by fastforce

lemma manifest_appendedI:
  assumes "mid \<notin> m_id ` set (manifests s)" "m_id row = mid"
    and "t = s\<lparr>manifests := manifests s @ [row], chunks := chunks s @ extra,
          manifest_chunks := manifest_chunks s @ new\<rparr>"
    and "distinct (map ch_id (chunks s @ extra))"
    and "\<And>e. e \<in> set new \<Longrightarrow> mc_manifest e = mid \<and> mc_chunk e \<in> ch_id ` set (chunks s @ extra)"
  shows "manifest_appended mid s t"
  unfolding manifest_appended_def using assms by blast

lemma manifest_appendedE:
  assumes "manifest_appended mid s t"
  obtains row extra new where "mid \<notin> m_id ` set (manifests s)" "m_id row = mid"
    "t = s\<lparr>manifests := manifests s @ [row], chunks := chunks s @ extra,
          manifest_chunks := manifest_chunks s @ new\<rparr>"
    "distinct (map ch_id (chunks s @ extra))"
    "\<And>e. e \<in> set new \<Longrightarrow> mc_manifest e = mid \<and> mc_chunk e \<in> ch_id ` set (chunks s @ extra)"
  using assms unfolding manifest_appended_def by blast

lemma insert_manifest_appended:
  "content_wf s \<Longrightarrow> insert_manifest ws n s = (r, t) \<Longrightarrow> \<exists>mid. r = Inr mid \<and> manifest_appended mid s t"
proof -
  assume wf: "content_wf s" and run: "insert_manifest ws n s = (r, t)"
  define row where "row = \<lparr>m_id = next_rowid (map m_id (manifests s)), m_workspace = ws, m_file_size = n,
    m_chunk_size = kContentChunkBytes, m_chunk_count = chunk_count_of n, m_checksum = replicate 64 CHR ''0''\<rparr>"
  have "r = Inr (m_id row)" "t = s\<lparr>manifests := manifests s @ [row]\<rparr>"
    using run by (auto simp: insert_manifest_def op_simps row_def)
  moreover have "m_id row \<notin> m_id ` set (manifests s)" by (simp add: row_def)
  moreover have "distinct (map ch_id (chunks s))" using wf by (simp add: content_wf_def)
  ultimately show ?thesis
    by (auto intro!: manifest_appendedI[where row = row and extra = "[]" and new = "[]"])
qed

lemma insert_entry_appended:
  assumes "manifest_appended mid s t" "cid \<in> ch_id ` set (chunks t)"
  shows "manifest_appended mid s (snd (insert_entry mid no cid t)) \<and>
    chunks (snd (insert_entry mid no cid t)) = chunks t"
proof (cases "\<exists>e \<in> set (manifest_chunks t). mc_manifest e = mid \<and> mc_no e = no")
  case True
  then show ?thesis using assms by (simp add: insert_entry_def op_simps)
next
  case False
  from assms(1) obtain row extra new where t: "mid \<notin> m_id ` set (manifests s)" "m_id row = mid"
    "t = s\<lparr>manifests := manifests s @ [row], chunks := chunks s @ extra,
          manifest_chunks := manifest_chunks s @ new\<rparr>"
    "distinct (map ch_id (chunks s @ extra))"
    "\<And>e. e \<in> set new \<Longrightarrow> mc_manifest e = mid \<and> mc_chunk e \<in> ch_id ` set (chunks s @ extra)"
    by (rule manifest_appendedE) blast
  define e where "e = \<lparr>mc_manifest = mid, mc_no = no, mc_chunk = cid\<rparr>"
  have "snd (insert_entry mid no cid t) = s\<lparr>manifests := manifests s @ [row], chunks := chunks s @ extra,
          manifest_chunks := manifest_chunks s @ (new @ [e])\<rparr>"
    using False by (simp add: insert_entry_def op_simps t(3) e_def)
  then show ?thesis using t assms(2)
    by (intro conjI manifest_appendedI[OF t(1,2) _ t(4)]) (auto simp: e_def)
qed

lemma insert_chunk_appended:
  assumes "manifest_appended mid s t" "insert_chunk ws inode d c t = (r, u)"
  shows "\<exists>cid. r = Inr cid \<and> manifest_appended mid s u \<and> cid \<in> ch_id ` set (chunks u) \<and>
    ch_id ` set (chunks t) \<subseteq> ch_id ` set (chunks u)"
proof -
  from assms(1) obtain row extra new where t: "mid \<notin> m_id ` set (manifests s)" "m_id row = mid"
    "t = s\<lparr>manifests := manifests s @ [row], chunks := chunks s @ extra,
          manifest_chunks := manifest_chunks s @ new\<rparr>"
    "distinct (map ch_id (chunks s @ extra))"
    "\<And>e. e \<in> set new \<Longrightarrow> mc_manifest e = mid \<and> mc_chunk e \<in> ch_id ` set (chunks s @ extra)"
    by (rule manifest_appendedE) blast
  define row' where "row' = \<lparr>ch_id = next_rowid (map ch_id (chunks t)), ch_workspace = ws, ch_inode = inode,
    ch_content = d, ch_size = length d, ch_checksum = c\<rparr>"
  have u: "r = Inr (ch_id row')" "u = s\<lparr>manifests := manifests s @ [row], chunks := chunks s @ (extra @ [row']),
          manifest_chunks := manifest_chunks s @ new\<rparr>"
    using assms(2) by (auto simp: insert_chunk_def op_simps t(3) row'_def)
  have "ch_id row' \<notin> set (map ch_id (chunks s @ extra))"
    using next_rowid_fresh[of "map ch_id (chunks t)"] by (simp only: row'_def t(3)) simp
  with t(4) have "distinct (map ch_id (chunks s @ extra @ [row']))" by auto
  then have "manifest_appended mid s u"
    using t(5) by (intro manifest_appendedI[OF t(1,2) u(2)]) auto
  with u show ?thesis by (auto simp: t(3))
qed

text \<open>The ids that the loop may enter into a manifest are those of chunks that are there.\<close>

lemma place_chunk_appended:
  assumes "manifest_appended mid s t" "\<And>cid. found = Some cid \<Longrightarrow> cid \<in> ch_id ` set (chunks t)"
    "\<And>key cid. (key, cid) \<in> set new \<Longrightarrow> cid \<in> ch_id ` set (chunks t)"
    "place_chunk ws inode mid no d c found new t = (r, u)"
  shows "manifest_appended mid s u \<and> ch_id ` set (chunks t) \<subseteq> ch_id ` set (chunks u) \<and>
    (\<forall>new'. r = Inr new' \<longrightarrow> (\<forall>(key, cid) \<in> set new'. cid \<in> ch_id ` set (chunks u)))"
proof (cases "found = None \<and> map_of new (reuse_key d c) = None")
  case False
  then obtain cid where cid: "cid \<in> ch_id ` set (chunks t)"
      "place_chunk ws inode mid no d c found new t = andthen (insert_entry mid no cid) (ret new) t"
    using assms(2) assms(3)[OF map_of_SomeD[of new "reuse_key d c"]]
    by (cases found; cases "map_of new (reuse_key d c)") (auto simp: place_chunk_def)
  with assms(3,4) insert_entry_appended[OF assms(1) cid(1), of no] show ?thesis
    by (fastforce simp: op_simps split: prod.splits sum.splits)
next
  case True
  obtain r1 t1 where t1: "insert_chunk ws inode d c t = (r1, t1)" by (cases "insert_chunk ws inode d c t")
  from insert_chunk_appended[OF assms(1) t1] obtain cid where cid: "r1 = Inr cid" "manifest_appended mid s t1"
      "cid \<in> ch_id ` set (chunks t1)" "ch_id ` set (chunks t) \<subseteq> ch_id ` set (chunks t1)"
    by blast
  have "place_chunk ws inode mid no d c found new t =
      andthen (insert_entry mid no cid) (ret ((reuse_key d c, cid) # new)) t1"
    using True t1 cid(1) by (simp add: place_chunk_def op_simps)
  with assms(3,4) cid insert_entry_appended[OF cid(2,3), of no] show ?thesis
    by (fastforce simp: op_simps split: prod.splits sum.splits)
qed

lemma previous_chunk_id: "previous_chunk t prev no inode d c = Some cid \<Longrightarrow> cid \<in> ch_id ` set (chunks t)"
  by (auto simp: previous_chunk_def split: if_splits option.splits dest!: find_SomeD dest: manifest_rows_chunk)

lemma store_chunks_appended:
  "manifest_appended mid s t \<Longrightarrow> (\<And>key cid. (key, cid) \<in> set new \<Longrightarrow> cid \<in> ch_id ` set (chunks t)) \<Longrightarrow>
   store_chunks ws inode prev mid no ds new acc t = (r, u) \<Longrightarrow> manifest_appended mid s u"
proof (induction ds arbitrary: t no new acc)
  case Nil
  then show ?case by (simp add: op_simps)
next
  case (Cons d ds)
  show ?case
  proof (cases "Sha256Hex d")
    case (Inl e)
    with Cons.prems show ?thesis by (simp add: op_simps)
  next
    case (Inr c)
    obtain r1 t1 where t1: "place_chunk ws inode mid no d c (previous_chunk t prev no inode d c) new t = (r1, t1)"
      by (cases "place_chunk ws inode mid no d c (previous_chunk t prev no inode d c) new t")
    have step: "manifest_appended mid s t1" "r1 = Inr new' \<Longrightarrow> (key, cid) \<in> set new' \<Longrightarrow> cid \<in> ch_id ` set (chunks t1)"
      for new' key cid
      using place_chunk_appended[OF Cons.prems(1) _ _ t1] previous_chunk_id[of t prev no inode d c] Cons.prems(2)
      by blast+
    show ?thesis
    proof (cases r1)
      case (Inl e)
      with Cons.prems(3) Inr t1 step show ?thesis by (simp add: op_simps)
    next
      case (Inr new')
      have "store_chunks ws inode prev mid (no + 1) ds new'
          (acc @ [\<lparr>mcc_size = length d, mcc_checksum = c\<rparr>]) t1 = (r, u)"
        using Cons.prems(3) \<open>Sha256Hex d = Inr c\<close> t1 Inr by (simp add: op_simps)
      then show ?thesis using Cons.IH[OF step(1), of new'] step(2)[OF Inr] by blast
    qed
  qed
qed

lemma set_manifest_checksum_appended:
  assumes "manifest_appended mid s t" shows "manifest_appended mid s (set_manifest_checksum mid c t)"
proof -
  from assms obtain row extra new where t: "mid \<notin> m_id ` set (manifests s)" "m_id row = mid"
    "t = s\<lparr>manifests := manifests s @ [row], chunks := chunks s @ extra,
          manifest_chunks := manifest_chunks s @ new\<rparr>"
    "distinct (map ch_id (chunks s @ extra))"
    "\<And>e. e \<in> set new \<Longrightarrow> mc_manifest e = mid \<and> mc_chunk e \<in> ch_id ` set (chunks s @ extra)"
    by (rule manifest_appendedE) blast
  have "map (\<lambda>m. if m_id m = mid then m\<lparr>m_checksum := c\<rparr> else m) (manifests s) = manifests s"
    using t(1) by (intro map_idI) auto
  then have state: "set_manifest_checksum mid c t = s\<lparr>manifests := manifests s @ [row\<lparr>m_checksum := c\<rparr>],
      chunks := chunks s @ extra, manifest_chunks := manifest_chunks s @ new\<rparr>"
    by (simp add: set_manifest_checksum_def t(3) t(2))
  have "m_id (row\<lparr>m_checksum := c\<rparr>) = mid" using t(2) by simp
  then show ?thesis by (rule manifest_appendedI[OF t(1) _ state t(4) t(5)])
qed

lemma finish_manifest_appended:
  assumes "manifest_appended mid s t"
  shows "manifest_appended mid s (snd (bind (query (\<lambda>_. q)) (\<lambda>c.
    andthen (modify (set_manifest_checksum mid c)) (ret (mid, c))) t))"
  using assms set_manifest_checksum_appended[OF assms] by (cases q) (simp_all add: op_simps)

text \<open>
  A writer of a manifest inserts the row, runs a loop that places the chunks, and sets the checksum.
\<close>

lemma writer_appended:
  assumes wf: "content_wf s"
    and loop: "\<And>mid t r u. manifest_appended mid s t \<Longrightarrow> loop mid t = (r, u) \<Longrightarrow> manifest_appended mid s u"
    and run: "bind (insert_manifest ws n) (\<lambda>mid. bind (loop mid) (\<lambda>acc. bind (query (\<lambda>_. q acc)) (\<lambda>c.
      andthen (modify (set_manifest_checksum mid c)) (ret (mid, c))))) s = (r, u)"
  shows "\<exists>mid. manifest_appended mid s u"
proof -
  obtain r1 t1 where t1: "insert_manifest ws n s = (r1, t1)" by (cases "insert_manifest ws n s")
  from insert_manifest_appended[OF wf t1] obtain mid where mid: "r1 = Inr mid" "manifest_appended mid s t1"
    by blast
  obtain r2 t2 where t2: "loop mid t1 = (r2, t2)" by (cases "loop mid t1")
  have app: "manifest_appended mid s t2" by (rule loop[OF mid(2) t2])
  let ?finish = "\<lambda>acc. bind (query (\<lambda>_. q acc)) (\<lambda>c. andthen (modify (set_manifest_checksum mid c)) (ret (mid, c)))"
  have run': "bind (loop mid) ?finish t1 = (r, u)"
    by (rule trans[OF _ run], rule sym, rule bind_Inr, rule t1[unfolded mid(1)])
  show ?thesis
  proof (cases r2)
    case (Inl e)
    with run' t2 app show ?thesis by (auto simp: bind_def)
  next
    case (Inr acc)
    have "?finish acc t2 = (r, u)"
      by (rule trans[OF _ run'], rule sym, rule bind_Inr, rule t2[unfolded Inr])
    with finish_manifest_appended[OF app, of "q acc"] have "manifest_appended mid s u" by simp
    then show ?thesis ..
  qed
qed

lemma StoreManifest_appended:
  assumes "content_wf s" "StoreManifest ws inode prev content s = (r, u)"
  shows "\<exists>mid. manifest_appended mid s u"
  by (rule writer_appended[OF assms(1) _ assms(2)[unfolded StoreManifest_def]])
    (rule store_chunks_appended; (assumption | simp))

lemma placed_appended:
  assumes "manifest_appended mid s t" "placed inode all mid no ds t u"
  shows "manifest_appended mid s u"
proof -
  from assms(1) obtain row extra new where t: "mid \<notin> m_id ` set (manifests s)" "m_id row = mid"
    "t = s\<lparr>manifests := manifests s @ [row], chunks := chunks s @ extra,
          manifest_chunks := manifest_chunks s @ new\<rparr>"
    "\<And>e. e \<in> set new \<Longrightarrow> mc_manifest e = mid \<and> mc_chunk e \<in> ch_id ` set (chunks s @ extra)"
    by (rule manifest_appendedE) blast
  from assms(2) obtain extra' cs where u: "u = t\<lparr>chunks := chunks t @ extra',
      manifest_chunks := manifest_chunks t @ entries mid no cs\<rparr>"
    "set cs \<subseteq> set (chunks t @ extra')" "distinct (map ch_id (chunks t @ extra'))"
    by (auto simp: placed_def)
  have u': "u = s\<lparr>manifests := manifests s @ [row], chunks := chunks s @ (extra @ extra'),
      manifest_chunks := manifest_chunks s @ (new @ entries mid no cs)\<rparr>"
    by (simp add: u(1) t(3))
  have "mc_manifest e = mid \<and> mc_chunk e \<in> ch_id ` set (chunks s @ (extra @ extra'))"
    if "e \<in> set (new @ entries mid no cs)" for e
    using that t(4)[of e] u(2) entries_chunk[of e mid no cs] by (auto simp: t(3))
  moreover have "distinct (map ch_id (chunks s @ (extra @ extra')))" using u(3) by (simp add: t(3))
  ultimately show ?thesis by (intro manifest_appendedI[OF t(1,2) u'])
qed

text \<open>The shape of the two writers of manifests, and what they add when their loop places chunks.\<close>

definition manifest_writer ::
  "nat \<Rightarrow> nat \<Rightarrow> (nat \<Rightarrow> ManifestChunkChecksum list vexfs) \<Rightarrow> (nat \<times> string) vexfs" where
  "manifest_writer ws n loop =
     bind (insert_manifest ws n) (\<lambda>mid. bind (loop mid) (\<lambda>acc.
     bind (query (\<lambda>_. ManifestChecksum n kContentChunkBytes acc)) (\<lambda>c.
     andthen (modify (set_manifest_checksum mid c)) (ret (mid, c)))))"

lemma writer_placed:
  assumes wf: "content_wf s" and size: "n \<le> kMaxStagedBytes"
    and ds: "map length ds = map length (chunks_of kContentChunkBytes xs)" "length xs = n"
    and ins: "insert_manifest ws n s = (Inr mid, s1)"
    and loop: "loop mid s1 = (Inr (map bytes_mcc ds), u)" "placed inode A mid 0 ds s1 u"
  shows "\<exists>ds' r u. manifest_writer ws n loop s = (Inr r, u) \<and> list_all2 (stand_in A) ds ds' \<and>
    manifest_added ws inode (concat ds') r s u"
proof -
  define row where "row t = \<lparr>m_id = mid, m_workspace = ws, m_file_size = n,
      m_chunk_size = kContentChunkBytes, m_chunk_count = chunk_count_of n, m_checksum = t\<rparr>" for t
  have mid: "mid = next_rowid (map m_id (manifests s))"
    and s1: "s1 = s\<lparr>manifests := manifests s @ [row (replicate 64 CHR ''0'')]\<rparr>"
    using ins by (auto simp: insert_manifest_def op_simps row_def)
  from loop(2) obtain extra cs ds' where
    u: "u = s1\<lparr>chunks := chunks s @ extra, manifest_chunks := manifest_chunks s @ entries mid 0 cs\<rparr>"
      "list_all2 (stand_in A) ds ds'" "list_all2 (owned_chunk inode) ds' cs"
    and cs: "set cs \<subseteq> set (chunks s @ extra)" "distinct (map ch_id (chunks s @ extra))"
    by (auto simp: placed_def s1)
  define content where "content = concat ds'"
  note content = stand_in_content[OF u(2) ds(1), folded content_def]
  obtain t where t: "content_checksum content = Inr t"
    using content_checksum_ok[of content] content(3) ds(2) size by auto
  let ?s' = "s\<lparr>manifests := manifests s @ [row t], chunks := chunks s @ extra,
      manifest_chunks := manifest_chunks s @ entries mid 0 cs\<rparr>"
  have "ManifestChecksum n kContentChunkBytes (map bytes_mcc ds) = Inr t"
    using t content ds(2) by (simp add: content_checksum_def)
  then have "manifest_writer ws n loop s = (Inr (mid, t), ?s')"
    using ins loop(1)
    by (simp add: manifest_writer_def u(1) op_simps set_manifest_checksum_def s1 row_def mid map_idI)
  moreover have "manifest_added ws inode content (mid, t) s ?s'"
    using manifest_addedI[OF wf mid t, of inode cs extra ?s' ws] u(3) cs content ds(2) by (simp add: row_def)
  ultimately show ?thesis using u(2) content_def by blast
qed

lemma insert_manifest_ready:
  assumes "content_wf s" "insert_manifest ws n s = (r, s1)"
  obtains mid where "r = Inr mid" "manifest_appended mid s s1" "distinct (map ch_id (chunks s1))" "entries_below mid 0 s1"
proof -
  from insert_manifest_appended[OF assms] obtain mid where mid: "r = Inr mid" "manifest_appended mid s s1" by blast
  have "chunks s1 = chunks s" "manifest_chunks s1 = manifest_chunks s" "mid = next_rowid (map m_id (manifests s))"
    using assms(2) mid(1) by (auto simp: insert_manifest_def op_simps)
  moreover from this have "mc_manifest e \<noteq> mid" if "e \<in> set (manifest_chunks s)" for e
    using assms(1) that by (auto simp: content_wf_def)
  ultimately have "distinct (map ch_id (chunks s1))" "entries_below mid 0 s1"
    using assms(1) by (auto simp: content_wf_def entries_below_def)
  with mid that show ?thesis by blast
qed

lemma writer_added:
  assumes wf: "content_wf s" and size: "length content \<le> kMaxStagedBytes"
    and ds: "ds = chunks_of kContentChunkBytes content"
    and loop: "\<And>mid s1. distinct (map ch_id (chunks s1)) \<Longrightarrow> entries_below mid 0 s1 \<Longrightarrow>
      manifest_appended mid s s1 \<Longrightarrow>
      \<exists>u. loop mid s1 = (Inr (map bytes_mcc ds), u) \<and> placed inode (set ds) mid 0 ds s1 u"
  shows "\<exists>content' r u. manifest_writer ws (length content) loop s = (Inr r, u) \<and>
    stored_as content content' \<and> manifest_added ws inode content' r s u"
proof -
  obtain r s1 where ins: "insert_manifest ws (length content) s = (r, s1)" by (cases "insert_manifest ws (length content) s")
  then obtain mid where mid: "r = Inr mid" "manifest_appended mid s s1" "distinct (map ch_id (chunks s1))" "entries_below mid 0 s1"
    by (rule insert_manifest_ready[OF wf])
  from loop[OF mid(3,4,2)] obtain u where u: "loop mid s1 = (Inr (map bytes_mcc ds), u)" "placed inode (set ds) mid 0 ds s1 u"
    by blast
  have "map length ds = map length (chunks_of kContentChunkBytes content)" by (simp add: ds)
  from writer_placed[where loop = loop, OF wf size this refl ins[unfolded mid(1)] u] obtain ds' r' u' where
    "manifest_writer ws (length content) loop s = (Inr r', u')" "list_all2 (stand_in (set ds)) ds ds'"
    "manifest_added ws inode (concat ds') r' s u'" by blast
  with stand_in_stored_as[of content ds'] ds show ?thesis by blast
qed

text \<open>A writer that returned has added a manifest of a content of its size.\<close>

lemma writer_returned:
  assumes wf: "content_wf s" and size: "n \<le> kMaxStagedBytes"
    and run: "manifest_writer ws n loop s = (Inr r, u)"
    and loop: "\<And>mid s1 acc t. distinct (map ch_id (chunks s1)) \<Longrightarrow> entries_below mid 0 s1 \<Longrightarrow>
      loop mid s1 = (Inr acc, t) \<Longrightarrow> \<exists>ds. acc = map bytes_mcc ds \<and> placed inode UNIV mid 0 ds s1 t \<and>
        map length ds = map length (chunks_of kContentChunkBytes (replicate n (0::byte)))"
  shows "\<exists>content. length content = n \<and> manifest_added ws inode content r s u"
proof -
  obtain r1 s1 where ins: "insert_manifest ws n s = (r1, s1)" by (cases "insert_manifest ws n s")
  then obtain mid where mid: "r1 = Inr mid" "distinct (map ch_id (chunks s1))" "entries_below mid 0 s1"
    by (rule insert_manifest_ready[OF wf])
  from run ins mid(1) obtain acc t where "loop mid s1 = (Inr acc, t)" by (auto simp: manifest_writer_def bind_ok)
  with loop[OF mid(2,3)] obtain ds where ds: "loop mid s1 = (Inr (map bytes_mcc ds), t)" "placed inode UNIV mid 0 ds s1 t"
      "map length ds = map length (chunks_of kContentChunkBytes (replicate n (0::byte)))" by blast
  from writer_placed[where loop = loop, OF wf size ds(3) length_replicate ins[unfolded mid(1)] ds(1,2)] run
  obtain ds' where "list_all2 (stand_in UNIV) ds ds'" "manifest_added ws inode (concat ds') r s u" by auto
  with stand_in_content(3)[OF _ ds(3)] show ?thesis by auto
qed

lemma StoreManifest_stored:
  assumes wf: "content_wf s" and size: "length content \<le> kMaxStagedBytes"
  shows "\<exists>content' r s'. StoreManifest ws inode prev content s = (Inr r, s') \<and>
    stored_as content content' \<and> manifest_added ws inode content' r s s'"
  unfolding StoreManifest_def manifest_writer_def[symmetric]
proof (rule writer_added[OF wf size refl])
  let ?ds = "chunks_of kContentChunkBytes content"
  fix mid s1 assume "distinct (map ch_id (chunks s1))" "entries_below mid 0 s1"
  then show "\<exists>u. store_chunks ws inode prev mid 0 ?ds [] [] s1 = (Inr (map bytes_mcc ?ds), u) \<and> placed inode (set ?ds) mid 0 ?ds s1 u"
    using store_chunks_run[of s1 mid 0 inode "set ?ds" "[]" ?ds ws prev "[]"] chunk_digest
    by (simp add: new_chunks_ok_def)
qed

lemma StoreManifest_added:
  assumes "content_wf s" "length content \<le> kMaxStagedBytes"
    and "no_collision (chunks_of kContentChunkBytes content)"
  shows "\<exists>r s'. StoreManifest ws inode prev content s = (Inr r, s') \<and> manifest_added ws inode content r s s'"
  using StoreManifest_stored[OF assms(1,2), of ws inode prev] assms(3) by (auto simp: stored_as_def)

text \<open>The writers touch no table but the three of the content store.\<close>

definition ignores_content :: "(db \<Rightarrow> bool) \<Rightarrow> bool" where
  "ignores_content P \<longleftrightarrow> (\<forall>s x y z. P s \<longrightarrow> P (s\<lparr>manifests := x\<rparr>) \<and> P (s\<lparr>chunks := y\<rparr>) \<and> P (s\<lparr>manifest_chunks := z\<rparr>))"

lemma ignores_contentD:
  "ignores_content P \<Longrightarrow> P s \<Longrightarrow> P (s\<lparr>manifests := x\<rparr>)" "ignores_content P \<Longrightarrow> P s \<Longrightarrow> P (s\<lparr>chunks := y\<rparr>)"
  "ignores_content P \<Longrightarrow> P s \<Longrightarrow> P (s\<lparr>manifest_chunks := z\<rparr>)"
  by (simp_all add: ignores_content_def)

lemma content_frame_steps:
  assumes "ignores_content P"
  shows "preserves P (insert_manifest ws n)" "preserves P (place_chunk ws inode mid no d c found new)"
    "preserves P (modify (set_manifest_checksum mid t))"
  unfolding insert_manifest_def place_chunk_def insert_chunk_def insert_entry_def set_manifest_checksum_def
  by (intro preserve_intros; simp add: ignores_contentD[OF assms])+

lemma StoreManifest_frame:
  assumes "ignores_content P"
  shows "preserves P (StoreManifest ws inode prev content)"
proof -
  note steps = content_frame_steps[OF assms]
  have "preserves P (store_chunks ws inode prev mid no ds new acc)" for mid no ds new acc
  proof (induction ds arbitrary: no new acc)
    case Nil
    show ?case unfolding store_chunks.simps by (intro preserve_intros)
  next
    case (Cons d ds)
    show ?case unfolding store_chunks.simps by (intro preserve_intros steps Cons.IH)
  qed
  then show ?thesis unfolding StoreManifest_def by (intro steps preserves_bind preserves_andthen preserves_basic)
qed

section \<open>The invariant of the content store\<close>

text \<open>Well-formed, and everything that was there at the start is there as it was.\<close>

definition content_inv :: "db \<Rightarrow> db \<Rightarrow> bool" where
  "content_inv s0 s \<longleftrightarrow> content_wf s \<and> content_extends s0 s"

lemma content_inv_start: "content_wf s \<Longrightarrow> content_inv s s"
  by (simp add: content_inv_def)

lemma content_inv_step: "content_inv s0 s \<Longrightarrow> content_wf t \<Longrightarrow> content_extends s t \<Longrightarrow> content_inv s0 t"
  using content_extends_trans by (auto simp: content_inv_def)

lemma appended_content:
  assumes "\<And>s r u. content_wf s \<Longrightarrow> m s = (r, u) \<Longrightarrow> u = s \<or> (\<exists>mid. manifest_appended mid s u)"
  shows "preserves (content_inv s0) m"
proof (rule preservesI)
  fix s assume inv: "content_inv s0 s"
  then have wf: "content_wf s" by (simp add: content_inv_def)
  from assms[OF wf, of "fst (m s)" "snd (m s)"] inv wf show "content_inv s0 (snd (m s))"
    by (auto intro: content_inv_step manifest_appended_wf manifest_appended_extends)
qed

lemma StoreManifest_content: "preserves (content_inv s0) (StoreManifest ws inode prev content)"
  by (rule appended_content) (blast dest: StoreManifest_appended)

text \<open>An operation that leaves the four tables of the content store alone keeps the invariant.\<close>

definition content_tables ::
  "db \<Rightarrow> manifest_row list \<times> chunk_row list \<times> manifest_chunk_row list \<times> version_row list" where
  "content_tables s = (manifests s, chunks s, manifest_chunks s, file_versions s)"

lemma content_tables_cong:
  assumes "content_tables t = content_tables s"
  shows "content_wf t = content_wf s" "find_version t = find_version s" "find_manifest t = find_manifest s"
    "manifest_rows t = manifest_rows s"
  using assms by (auto simp: content_tables_def content_wf_def find_version_def find_manifest_def
      manifest_rows_def fun_eq_iff)

lemma content_tables_inv: "content_tables t = content_tables s \<Longrightarrow> content_inv s0 s \<Longrightarrow> content_inv s0 t"
  using content_tables_cong[of t s] by (simp add: content_inv_def content_extends_def)

lemma content_tables_reads:
  assumes "content_tables t = content_tables s"
  shows "ResolveVersionStorage t = ResolveVersionStorage s" "ReadVersionContent t = ReadVersionContent s"
    "ReadVersionRange t = ReadVersionRange s"
proof -
  note cong = content_tables_cong[OF assms]
  have canonical: "canonical_manifest t = canonical_manifest s"
    by (intro ext) (simp only: canonical_manifest_def canonical_row_def cong)
  show resolve: "ResolveVersionStorage t = ResolveVersionStorage s"
    by (intro ext) (simp only: ResolveVersionStorage_def cong canonical)
  show "ReadVersionContent t = ReadVersionContent s" "ReadVersionRange t = ReadVersionRange s"
    by (intro ext, simp only: ReadVersionContent_def ReadVersionRange_def resolve cong)+
qed

section \<open>Reading back what was stored\<close>

text \<open>A version row that refers to a manifest just added reads as the content of that manifest.\<close>

lemma added_manifest_reads:
  assumes added: "manifest_added ws inode content r s s1" and wf: "content_wf s"
    and len: "length content \<le> kMaxStagedBytes"
    and same: "find_manifest t = find_manifest s1" "manifest_rows t = manifest_rows s1"
    and v: "find_version t inode no = Some v" "v_manifest v = Some (fst r)" "v_size v = int (length content)"
      "v_checksum v = snd r" "v_source v = None"
  shows "ReadVersionContent t inode no = Inr content"
proof -
  define m where "m = \<lparr>m_id = fst r, m_workspace = ws, m_file_size = length content, m_chunk_size = kContentChunkBytes,
          m_chunk_count = chunk_count_of (length content), m_checksum = snd r\<rparr>"
  have fresh: "0 < fst r" "fst r \<notin> m_id ` set (manifests s)" "content_checksum content = Inr (snd r)"
      "manifest_stored s1 (fst r) content" "\<exists>ch new. s1 = s\<lparr>manifests := manifests s @ [m], chunks := ch, manifest_chunks := new\<rparr>"
    using added by (auto simp: manifest_added_def m_def)
  from fresh(2) have "find (\<lambda>x. m_id x = fst r) (manifests s) = None" by (rule find_fresh_key)
  with fresh(5) have found: "find_manifest t (m_id m) = Some m"
    by (auto simp: same(1) find_manifest_def find_append m_def)
  obtain c where "content_checksum content = Inr c" "length c = 64" using content_checksum_ok[OF len] .
  with fresh(3) have "length (snd r) = 64" by simp
  then have ok: "\<not> reference_corrupt v v m"
    using fresh(1) len v by (simp add: reference_corrupt_def m_def)
  have "canonical_manifest t v = Some (v, m)"
    using found v by (simp add: canonical_manifest_Some canonical_row_def) (simp add: m_def)
  with ok v have "ResolveVersionStorage t inode no = Inr \<lparr>vs_manifest = fst r, vs_size = length content,
      vs_canonical = v_no v, vs_chunk_count = chunk_count_of (length content), vs_checksum = snd r\<rparr>"
    by (simp add: ResolveVersionStorage_Inr m_def)
  with fresh(3,4) show ?thesis by (simp add: ReadVersionContent_ok manifest_stored_def same(2))
qed

lemma readable_content:
  assumes "length content \<le> kMaxStagedBytes" "no_collision (chunks_of kContentChunkBytes content)"
  obtains s where "content_wf s" "ReadVersionContent s inode no = Inr content"
proof -
  from StoreManifest_added[OF content_wf_empty assms, of 1 inode 0] obtain r s1 where
    added: "manifest_added 1 inode content r empty_db s1" by blast
  define v where "v = \<lparr>v_id = 1, v_inode = inode, v_no = no, v_commit = 1, v_manifest = Some (fst r),
    v_size = int (length content), v_checksum = snd r, v_source = None, v_created = 0\<rparr>"
  let ?t = "s1\<lparr>file_versions := [v]\<rparr>"
  have "ReadVersionContent ?t inode no = Inr content"
    by (rule added_manifest_reads[OF added content_wf_empty assms(1)])
      (auto simp: find_manifest_def manifest_rows_def find_version_def v_def fun_eq_iff)
  moreover have "content_wf ?t" using added by (simp add: manifest_added_def content_wf_def)
  ultimately show ?thesis by (rule that[rotated])
qed

lemma no_collision_small: "length content \<le> kContentChunkBytes \<Longrightarrow> no_collision (chunks_of kContentChunkBytes content)"
  by (cases "content = []") (simp_all add: no_collision_def chunks_of_step[of _ content])

section \<open>Properties\<close>

text \<open>
  C8: \<open>ReadVersionRange\<close> reads chunk by chunk and checks only the chunks it touches; whenever the whole
  version is readable it returns, for every range within the limits, exactly the bytes of that range
  of what \<open>ReadVersionContent\<close> returns, cut at the end of the file.
\<close>

theorem read_range_is_slice:
  assumes "ReadVersionContent s inode version = Inr content"
    and "0 \<le> off" "off \<le> int kMaxStagedBytes" "0 \<le> len" "len \<le> int kMaxStagedBytes"
  shows "ReadVersionRange s inode version off len = Inr (take (nat len) (drop (nat off) content))"
  by (rule ReadVersionRange_segment[OF assms])

theorem read_range_is_slice_witness:
  "\<exists>s. ReadVersionContent s 1 1 = Inr [1, 2, 3, 4] \<and> ReadVersionRange s 1 1 1 2 = Inr [2, 3]"
proof -
  obtain s where s: "ReadVersionContent s 1 1 = Inr [1, 2, 3, 4]"
    using readable_content[of "[1, 2, 3, 4]" 1 1] no_collision_small[of "[1, 2, 3, 4]"]
    by (auto simp: kMaxStagedBytes_def kContentChunkBytes_def)
  with read_range_is_slice[OF s, of 1 2] show ?thesis
    by (auto simp: kMaxStagedBytes_def numeral_2_eq_2)
qed

end
