(* ===== verification/Vex_Commits.thy ===== *)
theory Vex_Commits
  imports Vex_Namespace
begin

text \<open>
  The commit log and the upkeep of inodes, directory entries and the search index:
  \<open>FlushHistoryChanges\<close>, \<open>CreateCommitInTransaction\<close>, \<open>CreateCommit\<close>, \<open>CreateInode\<close>,
  \<open>TouchDirectory\<close>, \<open>AddDentry\<close>, \<open>RebuildGrepIndex\<close>, \<open>UpdateGrepIndexFromVersion\<close> and
  \<open>RemoveDeletedFilesFromGrepIndex\<close> of src/vexdb\_sqlite/src/agent\_files/vexfs\_sqlite.cpp.

  The lemmas show that a commit is recorded as the head of its workspace with the old head as its
  parent, that it captures the state of every changed row, that no file that was never published
  enters the history, and that such a file stays marked as changed.
\<close>

section \<open>Flushing changes into the history\<close>

text \<open>A file that was created through a handle and not published yet has version 0.\<close>

definition unpublished :: "inode_row \<Rightarrow> bool" where
  "unpublished i \<longleftrightarrow> i_kind i = KFile \<and> i_version i = 0"

definition pending_inode :: "db \<Rightarrow> nat \<Rightarrow> nat \<Rightarrow> bool" where
  "pending_inode s ws inode \<longleftrightarrow>
     (\<exists>i \<in> set (inodes s). i_workspace i = ws \<and> i_id i = inode \<and> unpublished i)"

definition pending_live_inode :: "db \<Rightarrow> nat \<Rightarrow> nat \<Rightarrow> bool" where
  "pending_live_inode s ws inode \<longleftrightarrow>
     (\<exists>i \<in> set (inodes s). i_workspace i = ws \<and> i_id i = inode \<and> unpublished i \<and> i_deleted i = None)"

text \<open>\<open>INSERT OR REPLACE\<close> of rows with distinct keys.\<close>

definition replace_rows :: "('r \<Rightarrow> 'k) \<Rightarrow> 'r list \<Rightarrow> 'r list \<Rightarrow> 'r list" where
  "replace_rows key new old = filter (\<lambda>r. key r \<notin> key ` set new) old @ new"

definition flushed_inodes :: "db \<Rightarrow> nat \<Rightarrow> nat \<Rightarrow> inode_state_row list" where
  "flushed_inodes s ws commit =
     concat (map (\<lambda>(w, inode).
       map (\<lambda>i. \<lparr>is_commit = commit, is_row = i\<rparr>)
         (filter (\<lambda>i. i_workspace i = w \<and> i_id i = inode \<and> \<not> unpublished i) (inodes s)))
       (filter (\<lambda>(w, inode). w = ws) (dirty_inodes s)))"

definition is_key :: "inode_state_row \<Rightarrow> nat \<times> nat \<times> nat" where
  "is_key r = (i_workspace (is_row r), i_id (is_row r), is_commit r)"

text \<open>\<open>COALESCE(d.inode_id, dirty.inode_id)\<close> and whether the left join found an entry.\<close>

definition dirty_target :: "db \<Rightarrow> dirty_dentry_row \<Rightarrow> nat" where
  "dirty_target s r =
     (case find_dentry s (dd_workspace r) (dd_parent r) (dd_name r) of
        None \<Rightarrow> dd_inode r
      | Some d \<Rightarrow> d_inode d)"

definition flushed_dentries :: "db \<Rightarrow> nat \<Rightarrow> nat \<Rightarrow> dentry_state_row list" where
  "flushed_dentries s ws commit =
     map (\<lambda>r. \<lparr>ds_workspace = dd_workspace r, ds_parent = dd_parent r, ds_name = dd_name r,
               ds_commit = commit, ds_inode = dirty_target s r,
               ds_deleted = (find_dentry s (dd_workspace r) (dd_parent r) (dd_name r) = None)\<rparr>)
       (filter (\<lambda>r. dd_workspace r = ws \<and> \<not> pending_inode s (dd_workspace r) (dirty_target s r))
         (dirty_dentries s))"

definition ds_key :: "dentry_state_row \<Rightarrow> nat \<times> nat \<times> string \<times> nat" where
  "ds_key r = (ds_workspace r, ds_parent r, ds_name r, ds_commit r)"

definition flushed_xattrs :: "db \<Rightarrow> nat \<Rightarrow> nat \<Rightarrow> xattr_state_row list" where
  "flushed_xattrs s ws commit =
     map (\<lambda>(w, inode, name).
       case find (\<lambda>x. x_inode x = inode \<and> x_name x = name) (xattrs s) of
         None \<Rightarrow> \<lparr>xs_workspace = w, xs_inode = inode, xs_name = name, xs_commit = commit,
                   xs_value = [], xs_deleted = True\<rparr>
       | Some x \<Rightarrow> \<lparr>xs_workspace = w, xs_inode = inode, xs_name = name, xs_commit = commit,
                   xs_value = x_value x, xs_deleted = False\<rparr>)
       (filter (\<lambda>(w, inode, name). w = ws \<and> \<not> pending_inode s w inode) (dirty_xattrs s))"

definition xs_key :: "xattr_state_row \<Rightarrow> nat \<times> nat \<times> string \<times> nat" where
  "xs_key r = (xs_workspace r, xs_inode r, xs_name r, xs_commit r)"

definition flushed_acl :: "db \<Rightarrow> nat \<Rightarrow> nat \<Rightarrow> acl_state_row list" where
  "flushed_acl s ws commit =
     map (\<lambda>(w, inode, principal, effect).
       case find (\<lambda>a. acl_key a = (w, inode, principal, effect)) (acl_entries s) of
         None \<Rightarrow> \<lparr>as_workspace = w, as_inode = inode, as_principal = principal, as_effect = effect,
                   as_commit = commit, as_permissions = [], as_inherit = 0, as_deleted = True\<rparr>
       | Some a \<Rightarrow> \<lparr>as_workspace = w, as_inode = inode, as_principal = principal, as_effect = effect,
                   as_commit = commit, as_permissions = a_permissions a, as_inherit = a_inherit a,
                   as_deleted = False\<rparr>)
       (filter (\<lambda>(w, inode, principal, effect). w = ws \<and> \<not> pending_inode s w inode) (dirty_acl s))"

definition as_key :: "acl_state_row \<Rightarrow> nat \<times> nat \<times> string \<times> string \<times> nat" where
  "as_key r = (as_workspace r, as_inode r, as_principal r, as_effect r, as_commit r)"

text \<open>
  The four \<open>DELETE\<close> statements: what stays dirty. An inode that is not there, or that is published,
  no file or deleted, is cleared.
\<close>

definition dirty_inode_cleared :: "db \<Rightarrow> nat \<times> nat \<Rightarrow> bool" where
  "dirty_inode_cleared s = (\<lambda>(w, inode).
     (\<not> (\<exists>i \<in> set (inodes s). i_workspace i = w \<and> i_id i = inode)) \<or>
     (\<exists>i \<in> set (inodes s). i_workspace i = w \<and> i_id i = inode \<and>
        (i_kind i \<noteq> KFile \<or> 0 < i_version i \<or> i_deleted i \<noteq> None)))"

definition FlushHistoryChanges :: "nat \<Rightarrow> nat \<Rightarrow> db \<Rightarrow> db" where
  "FlushHistoryChanges ws commit s =
     s\<lparr>inode_states := replace_rows is_key (flushed_inodes s ws commit) (inode_states s),
       dentry_states := replace_rows ds_key (flushed_dentries s ws commit) (dentry_states s),
       xattr_states := replace_rows xs_key (flushed_xattrs s ws commit) (xattr_states s),
       acl_states := replace_rows as_key (flushed_acl s ws commit) (acl_states s),
       dirty_inodes := filter (\<lambda>k. \<not> (fst k = ws \<and> dirty_inode_cleared s k)) (dirty_inodes s),
       dirty_dentries := filter (\<lambda>r. \<not> (dd_workspace r = ws \<and>
          \<not> pending_live_inode s (dd_workspace r) (dirty_target s r))) (dirty_dentries s),
       dirty_xattrs := filter (\<lambda>(w, inode, name). \<not> (w = ws \<and> \<not> pending_live_inode s w inode)) (dirty_xattrs s),
       dirty_acl := filter (\<lambda>(w, inode, principal, effect).
          \<not> (w = ws \<and> \<not> pending_live_inode s w inode)) (dirty_acl s)\<rparr>"

section \<open>Commits\<close>

text \<open>
  The path of a commit is the shortest path among the changed entries, the smallest in byte order
  among those of equal length. The minimum does not depend on the order of the rows, so the rows
  are taken in table order. An entry whose parent has no path is skipped.
\<close>

definition better_path :: "string option \<Rightarrow> string \<Rightarrow> string option" where
  "better_path best candidate =
     (case best of
        None \<Rightarrow> Some candidate
      | Some path \<Rightarrow>
          if length candidate < length path \<or> length candidate = length path \<and> candidate < path
          then Some candidate else best)"

definition dentry_candidate :: "db \<Rightarrow> Workspace \<Rightarrow> dirty_dentry_row \<Rightarrow> string result" where
  "dentry_candidate s w r =
     res_bind (PathForInode s w (dd_parent r)) (\<lambda>parent.
       Inr (if parent = [kSlash] then kSlash # dd_name r else parent @ kSlash # dd_name r))"

definition best_path :: "string result list \<Rightarrow> string option" where
  "best_path candidates =
     fold (\<lambda>r best. case r of Inl _ \<Rightarrow> best | Inr c \<Rightarrow> better_path best c) candidates None"

definition commit_path :: "db \<Rightarrow> Workspace \<Rightarrow> string" where
  "commit_path s w =
     (case best_path (map (dentry_candidate s w) (filter (\<lambda>r. dd_workspace r = ws_id w) (dirty_dentries s))) of
        Some path \<Rightarrow> path
      | None \<Rightarrow>
          (case best_path (map (\<lambda>(_, inode). PathForInode s w inode)
                  (filter (\<lambda>(ws, _). ws = ws_id w) (dirty_inodes s))) of
             Some path \<Rightarrow> path
           | None \<Rightarrow> [kSlash]))"

text \<open>\<open>ORDER BY updated_at DESC, id DESC LIMIT 1\<close>\<close>

definition later_handle :: "handle_row option \<Rightarrow> handle_row \<Rightarrow> handle_row option" where
  "later_handle best h =
     (case best of
        None \<Rightarrow> Some h
      | Some b \<Rightarrow> if h_updated b < h_updated h \<or> h_updated b = h_updated h \<and> h_id b < h_id h
                  then Some h else best)"

definition commit_session :: "db \<Rightarrow> Workspace \<Rightarrow> string option" where
  "commit_session s w =
     (case fold (\<lambda>h best. later_handle best h)
        (filter (\<lambda>h. h_workspace h = ws_id w \<and> h_owner h \<noteq> None \<and>
            ((h_workspace h, h_inode h) \<in> set (dirty_inodes s) \<or>
             (\<exists>r \<in> set (dirty_dentries s). dd_workspace r = h_workspace h \<and> dd_inode r = h_inode h)))
          (handles s)) None of
        None \<Rightarrow> None
      | Some h \<Rightarrow> (if h_owner h = Some [] then None else h_owner h))"

definition null_if_zero :: "nat option \<Rightarrow> nat option" where
  "null_if_zero c = (if c = Some 0 then None else c)"

definition new_commit :: "db \<Rightarrow> Workspace \<Rightarrow> workspace_row \<Rightarrow> string \<Rightarrow> commit_row" where
  "new_commit s w r message =
     \<lparr>c_id = next_rowid (map c_id (commits s)), c_workspace = w_id r, c_parent = null_if_zero (w_head r),
      c_message = message, c_path = commit_path s w, c_session = commit_session s w, c_created = now_ms s\<rparr>"

definition set_head :: "nat \<Rightarrow> nat \<Rightarrow> db \<Rightarrow> db" where
  "set_head ws commit s =
     s\<lparr>workspaces := map (\<lambda>x. if w_id x = ws
          then x\<lparr>w_head := Some commit,
                  w_floor := (case w_floor x of None \<Rightarrow> Some commit | Some f \<Rightarrow> Some f)\<rparr>
          else x) (workspaces s)\<rparr>"

definition CreateCommitInTransaction :: "Workspace \<Rightarrow> string \<Rightarrow> nat vexfs" where
  "CreateCommitInTransaction w message =
     bind (gets (\<lambda>s. find_workspace_row s (ws_id w))) (\<lambda>row.
     case row of
       None \<Rightarrow> throw workspace_missing
     | Some r \<Rightarrow>
         bind (gets (\<lambda>s. new_commit s w r message)) (\<lambda>c.
         andthen (modify (\<lambda>s. s\<lparr>commits := commits s @ [c]\<rparr>))
         (andthen (modify (FlushHistoryChanges (ws_id w) (c_id c)))
         (andthen (modify (set_head (ws_id w) (c_id c)))
         (ret (c_id c))))))"

lemma CreateCommitInTransaction_run:
  "CreateCommitInTransaction w message s =
     (case find_workspace_row s (ws_id w) of
        None \<Rightarrow> (Inl workspace_missing, s)
      | Some r \<Rightarrow>
          let c = new_commit s w r message
          in (Inr (c_id c), set_head (ws_id w) (c_id c)
                (FlushHistoryChanges (ws_id w) (c_id c) (s\<lparr>commits := commits s @ [c]\<rparr>))))"
  by (simp add: CreateCommitInTransaction_def op_simps Let_def split: option.split)

definition CreateCommit :: "Workspace \<Rightarrow> string \<Rightarrow> nat vexfs" where
  "CreateCommit w message = savepoint (CreateCommitInTransaction w message)"

section \<open>Inodes and directory entries\<close>

definition CreateInode :: "nat \<Rightarrow> kind \<Rightarrow> nat \<Rightarrow> nat vexfs" where
  "CreateInode workspace_id k mode =
     bind (query (\<lambda>s. CheckQuotaForNewInode s workspace_id k)) (\<lambda>_.
     bind (gets (\<lambda>s. next_rowid (map i_id (inodes s)))) (\<lambda>inode.
     andthen (modify (\<lambda>s. insert_inode
         \<lparr>i_id = inode, i_workspace = workspace_id, i_kind = k, i_mode = mode, i_owner = ''local'',
          i_uid = process_uid s, i_gid = process_gid s, i_size = 0,
          i_version = (if k = KDirectory then 1 else 0),
          i_created = now_s_ms s, i_accessed = now_s_ms s, i_updated = now_s_ms s,
          i_changed = now_s_ms s, i_deleted = None\<rparr> s))
     (ret inode)))"

definition TouchDirectory :: "nat \<Rightarrow> nat \<Rightarrow> db \<Rightarrow> db" where
  "TouchDirectory workspace_id inode s =
     update_inodes (\<lambda>i. i_id i = inode \<and> i_workspace i = workspace_id \<and> i_kind i = KDirectory \<and> i_deleted i = None)
       (\<lambda>i. i\<lparr>i_version := i_version i + 1, i_updated := now_ms s, i_changed := now_ms s\<rparr>) s"

text \<open>The entries of the parent that are marked inheritable, for the new inode.\<close>

definition inherit_acl :: "nat \<Rightarrow> nat \<Rightarrow> nat \<Rightarrow> db \<Rightarrow> db" where
  "inherit_acl workspace_id parent inode s =
     fold (\<lambda>a. insert_acl_or_ignore (a\<lparr>a_inode := inode\<rparr>))
       (filter (\<lambda>a. a_workspace a = workspace_id \<and> a_inode a = parent \<and> a_inherit a \<noteq> 0) (acl_entries s)) s"

definition AddDentry :: "nat \<Rightarrow> nat \<Rightarrow> string \<Rightarrow> nat \<Rightarrow> unit vexfs" where
  "AddDentry workspace_id parent name inode =
     andthen (insert_dentry \<lparr>d_workspace = workspace_id, d_parent = parent, d_name = name, d_inode = inode\<rparr>)
     (andthen (modify (inherit_acl workspace_id parent inode))
     (modify (TouchDirectory workspace_id parent)))"

section \<open>The search index\<close>

definition MarkGrepIndexDirty :: "db \<Rightarrow> db" where
  "MarkGrepIndexDirty s = (if grep_state s = GrepDisabled then s else s\<lparr>grep_dirty := True\<rparr>)"

definition index_file :: "nat \<Rightarrow> nat \<Rightarrow> nat \<Rightarrow> unit vexfs" where
  "index_file inode_id workspace_id version =
     bind (query (\<lambda>s. ReadVersionContent s inode_id version)) (\<lambda>content.
     modify (\<lambda>s. s\<lparr>content_fts := content_fts s @
       [\<lparr>f_inode = inode_id, f_workspace = workspace_id, f_version = version, f_content = content\<rparr>]\<rparr>))"

definition RebuildGrepIndex :: "unit vexfs" where
  "RebuildGrepIndex = savepoint
     (andthen (modify (\<lambda>s. s\<lparr>content_fts := []\<rparr>))
     (bind (gets (\<lambda>s. filter (\<lambda>i. i_kind i = KFile \<and> i_deleted i = None) (inodes s))) (\<lambda>files.
     andthen (for_each files (\<lambda>i. index_file (i_id i) (i_workspace i) (i_version i)))
     (modify (\<lambda>s. s\<lparr>grep_dirty := False\<rparr>)))))"

text \<open>
  Whether the SQLite host has FTS5, and whether the connection is read-only, are arguments. The table
  \<open>_vexfs_content_fts\<close> is created and dropped together with the marker, so it is there when the marker
  is. The state of the connection is a field of the database, which a savepoint restores: on an
  exception the code sets it back to what it was.
\<close>

definition no_fts5 :: vex_error where
  "no_fts5 = SqlError ''this SQLite host does not provide FTS5'' SQLITE_MISMATCH"

definition DetectGrepIndex :: "bool \<Rightarrow> bool \<Rightarrow> unit vexfs" where
  "DetectGrepIndex fts5 readonly =
     bind (gets grep_marker) (\<lambda>marker.
     if \<not> marker then modify (\<lambda>s. s\<lparr>grep_state := GrepDisabled\<rparr>)
     else if \<not> fts5 then modify (\<lambda>s. s\<lparr>grep_state := GrepUnavailable\<rparr>)
     else bind (gets grep_dirty) (\<lambda>dirty.
       if dirty \<and> readonly then modify (\<lambda>s. s\<lparr>grep_state := GrepUnavailable\<rparr>)
       else andthen (op_when dirty RebuildGrepIndex) (modify (\<lambda>s. s\<lparr>grep_state := GrepAvailable\<rparr>))))"

definition EnableGrepIndex :: "bool \<Rightarrow> unit vexfs" where
  "EnableGrepIndex fts5 =
     require fts5 no_fts5
       (savepoint
         (andthen (modify (\<lambda>s. s\<lparr>grep_marker := True, grep_dirty := True, grep_state := GrepAvailable\<rparr>))
         RebuildGrepIndex))"

definition DisableGrepIndex :: "bool \<Rightarrow> unit vexfs" where
  "DisableGrepIndex fts5 =
     bind (gets grep_marker) (\<lambda>marker.
     require (\<not> (marker \<and> \<not> fts5))
       (SqlError ''cannot remove the FTS5 index from this SQLite host'' SQLITE_MISMATCH)
       (modify (\<lambda>s. s\<lparr>content_fts := [], grep_marker := False, grep_dirty := False, grep_state := GrepDisabled\<rparr>)))"

definition json_key :: "string \<Rightarrow> string" where
  "json_key name = CHR 0x22 # name @ [CHR 0x22, CHR 0x3A]"

definition json_bool :: "bool \<Rightarrow> string" where
  "json_bool b = (if b then ''true'' else ''false'')"

definition GrepIndexStatus :: "db \<Rightarrow> string" where
  "GrepIndexStatus s =
     (let available = (grep_state s = GrepAvailable)
      in ''{'' @ json_key ''enabled'' @ json_bool (grep_state s \<noteq> GrepDisabled) @
         '','' @ json_key ''available'' @ json_bool available @
         '','' @ json_key ''dirty'' @ json_bool (grep_dirty s) @
         '','' @ json_key ''backend'' @ [CHR 0x22] @ (if available then ''fts5-trigram'' else ''scan'') @ [CHR 0x22] @
         '','' @ json_key ''indexed_files'' @ to_string (if available then length (content_fts s) else 0) @ ''}'')"

definition grep_action :: "bool \<Rightarrow> string \<Rightarrow> unit vexfs" where
  "grep_action fts5 action =
     (if action = ''enable'' then EnableGrepIndex fts5
      else if action = ''rebuild''
      then bind (gets grep_state) (\<lambda>state.
             require (state = GrepAvailable)
               (SqlError ''grep index is not enabled or available'' SQLITE_MISMATCH) RebuildGrepIndex)
      else if action = ''disable'' then DisableGrepIndex fts5
      else require (action = ''status'')
             (SqlError ''index action must be status, enable, rebuild or disable'' SQLITE_MISMATCH) (ret ()))"

definition GrepIndexFunction :: "bool \<Rightarrow> sql_value \<Rightarrow> string vexfs" where
  "GrepIndexFunction fts5 v =
     bind (query (\<lambda>_. RequiredText v ''action'')) (\<lambda>action.
     andthen (grep_action fts5 action) (gets GrepIndexStatus))"

definition UpdateGrepIndexFromVersion :: "nat \<Rightarrow> nat \<Rightarrow> nat \<Rightarrow> unit vexfs" where
  "UpdateGrepIndexFromVersion workspace_id inode_id version =
     bind (gets grep_state) (\<lambda>state.
     case state of
       GrepDisabled \<Rightarrow> ret ()
     | GrepUnavailable \<Rightarrow> modify MarkGrepIndexDirty
     | GrepAvailable \<Rightarrow>
         andthen (modify (\<lambda>s. s\<lparr>content_fts := filter (\<lambda>f. f_inode f \<noteq> inode_id) (content_fts s)\<rparr>))
         (bind (gets (\<lambda>s. \<exists>i \<in> set (inodes s). i_id i = inode_id \<and> i_workspace i = workspace_id \<and>
                   i_kind i = KFile \<and> i_deleted i = None)) (\<lambda>live.
         op_when live (index_file inode_id workspace_id version))))"

definition RefreshGrepIndexAfterTreeChange :: "unit vexfs" where
  "RefreshGrepIndexAfterTreeChange =
     bind (gets grep_state) (\<lambda>state.
     case state of
       GrepAvailable \<Rightarrow> RebuildGrepIndex
     | GrepUnavailable \<Rightarrow> modify MarkGrepIndexDirty
     | GrepDisabled \<Rightarrow> ret ())"

definition RemoveDeletedFilesFromGrepIndex :: "nat \<Rightarrow> db \<Rightarrow> db" where
  "RemoveDeletedFilesFromGrepIndex workspace_id s =
     (case grep_state s of
        GrepDisabled \<Rightarrow> s
      | GrepUnavailable \<Rightarrow> MarkGrepIndexDirty s
      | GrepAvailable \<Rightarrow>
          s\<lparr>content_fts := filter (\<lambda>f. \<not> (\<exists>i \<in> set (inodes s). i_id i = f_inode f \<and>
               i_workspace i = workspace_id \<and> i_kind i = KFile \<and> i_deleted i \<noteq> None)) (content_fts s)\<rparr>)"

end
