(* ===== verification/Vex_Files.thy ===== *)
theory Vex_Files
  imports Vex_Commits "HOL-Library.Sublist"
begin

text \<open>
  Versions of files and the SQL functions on paths and inodes: \<open>StoreVersion\<close>,
  \<open>StoreVersionFromVersion\<close>, \<open>WritePath\<close>, and the handlers from \<open>WorkspaceCreateFunction\<close> to
  \<open>AppendFunction\<close>, \<open>ReadVersionFunction\<close>, \<open>RestoreVersionFunction\<close>, the metadata and attribute
  handlers, \<open>RenameFunction\<close> and \<open>RemoveFunction\<close> of
  src/vexdb\_sqlite/src/agent\_files/vexfs\_sqlite.cpp.

  A handler takes its SQL arguments, raises what \<open>Guard\<close> turns into the error of the call, and
  returns the result of the call. The schema is there (\<open>EnsureSchema\<close> has run on the connection), and
  the connection is the only writer, so \<open>AcquireWriteLock\<close> succeeds and changes nothing. An argument
  that the code reads with \<open>sqlite3_value_int\<close> is the integer it reads.
\<close>

section \<open>Storing a version\<close>

text \<open>\<open>INSERT INTO _vexfs_file_versions\<close>; (inode, version number) is unique.\<close>

definition insert_version ::
  "nat \<Rightarrow> nat \<Rightarrow> nat \<Rightarrow> nat option \<Rightarrow> nat \<Rightarrow> string \<Rightarrow> nat option \<Rightarrow> unit vexfs" where
  "insert_version inode no commit manifest file_size checksum source =
     bind (gets (\<lambda>s. find_version s inode no \<noteq> None)) (\<lambda>exists.
     require (\<not> exists) unique_failed
       (modify (\<lambda>s. s\<lparr>file_versions := file_versions s @
          [\<lparr>v_id = next_rowid (map v_id (file_versions s)), v_inode = inode, v_no = no, v_commit = commit,
            v_manifest = manifest, v_size = int file_size, v_checksum = checksum, v_source = source,
            v_created = now_s_ms s\<rparr>]\<rparr>)))"

text \<open>
  \<open>UPDATE _vexfs_inodes SET size, current_version ... WHERE id AND current_version\<close>, and the check
  that it changed one row.
\<close>

definition advance_version :: "nat \<Rightarrow> nat \<Rightarrow> nat \<Rightarrow> nat \<Rightarrow> string \<Rightarrow> unit vexfs" where
  "advance_version inode old_version file_size version conflict =
     bind (gets (\<lambda>s. length (filter (\<lambda>i. i_id i = inode \<and> i_version i = old_version) (inodes s)))) (\<lambda>changed.
     andthen (modify (\<lambda>s. update_inodes (\<lambda>i. i_id i = inode \<and> i_version i = old_version)
         (\<lambda>i. i\<lparr>i_size := int file_size, i_version := version, i_updated := now_ms s, i_changed := now_ms s\<rparr>) s))
     (require (changed = 1) (SqlError conflict SQLITE_CONSTRAINT) (ret ())))"

definition previous_manifest_of :: "db \<Rightarrow> inode_row \<Rightarrow> nat result" where
  "previous_manifest_of s node =
     (if 0 < i_version node
      then res_bind (ResolveVersionStorage s (i_id node) (i_version node)) (\<lambda>st. Inr (vs_manifest st))
      else Inr 0)"

definition StoreVersion :: "Workspace \<Rightarrow> inode_row \<Rightarrow> byte list \<Rightarrow> string \<Rightarrow> nat vexfs" where
  "StoreVersion w node content message = savepoint
     (bind (query (\<lambda>s. previous_manifest_of s node)) (\<lambda>previous_manifest.
      bind (query (\<lambda>s. CheckQuotaForContentSize s (ws_id w) (i_id node) (int (length content)))) (\<lambda>_.
      andthen (advance_version (i_id node) (i_version node) (length content) (i_version node + 1)
                ''version conflict: file changed before publish'')
      (bind (CreateCommit w message) (\<lambda>commit.
      bind (StoreManifest (ws_id w) (i_id node) previous_manifest content) (\<lambda>(manifest_id, checksum).
      andthen (insert_version (i_id node) (i_version node + 1) commit (Some manifest_id) (length content)
                checksum None)
      (andthen (UpdateGrepIndexFromVersion (ws_id w) (i_id node) (i_version node + 1))
      (ret (i_version node + 1)))))))))"

definition StoreVersionFromVersion :: "Workspace \<Rightarrow> inode_row \<Rightarrow> nat \<Rightarrow> string \<Rightarrow> nat vexfs" where
  "StoreVersionFromVersion w node source_version message = savepoint
     (bind (query (\<lambda>s. ResolveVersionStorage s (i_id node) source_version)) (\<lambda>source.
      bind (query (\<lambda>s. CheckQuotaForContentSize s (ws_id w) (i_id node) (int (vs_size source)))) (\<lambda>_.
      andthen (advance_version (i_id node) (i_version node) (vs_size source) (i_version node + 1)
                ''version conflict: file changed before restore'')
      (bind (CreateCommit w message) (\<lambda>commit.
      andthen (insert_version (i_id node) (i_version node + 1) commit None (vs_size source)
                (vs_checksum source) (Some (vs_canonical source)))
      (andthen (UpdateGrepIndexFromVersion (ws_id w) (i_id node) (i_version node + 1))
      (ret (i_version node + 1))))))))"

definition not_a_file :: vex_error where
  "not_a_file = SqlError ''path is not a file'' SQLITE_MISMATCH"

definition ReadNode :: "db \<Rightarrow> inode_row \<Rightarrow> byte list result" where
  "ReadNode s node =
     (if i_kind node \<noteq> KFile then Inl not_a_file
      else if i_version node = 0 then Inr []
      else ReadVersionContent s (i_id node) (i_version node))"

definition ReadNodeVersion :: "db \<Rightarrow> inode_row \<Rightarrow> nat \<Rightarrow> byte list result" where
  "ReadNodeVersion s node version =
     (if i_kind node \<noteq> KFile then Inl not_a_file
      else if version = 0 then Inl (SqlError ''version must be a positive integer'' SQLITE_RANGE)
      else ReadVersionContent s (i_id node) version)"

text \<open>
  The node that the code builds for an inode it has just created: the columns that it fills in, the
  others with the defaults of \<open>Node\<close>.
\<close>

definition new_node :: "nat \<Rightarrow> kind \<Rightarrow> nat \<Rightarrow> inode_row" where
  "new_node inode k mode =
     \<lparr>i_id = inode, i_workspace = 0, i_kind = k, i_mode = mode, i_owner = ''local'', i_uid = 0, i_gid = 0,
      i_size = 0, i_version = 0, i_created = 0, i_accessed = 0, i_updated = 0, i_changed = 0, i_deleted = None\<rparr>"

definition create_child :: "nat \<Rightarrow> nat \<Rightarrow> string \<Rightarrow> kind \<Rightarrow> nat \<Rightarrow> inode_row vexfs" where
  "create_child workspace_id parent name k mode =
     bind (CreateInode workspace_id k mode) (\<lambda>inode.
     andthen (AddDentry workspace_id parent name inode) (ret (new_node inode k mode)))"

definition WritePath :: "Workspace \<Rightarrow> string list \<Rightarrow> byte list \<Rightarrow> string \<Rightarrow> nat vexfs" where
  "WritePath w parts content message = savepoint
     (bind (query (\<lambda>s. ResolveParent s w parts)) (\<lambda>(parent, name).
      bind (gets (\<lambda>s. FindChild s (ws_id w) (i_id parent) name)) (\<lambda>found.
      bind (case found of
              None \<Rightarrow> create_child (ws_id w) (i_id parent) name KFile 420
            | Some node \<Rightarrow> ret node) (\<lambda>node.
      require (i_kind node = KFile) not_a_file
        (StoreVersion w node content message)))))"

section \<open>Arguments\<close>

definition text_arg :: "sql_value \<Rightarrow> string \<Rightarrow> string vexfs" where
  "text_arg v name = query (\<lambda>_. RequiredText v name)"

definition workspace_arg :: "sql_value \<Rightarrow> Workspace vexfs" where
  "workspace_arg v = bind (text_arg v ''workspace'') (\<lambda>name. query (\<lambda>s. FindWorkspace s name))"

definition parts_arg :: "sql_value \<Rightarrow> string \<Rightarrow> string list vexfs" where
  "parts_arg v name = bind (text_arg v name) (\<lambda>path. query (\<lambda>_. PathParts path))"

definition blob_arg :: "sql_value \<Rightarrow> string \<Rightarrow> byte list vexfs" where
  "blob_arg v name = query (\<lambda>_. RequiredBlob v name)"

definition inode_arg :: "sql_value \<Rightarrow> string \<Rightarrow> nat vexfs" where
  "inode_arg v name = query (\<lambda>_. RequiredPositiveInteger v name)"

definition WorkspaceById :: "db \<Rightarrow> nat \<Rightarrow> Workspace result" where
  "WorkspaceById s ws =
     (case find_workspace_row s ws of
        None \<Rightarrow> Inl workspace_missing
      | Some w \<Rightarrow> Inr \<lparr>ws_id = w_id w, ws_root = (case w_root w of None \<Rightarrow> 0 | Some r \<Rightarrow> r),
                        ws_head = (case w_head w of None \<Rightarrow> 0 | Some c \<Rightarrow> c)\<rparr>)"

definition inode_missing :: vex_error where
  "inode_missing = SqlError ''inode not found'' SQLITE_NOTFOUND"

definition NodeById :: "db \<Rightarrow> nat \<Rightarrow> bool \<Rightarrow> inode_row result" where
  "NodeById s inode include_deleted =
     (case find (\<lambda>i. i_id i = inode \<and> (include_deleted \<or> i_deleted i = None)) (inodes s) of
        None \<Rightarrow> Inl inode_missing
      | Some i \<Rightarrow> Inr i)"

definition RequireWorkspaceInode :: "db \<Rightarrow> Workspace \<Rightarrow> nat \<Rightarrow> unit result" where
  "RequireWorkspaceInode s w inode =
     (if \<exists>i \<in> set (inodes s). i_id i = inode \<and> i_workspace i = ws_id w then Inr () else Inl inode_missing)"

section \<open>Workspaces, directories, files and links\<close>

definition new_workspace_row :: "nat \<Rightarrow> string \<Rightarrow> workspace_row" where
  "new_workspace_row ws name =
     \<lparr>w_id = ws, w_name = name, w_state = Active, w_root = None, w_head = None, w_floor = None,
      w_keep_versions = 32, w_keep_days = 30, w_agent_keep = 20, w_safety_keep = 10, w_snapshot_days = 30,
      w_gc_paused = False, w_max_bytes = None, w_max_files = None, w_max_file_bytes = None,
      w_live_files = 0, w_live_bytes = 0\<rparr>"

definition insert_workspace :: "string \<Rightarrow> nat vexfs" where
  "insert_workspace name =
     bind (gets (\<lambda>s. name \<in> w_name ` set (workspaces s))) (\<lambda>exists.
     require (\<not> exists) unique_failed
       (bind (gets (\<lambda>s. next_rowid (map w_id (workspaces s)))) (\<lambda>ws.
        andthen (modify (\<lambda>s. s\<lparr>workspaces := workspaces s @ [new_workspace_row ws name]\<rparr>)) (ret ws))))"

definition insert_acl :: "acl_row \<Rightarrow> unit vexfs" where
  "insert_acl a =
     bind (gets (\<lambda>s. acl_key a \<in> acl_key ` set (acl_entries s))) (\<lambda>exists.
     require (\<not> exists) unique_failed
       (modify (\<lambda>s. s\<lparr>acl_entries := acl_entries s @ [a], dirty_acl := add_key (acl_key a) (dirty_acl s)\<rparr>)))"

definition WorkspaceCreateFunction :: "sql_value \<Rightarrow> nat vexfs" where
  "WorkspaceCreateFunction v =
     bind (text_arg v ''workspace'') (\<lambda>name.
     require (\<not> (name = [] \<or> 128 < length name))
       (SqlError ''workspace name must be 1..128 bytes'' SQLITE_MISMATCH)
     (bind (gets (\<lambda>s. FindWorkspace s name)) (\<lambda>existing.
      case existing of
        Inr w \<Rightarrow> ret (ws_id w)
      | Inl _ \<Rightarrow>
          bind (insert_workspace name) (\<lambda>ws.
          bind (CreateInode ws KDirectory 493) (\<lambda>root.
          andthen (modify (\<lambda>s. s\<lparr>workspaces := map (\<lambda>w. if w_id w = ws then w\<lparr>w_root := Some root\<rparr> else w)
                     (workspaces s)\<rparr>))
          (andthen (insert_acl \<lparr>a_workspace = ws, a_inode = root, a_principal = ''local'', a_effect = ''allow'',
              a_permissions = ''traverse,list,read,write,create,delete,rename,history,snapshot,share,admin'',
              a_inherit = 1\<rparr>)
          (bind (CreateCommit \<lparr>ws_id = ws, ws_root = root, ws_head = 0\<rparr> ''create workspace'') (\<lambda>_.
          ret ws))))))))"

fun mkdir_loop :: "nat \<Rightarrow> string list \<Rightarrow> inode_row \<Rightarrow> bool \<Rightarrow> (inode_row \<times> bool) vexfs" where
  "mkdir_loop ws [] current changed = ret (current, changed)"
| "mkdir_loop ws (part # parts) current changed =
     bind (gets (\<lambda>s. FindChild s ws (i_id current) part)) (\<lambda>found.
     case found of
       None \<Rightarrow> bind (create_child ws (i_id current) part KDirectory 493) (\<lambda>child.
                 mkdir_loop ws parts child True)
     | Some child \<Rightarrow>
         require (i_kind child = KDirectory) (SqlError ''path component is not a directory'' SQLITE_MISMATCH)
           (mkdir_loop ws parts child changed))"

definition MkdirFunction :: "sql_value \<Rightarrow> sql_value \<Rightarrow> nat vexfs" where
  "MkdirFunction v0 v1 =
     bind (workspace_arg v0) (\<lambda>w.
     bind (parts_arg v1 ''path'') (\<lambda>parts.
     bind (query (\<lambda>s. RootNode s w)) (\<lambda>root.
     bind (mkdir_loop (ws_id w) parts root False) (\<lambda>(current, changed).
     andthen (op_when changed (bind (CreateCommit w ''mkdir'') (\<lambda>_. ret ())))
     (ret (i_id current))))))"

definition destination_exists :: vex_error where
  "destination_exists = SqlError ''destination already exists'' SQLITE_CONSTRAINT"

definition root_exists :: vex_error where
  "root_exists = SqlError ''workspace root already exists'' SQLITE_CONSTRAINT"

text \<open>\<open>ResolveParent\<close> and the check that the name is free.\<close>

definition free_name :: "Workspace \<Rightarrow> string list \<Rightarrow> (inode_row \<times> string) vexfs" where
  "free_name w parts =
     bind (query (\<lambda>s. ResolveParent s w parts)) (\<lambda>(parent, name).
     bind (gets (\<lambda>s. FindChild s (ws_id w) (i_id parent) name)) (\<lambda>existing.
     require (existing = None) destination_exists (ret (parent, name))))"

definition CreateFunction :: "sql_value \<Rightarrow> sql_value \<Rightarrow> sql_value \<Rightarrow> sql_value \<Rightarrow> nat vexfs" where
  "CreateFunction v0 v1 v2 v3 =
     bind (workspace_arg v0) (\<lambda>w.
     bind (parts_arg v1 ''path'') (\<lambda>parts.
     bind (text_arg v2 ''kind'') (\<lambda>kind.
     bind (query (\<lambda>_. RequiredMode v3)) (\<lambda>mode.
     require (parts \<noteq> []) root_exists
     (require (kind = ''file'' \<or> kind = ''directory'')
        (SqlError ''special files (fifo, device and socket) are not supported'' SQLITE_MISMATCH)
     (savepoint
       (bind (free_name w parts) (\<lambda>(parent, name).
        bind (create_child (ws_id w) (i_id parent) name (if kind = ''file'' then KFile else KDirectory) mode) (\<lambda>node.
        bind (if kind = ''file'' then StoreVersion w node [] ''create file''
              else CreateCommit w ''create directory'') (\<lambda>_.
        ret (i_id node)))))))))))"

definition SymlinkFunction :: "sql_value \<Rightarrow> sql_value \<Rightarrow> sql_value \<Rightarrow> nat vexfs" where
  "SymlinkFunction v0 v1 v2 =
     bind (workspace_arg v0) (\<lambda>w.
     bind (parts_arg v1 ''path'') (\<lambda>parts.
     bind (blob_arg v2 ''symlink target'') (\<lambda>target.
     require (parts \<noteq> []) root_exists
     (require (target \<noteq> []) (SqlError ''symlink target must not be empty'' SQLITE_MISMATCH)
     (require (length target \<le> kMaxSymlinkBytes)
        (SqlError ''symlink target is longer than 4096 bytes'' SQLITE_TOOBIG)
     (require (0 \<notin> set target) (SqlError ''symlink target contains NUL'' SQLITE_MISMATCH)
     (savepoint
       (bind (free_name w parts) (\<lambda>(parent, name).
        bind (create_child (ws_id w) (i_id parent) name KSymlink 511) (\<lambda>node.
        bind (StoreVersion w node target ''create symlink'') (\<lambda>_.
        ret (i_id node))))))))))))"

definition HardlinkFunction :: "sql_value \<Rightarrow> sql_value \<Rightarrow> sql_value \<Rightarrow> nat vexfs" where
  "HardlinkFunction v0 v1 v2 =
     bind (workspace_arg v0) (\<lambda>w.
     bind (parts_arg v1 ''source'') (\<lambda>source_parts.
     bind (parts_arg v2 ''destination'') (\<lambda>destination_parts.
     require (\<not> (source_parts = [] \<or> destination_parts = []))
       (SqlError ''hard links cannot target the workspace root'' SQLITE_MISMATCH)
     (savepoint
       (bind (query (\<lambda>s. Resolve s w source_parts)) (\<lambda>source.
        require (i_kind source = KFile)
          (SqlError ''hard links are supported only for regular files'' SQLITE_MISMATCH)
        (bind (free_name w destination_parts) (\<lambda>(parent, name).
         andthen (AddDentry (ws_id w) (i_id parent) name (i_id source))
         (bind (CreateCommit w ''create hard link'') (\<lambda>_.
         ret (i_id source)))))))))))"

section \<open>Content\<close>

definition too_large :: vex_error where
  "too_large = SqlError ''file is larger than the Phase 0 limit (128 MiB)'' SQLITE_TOOBIG"

definition WriteFunction :: "sql_value \<Rightarrow> sql_value \<Rightarrow> sql_value \<Rightarrow> nat vexfs" where
  "WriteFunction v0 v1 v2 =
     bind (workspace_arg v0) (\<lambda>w.
     bind (parts_arg v1 ''path'') (\<lambda>parts.
     bind (blob_arg v2 ''content'') (\<lambda>content.
     require (length content \<le> kMaxStagedBytes) too_large
       (WritePath w parts content ''write file''))))"

definition AppendFunction :: "sql_value \<Rightarrow> sql_value \<Rightarrow> sql_value \<Rightarrow> nat vexfs" where
  "AppendFunction v0 v1 v2 =
     bind (workspace_arg v0) (\<lambda>w.
     bind (inode_arg v1 ''inode'') (\<lambda>inode.
     bind (blob_arg v2 ''content'') (\<lambda>suffix.
     savepoint
       (bind (query (\<lambda>s. RequireWorkspaceInode s w inode)) (\<lambda>_.
        bind (query (\<lambda>s. NodeById s inode True)) (\<lambda>node.
        require (i_kind node = KFile) (SqlError ''inode is not a file'' SQLITE_MISMATCH)
        (require (\<not> (i_size node < 0 \<or> int kMaxStagedBytes < i_size node \<or>
                     int kMaxStagedBytes - i_size node < int (length suffix))) too_large
        (bind (query (\<lambda>s. ReadNode s node)) (\<lambda>content.
         StoreVersion w node (content @ suffix) ''append file'')))))))))"

definition ReadVersionFunction :: "sql_value \<Rightarrow> sql_value \<Rightarrow> sql_value \<Rightarrow> byte list vexfs" where
  "ReadVersionFunction v0 v1 v2 =
     bind (workspace_arg v0) (\<lambda>w.
     bind (parts_arg v1 ''path'') (\<lambda>parts.
     bind (query (\<lambda>s. Resolve s w parts)) (\<lambda>node.
     bind (inode_arg v2 ''version'') (\<lambda>version.
     query (\<lambda>s. ReadNodeVersion s node version)))))"

definition RestoreVersionFunction ::
  "sql_value \<Rightarrow> sql_value \<Rightarrow> sql_value \<Rightarrow> sql_value \<Rightarrow> nat vexfs" where
  "RestoreVersionFunction v0 v1 v2 v3 =
     bind (workspace_arg v0) (\<lambda>w.
     bind (parts_arg v1 ''path'') (\<lambda>parts.
     bind (query (\<lambda>s. Resolve s w parts)) (\<lambda>node.
     bind (inode_arg v2 ''version'') (\<lambda>target_version.
     bind (inode_arg v3 ''expected version'') (\<lambda>expected_version.
     require (i_version node = expected_version)
       (SqlError (''version conflict: expected '' @ to_string expected_version @ '', current '' @
          to_string (i_version node)) SQLITE_CONSTRAINT)
     (require (target_version \<noteq> i_version node)
        (SqlError ''target version is already current'' SQLITE_MISMATCH)
        (StoreVersionFromVersion w node target_version (''restore version '' @ to_string target_version))))))))"

definition ReadlinkFunction :: "sql_value \<Rightarrow> sql_value \<Rightarrow> byte list vexfs" where
  "ReadlinkFunction v0 v1 =
     bind (workspace_arg v0) (\<lambda>w.
     bind (inode_arg v1 ''inode'') (\<lambda>inode.
     bind (query (\<lambda>s. RequireWorkspaceInode s w inode)) (\<lambda>_.
     bind (query (\<lambda>s. NodeById s inode True)) (\<lambda>node.
     require (i_kind node = KSymlink) (SqlError ''inode is not a symbolic link'' SQLITE_MISMATCH)
     (require (0 < i_version node) (SqlError ''symlink target is missing'' SQLITE_CORRUPT)
     (query (\<lambda>s. ReadVersionContent s (i_id node) (i_version node))))))))"

section \<open>Metadata\<close>

definition HasPendingContentPublish :: "db \<Rightarrow> nat \<Rightarrow> nat \<Rightarrow> bool" where
  "HasPendingContentPublish s ws inode \<longleftrightarrow>
     (\<exists>h \<in> set (handles s). h_workspace h = ws \<and> h_inode h = inode \<and> h_writable h \<and>
        h_state h \<in> {HOpen, HRetained} \<and> h_published h < h_dirty h)"

definition CommitMetadataChange :: "Workspace \<Rightarrow> nat \<Rightarrow> string \<Rightarrow> unit vexfs" where
  "CommitMetadataChange w inode message =
     bind (gets (\<lambda>s. HasPendingContentPublish s (ws_id w) inode)) (\<lambda>pending.
     op_when (\<not> pending) (bind (CreateCommit w message) (\<lambda>_. ret ())))"

text \<open>\<open>UPDATE _vexfs_inodes ...\<close> and the check that one row changed.\<close>

definition update_one_inode :: "(inode_row \<Rightarrow> bool) \<Rightarrow> (db \<Rightarrow> inode_row \<Rightarrow> inode_row) \<Rightarrow> unit vexfs" where
  "update_one_inode p f =
     bind (gets (\<lambda>s. length (filter p (inodes s)))) (\<lambda>changed.
     andthen (modify (\<lambda>s. update_inodes p (f s) s))
     (require (changed = 1) inode_missing (ret ())))"

definition SetModeFunction :: "sql_value \<Rightarrow> sql_value \<Rightarrow> sql_value \<Rightarrow> nat vexfs" where
  "SetModeFunction v0 v1 v2 =
     bind (workspace_arg v0) (\<lambda>w.
     bind (inode_arg v1 ''inode'') (\<lambda>inode.
     bind (query (\<lambda>_. RequiredMode v2)) (\<lambda>mode.
     savepoint
       (bind (query (\<lambda>s. RequireWorkspaceInode s w inode)) (\<lambda>_.
        bind (query (\<lambda>s. NodeById s inode True)) (\<lambda>node.
        require (i_kind node \<noteq> KSymlink) (SqlError ''symbolic link mode cannot be changed'' SQLITE_MISMATCH)
        (andthen (op_when (i_mode node \<noteq> mode)
           (andthen (update_one_inode (\<lambda>i. i_id i = inode \<and> i_workspace i = ws_id w)
                       (\<lambda>s i. i\<lparr>i_mode := mode, i_changed := now_ms s\<rparr>))
           (CommitMetadataChange w inode ''chmod'')))
        (ret mode))))))))"

text \<open>The mask has bit 1 for the access time and bit 2 for the modification time, and no other bit.\<close>

definition SetTimesFunction ::
  "sql_value \<Rightarrow> sql_value \<Rightarrow> sql_value \<Rightarrow> sql_value \<Rightarrow> int \<Rightarrow> int vexfs" where
  "SetTimesFunction v0 v1 v2 v3 time_mask =
     bind (workspace_arg v0) (\<lambda>w.
     bind (inode_arg v1 ''inode'') (\<lambda>inode.
     bind (query (\<lambda>_. RequiredNonnegativeInteger v2 ''access time'')) (\<lambda>accessed_at.
     bind (query (\<lambda>_. RequiredNonnegativeInteger v3 ''modify time'')) (\<lambda>updated_at.
     require (0 < time_mask \<and> time_mask \<le> 3)
       (SqlError ''time mask must select access time, modify time, or both'' SQLITE_MISMATCH)
     (savepoint
       (bind (query (\<lambda>s. RequireWorkspaceInode s w inode)) (\<lambda>_.
        andthen (update_one_inode (\<lambda>i. i_id i = inode \<and> i_workspace i = ws_id w \<and> i_deleted i = None)
                  (\<lambda>s i. i\<lparr>i_accessed := (if time_mask = 1 \<or> time_mask = 3 then accessed_at else i_accessed i),
                            i_updated := (if time_mask = 2 \<or> time_mask = 3 then updated_at else i_updated i),
                            i_changed := now_ms s\<rparr>))
        (andthen (CommitMetadataChange w inode ''set times'') (ret time_mask)))))))))"

definition ChownFunction :: "sql_value \<Rightarrow> sql_value \<Rightarrow> sql_value \<Rightarrow> sql_value \<Rightarrow> int vexfs" where
  "ChownFunction v0 v1 v2 v3 =
     bind (workspace_arg v0) (\<lambda>w.
     bind (inode_arg v1 ''inode'') (\<lambda>inode.
     bind (query (\<lambda>_. RequiredOwnerId v2 ''uid'')) (\<lambda>requested_uid.
     bind (query (\<lambda>_. RequiredOwnerId v3 ''gid'')) (\<lambda>requested_gid.
     bind (query (\<lambda>s. RequireWorkspaceInode s w inode)) (\<lambda>_.
     bind (query (\<lambda>s. NodeById s inode True)) (\<lambda>current.
     let uid = (if requested_uid < 0 then i_uid current else requested_uid);
         gid = (if requested_gid < 0 then i_gid current else requested_gid)
     in savepoint
       (andthen (update_one_inode (\<lambda>i. i_workspace i = ws_id w \<and> i_id i = inode)
                  (\<lambda>s i. i\<lparr>i_uid := uid, i_gid := gid, i_changed := now_ms s\<rparr>))
       (andthen (CommitMetadataChange w inode ''chown'') (ret uid)))))))))"

definition OwnerSetFunction :: "sql_value \<Rightarrow> sql_value \<Rightarrow> sql_value \<Rightarrow> string vexfs" where
  "OwnerSetFunction v0 v1 v2 =
     bind (workspace_arg v0) (\<lambda>w.
     bind (text_arg v1 ''path'') (\<lambda>path.
     bind (text_arg v2 ''owner principal'') (\<lambda>owner.
     require (\<not> (owner = [] \<or> 255 < length owner))
       (SqlError ''owner principal must be 1..255 bytes'' SQLITE_RANGE)
     (bind (query (\<lambda>_. PathParts path)) (\<lambda>parts.
      bind (query (\<lambda>s. Resolve s w parts)) (\<lambda>node.
      savepoint
        (andthen (update_one_inode (\<lambda>i. i_workspace i = ws_id w \<and> i_id i = i_id node)
                   (\<lambda>s i. i\<lparr>i_owner := owner, i_changed := now_ms s\<rparr>))
        (andthen (CommitMetadataChange w (i_id node) ''set owner'') (ret owner)))))))))"

section \<open>Extended attributes\<close>

definition mark_xattr :: "nat \<Rightarrow> string \<Rightarrow> db \<Rightarrow> db" where
  "mark_xattr inode name s =
     s\<lparr>dirty_xattrs := fold (\<lambda>i. add_key (i_workspace i, inode, name))
        (filter (\<lambda>i. i_id i = inode) (inodes s)) (dirty_xattrs s)\<rparr>"

definition store_xattr :: "nat \<Rightarrow> string \<Rightarrow> byte list \<Rightarrow> db \<Rightarrow> db" where
  "store_xattr inode name val s = mark_xattr inode name
     (if \<exists>x \<in> set (xattrs s). x_inode x = inode \<and> x_name x = name
      then s\<lparr>xattrs := map (\<lambda>x. if x_inode x = inode \<and> x_name x = name then x\<lparr>x_value := val\<rparr> else x) (xattrs s)\<rparr>
      else s\<lparr>xattrs := xattrs s @ [\<lparr>x_inode = inode, x_name = name, x_value = val\<rparr>]\<rparr>)"

definition remove_xattr :: "nat \<Rightarrow> string \<Rightarrow> db \<Rightarrow> db" where
  "remove_xattr inode name s =
     (if \<exists>x \<in> set (xattrs s). x_inode x = inode \<and> x_name x = name
      then mark_xattr inode name
        (s\<lparr>xattrs := filter (\<lambda>x. \<not> (x_inode x = inode \<and> x_name x = name)) (xattrs s)\<rparr>)
      else s)"

definition xattr_name_ok :: "string \<Rightarrow> bool" where
  "xattr_name_ok name \<longleftrightarrow> \<not> (name = [] \<or> 255 < length name)"

definition xattr_name_error :: vex_error where
  "xattr_name_error = SqlError ''xattr name must be 1..255 bytes'' SQLITE_RANGE"

definition xattr_missing :: vex_error where
  "xattr_missing = SqlError ''xattr not found'' SQLITE_NOTFOUND"

definition GetXattrFunction :: "sql_value \<Rightarrow> sql_value \<Rightarrow> sql_value \<Rightarrow> byte list vexfs" where
  "GetXattrFunction v0 v1 v2 =
     bind (workspace_arg v0) (\<lambda>w.
     bind (inode_arg v1 ''inode'') (\<lambda>inode.
     bind (text_arg v2 ''xattr name'') (\<lambda>name.
     require (xattr_name_ok name) xattr_name_error
     (bind (query (\<lambda>s. RequireWorkspaceInode s w inode)) (\<lambda>_.
      query (\<lambda>s. case find (\<lambda>x. x_inode x = inode \<and> x_name x = name) (xattrs s) of
                    None \<Rightarrow> Inl xattr_missing | Some x \<Rightarrow> Inr (x_value x)))))))"

definition touch_changed :: "Workspace \<Rightarrow> nat \<Rightarrow> db \<Rightarrow> db" where
  "touch_changed w inode s =
     update_inodes (\<lambda>i. i_id i = inode \<and> i_workspace i = ws_id w) (\<lambda>i. i\<lparr>i_changed := now_ms s\<rparr>) s"

text \<open>Policies: 0 creates or replaces, 1 creates, 2 replaces, 3 removes.\<close>

definition SetXattrFunction ::
  "sql_value \<Rightarrow> sql_value \<Rightarrow> sql_value \<Rightarrow> sql_value \<Rightarrow> int \<Rightarrow> nat vexfs" where
  "SetXattrFunction v0 v1 v2 v3 policy =
     bind (workspace_arg v0) (\<lambda>w.
     bind (inode_arg v1 ''inode'') (\<lambda>inode.
     bind (text_arg v2 ''xattr name'') (\<lambda>name.
     require (xattr_name_ok name) xattr_name_error
     (require (0 \<le> policy \<and> policy \<le> 3) (SqlError ''xattr policy must be 0..3'' SQLITE_RANGE)
     (bind (query (\<lambda>s. RequireWorkspaceInode s w inode)) (\<lambda>_.
      bind (gets (\<lambda>s. \<exists>x \<in> set (xattrs s). x_inode x = inode \<and> x_name x = name)) (\<lambda>found.
      require (\<not> (policy = 1 \<and> found)) (SqlError ''xattr already exists'' SQLITE_CONSTRAINT)
      (require (\<not> ((policy = 2 \<or> policy = 3) \<and> \<not> found)) xattr_missing
      (savepoint
        (andthen
          (if policy = 3 then modify (remove_xattr inode name)
           else bind (blob_arg v3 ''xattr value'') (\<lambda>val.
                require (length val \<le> kMaxXattrBytes) (SqlError ''xattr is larger than 64 KiB'' SQLITE_TOOBIG)
                  (modify (store_xattr inode name val))))
        (andthen (modify (touch_changed w inode))
        (andthen (CommitMetadataChange w inode (if policy = 3 then ''remove xattr'' else ''set xattr''))
        (ret 1)))))))))))))"

section \<open>Access entries\<close>

text \<open>
  \<open>ParseAclJson\<close> takes the members of the JSON array apart with SQLite's \<open>json_each\<close> and
  \<open>json_extract\<close>; \<open>rows\<close> is what that query returns (principal, effect, permissions, inherit), none
  when the argument is no JSON array. The checks follow.
\<close>

record AclEntry =
  e_principal :: string
  e_effect :: string
  e_permissions :: string
  e_inherit :: int

definition acl_effect_error :: vex_error where
  "acl_effect_error = SqlError ''acl effect must be allow or deny'' SQLITE_MISMATCH"

fun parse_acl_rows :: "AclEntry list \<Rightarrow> AclEntry list \<Rightarrow> AclEntry list result" where
  "parse_acl_rows [] acc = Inr acc"
| "parse_acl_rows (e # rows) acc =
     (if e_principal e = [] \<or> 255 < length (e_principal e)
      then Inl (SqlError ''acl principal must be 1..255 bytes'' SQLITE_RANGE)
      else if e_effect e \<noteq> ''allow'' \<and> e_effect e \<noteq> ''deny'' then Inl acl_effect_error
      else if e_permissions e = [] \<or> 1024 < length (e_permissions e)
      then Inl (SqlError ''acl permissions must be 1..1024 bytes'' SQLITE_RANGE)
      else if e_inherit e < 0 \<or> 255 < e_inherit e
      then Inl (SqlError ''acl inherit flags must be 0..255'' SQLITE_RANGE)
      else if 1024 < length (acc @ [e]) then Inl (SqlError ''acl has too many entries'' SQLITE_TOOBIG)
      else parse_acl_rows rows (acc @ [e]))"

definition ParseAclJson :: "sql_value \<Rightarrow> AclEntry list option \<Rightarrow> AclEntry list result" where
  "ParseAclJson v rows =
     res_bind (RequiredText v ''acl'') (\<lambda>_.
       case rows of
         None \<Rightarrow> Inl (SqlError ''acl must be a JSON array'' SQLITE_MISMATCH)
       | Some rs \<Rightarrow> parse_acl_rows rs [])"

definition delete_acl :: "(acl_row \<Rightarrow> bool) \<Rightarrow> db \<Rightarrow> db" where
  "delete_acl p s =
     s\<lparr>acl_entries := filter (\<lambda>a. \<not> p a) (acl_entries s),
       dirty_acl := fold (\<lambda>a. add_key (acl_key a)) (filter p (acl_entries s)) (dirty_acl s)\<rparr>"

definition AclSetFunction :: "sql_value \<Rightarrow> sql_value \<Rightarrow> sql_value \<Rightarrow> AclEntry list option \<Rightarrow> nat vexfs" where
  "AclSetFunction v0 v1 v2 rows =
     bind (workspace_arg v0) (\<lambda>w.
     bind (inode_arg v1 ''inode'') (\<lambda>inode.
     bind (query (\<lambda>s. RequireWorkspaceInode s w inode)) (\<lambda>_.
     bind (query (\<lambda>_. ParseAclJson v2 rows)) (\<lambda>es.
     savepoint
       (andthen (modify (delete_acl (\<lambda>a. a_workspace a = ws_id w \<and> a_inode a = inode)))
       (andthen (for_each es (\<lambda>e. insert_acl
          \<lparr>a_workspace = ws_id w, a_inode = inode, a_principal = e_principal e, a_effect = e_effect e,
           a_permissions = e_permissions e, a_inherit = nat (e_inherit e)\<rparr>))
       (andthen (modify (touch_changed w inode))
       (andthen (CommitMetadataChange w inode ''set acl'')
       (ret (length es))))))))))"

definition delete_acl_commit :: "Workspace \<Rightarrow> nat \<Rightarrow> (acl_row \<Rightarrow> bool) \<Rightarrow> string \<Rightarrow> nat vexfs" where
  "delete_acl_commit w inode p message = savepoint
     (bind (gets (\<lambda>s. length (filter p (acl_entries s)))) (\<lambda>removed.
      andthen (modify (delete_acl p))
      (andthen (op_when (0 < removed) (CommitMetadataChange w inode message))
      (ret removed))))"

definition AclDeleteFunction :: "sql_value \<Rightarrow> sql_value \<Rightarrow> nat vexfs" where
  "AclDeleteFunction v0 v1 =
     bind (workspace_arg v0) (\<lambda>w.
     bind (inode_arg v1 ''inode'') (\<lambda>inode.
     bind (query (\<lambda>s. RequireWorkspaceInode s w inode)) (\<lambda>_.
     delete_acl_commit w inode (\<lambda>a. a_workspace a = ws_id w \<and> a_inode a = inode) ''delete acl'')))"

definition upsert_acl :: "acl_row \<Rightarrow> db \<Rightarrow> db" where
  "upsert_acl a s =
     s\<lparr>acl_entries := (if acl_key a \<in> acl_key ` set (acl_entries s)
          then map (\<lambda>b. if acl_key b = acl_key a then b\<lparr>a_permissions := a_permissions a\<rparr> else b) (acl_entries s)
          else acl_entries s @ [a]),
       dirty_acl := add_key (acl_key a) (dirty_acl s)\<rparr>"

text \<open>The fifth argument is absent or \<open>SqlNull\<close> when the effect is left to the default.\<close>

definition AclGrantFunction ::
  "sql_value \<Rightarrow> sql_value \<Rightarrow> sql_value \<Rightarrow> sql_value \<Rightarrow> sql_value option \<Rightarrow> nat vexfs" where
  "AclGrantFunction v0 v1 v2 v3 v4 =
     bind (workspace_arg v0) (\<lambda>w.
     bind (inode_arg v1 ''inode'') (\<lambda>inode.
     bind (text_arg v2 ''principal'') (\<lambda>principal.
     bind (text_arg v3 ''permissions'') (\<lambda>permissions.
     require (\<not> (principal = [] \<or> 255 < length principal \<or> permissions = [] \<or> 1024 < length permissions))
       (SqlError ''invalid ACL principal or permissions'' SQLITE_RANGE)
     (bind (query (\<lambda>s. RequireWorkspaceInode s w inode)) (\<lambda>_.
      bind (if v4 = None \<or> v4 = Some SqlNull then ret ''allow'' else text_arg (the v4) ''effect'') (\<lambda>effect.
      require (effect = ''allow'' \<or> effect = ''deny'') acl_effect_error
      (savepoint
        (andthen (modify (upsert_acl \<lparr>a_workspace = ws_id w, a_inode = inode, a_principal = principal,
            a_effect = effect, a_permissions = permissions, a_inherit = 0\<rparr>))
        (andthen (CommitMetadataChange w inode ''grant acl'') (ret 1)))))))))))"

definition AclRevokeFunction ::
  "sql_value \<Rightarrow> sql_value \<Rightarrow> sql_value \<Rightarrow> sql_value option \<Rightarrow> nat vexfs" where
  "AclRevokeFunction v0 v1 v2 v3 =
     bind (workspace_arg v0) (\<lambda>w.
     bind (inode_arg v1 ''inode'') (\<lambda>inode.
     bind (text_arg v2 ''principal'') (\<lambda>principal.
     bind (query (\<lambda>s. RequireWorkspaceInode s w inode)) (\<lambda>_.
     bind (if v3 = None \<or> v3 = Some SqlNull then ret [] else text_arg (the v3) ''effect'') (\<lambda>effect.
     require (effect = [] \<or> effect = ''allow'' \<or> effect = ''deny'') acl_effect_error
       (delete_acl_commit w inode (\<lambda>a. a_workspace a = ws_id w \<and> a_inode a = inode \<and>
          a_principal a = principal \<and> (effect = [] \<or> a_effect a = effect)) ''revoke acl''))))))"

section \<open>Removing and renaming\<close>

definition DirectoryIsEmpty :: "db \<Rightarrow> nat \<Rightarrow> nat \<Rightarrow> bool" where
  "DirectoryIsEmpty s ws inode \<longleftrightarrow>
     \<not> (\<exists>d \<in> set (dentries s). d_workspace d = ws \<and> d_parent d = inode \<and> live_inode s (d_inode d) \<noteq> None)"

text \<open>
  The recursive query of \<open>TombstoneTree\<close>: the rows level by level. The statement uses the rows as a
  set, so as many levels as there are entries reach all of it.
\<close>

fun tree_levels :: "nat \<Rightarrow> dentry_row list \<Rightarrow> nat \<Rightarrow> nat list \<Rightarrow> nat list" where
  "tree_levels 0 ds ws level = level"
| "tree_levels (Suc n) ds ws level =
     level @ tree_levels n ds ws (map d_inode (filter (\<lambda>d. d_workspace d = ws \<and> d_parent d \<in> set level) ds))"

definition tree_ids :: "db \<Rightarrow> nat \<Rightarrow> nat \<Rightarrow> nat list" where
  "tree_ids s ws inode = tree_levels (length (dentries s)) (dentries s) ws [inode]"

definition TombstoneTree :: "nat \<Rightarrow> nat \<Rightarrow> db \<Rightarrow> db" where
  "TombstoneTree ws inode s = RemoveDeletedFilesFromGrepIndex ws
     (update_inodes (\<lambda>i. i_workspace i = ws \<and> i_id i \<in> set (tree_ids s ws inode))
        (\<lambda>i. i\<lparr>i_deleted := Some (now_s_ms s)\<rparr>) s)"

definition TombstoneIfUnreferenced :: "nat \<Rightarrow> nat \<Rightarrow> db \<Rightarrow> db" where
  "TombstoneIfUnreferenced ws inode s = RemoveDeletedFilesFromGrepIndex ws
     (update_inodes (\<lambda>i. i_workspace i = ws \<and> i_id i = inode \<and> i_kind i \<noteq> KDirectory \<and>
           \<not> (\<exists>d \<in> set (dentries s). d_workspace d = ws \<and> d_inode d = inode))
        (\<lambda>i. i\<lparr>i_deleted := Some (now_s_ms s)\<rparr>) s)"

definition detach :: "nat \<Rightarrow> nat \<Rightarrow> string \<Rightarrow> inode_row \<Rightarrow> db \<Rightarrow> db" where
  "detach ws parent name node s =
     (let s' = delete_dentries (\<lambda>d. dentry_key d = (ws, parent, name)) s
      in if i_kind node = KDirectory then TombstoneTree ws (i_id node) s'
         else TombstoneIfUnreferenced ws (i_id node) s')"

text \<open>What happens to the destination of a rename that is there already.\<close>

definition replace_destination :: "nat \<Rightarrow> inode_row \<Rightarrow> inode_row \<Rightarrow> string \<Rightarrow> bool \<Rightarrow> unit vexfs" where
  "replace_destination ws source parent name replace =
     bind (gets (\<lambda>s. FindChild s ws (i_id parent) name)) (\<lambda>found.
     case found of
       None \<Rightarrow> ret ()
     | Some existing \<Rightarrow>
         require replace destination_exists
         (require (i_kind source = i_kind existing)
            (SqlError ''source and destination types differ'' SQLITE_MISMATCH)
         (bind (gets (\<lambda>s. i_kind existing = KDirectory \<and> \<not> DirectoryIsEmpty s ws (i_id existing))) (\<lambda>full.
          require (\<not> full) (SqlError ''destination directory is not empty'' SQLITE_CONSTRAINT_NOT_EMPTY)
            (modify (detach ws (i_id parent) name existing))))))"

definition RenameFunction :: "sql_value \<Rightarrow> sql_value \<Rightarrow> sql_value \<Rightarrow> bool \<Rightarrow> nat vexfs" where
  "RenameFunction v0 v1 v2 replace =
     bind (workspace_arg v0) (\<lambda>w.
     bind (parts_arg v1 ''source'') (\<lambda>source_parts.
     bind (parts_arg v2 ''destination'') (\<lambda>destination_parts.
     require (\<not> (source_parts = [] \<or> destination_parts = [])) (SqlError ''root cannot be moved'' SQLITE_MISMATCH)
     (if source_parts = destination_parts then ret 1
      else require (\<not> strict_prefix source_parts destination_parts)
             (SqlError ''directory cannot be moved into itself'' SQLITE_MISMATCH)
      (bind (query (\<lambda>s. ResolveParent s w source_parts)) (\<lambda>(source_parent, source_name).
       bind (query (\<lambda>s. case FindChild s (ws_id w) (i_id source_parent) source_name of
                          None \<Rightarrow> Inl (SqlError ''source path not found'' SQLITE_NOTFOUND)
                        | Some n \<Rightarrow> Inr n)) (\<lambda>source.
       bind (query (\<lambda>s. ResolveParent s w destination_parts)) (\<lambda>(destination_parent, destination_name).
       andthen (replace_destination (ws_id w) source destination_parent destination_name replace)
       (andthen (move_dentry (ws_id w) (i_id source_parent) source_name (i_id destination_parent) destination_name)
       (andthen (modify (TouchDirectory (ws_id w) (i_id source_parent)))
       (andthen (op_when (i_id destination_parent \<noteq> i_id source_parent)
                  (modify (TouchDirectory (ws_id w) (i_id destination_parent))))
       (bind (CreateCommit w (if replace then ''rename replace'' else ''move'')) (\<lambda>_.
       ret 1)))))))))))))"

definition RemoveFunction :: "sql_value \<Rightarrow> sql_value \<Rightarrow> bool \<Rightarrow> nat vexfs" where
  "RemoveFunction v0 v1 recursive =
     bind (workspace_arg v0) (\<lambda>w.
     bind (parts_arg v1 ''path'') (\<lambda>parts.
     require (parts \<noteq> []) (SqlError ''workspace root cannot be removed'' SQLITE_MISMATCH)
     (bind (query (\<lambda>s. ResolveParent s w parts)) (\<lambda>(parent, name).
      bind (query (\<lambda>s. case FindChild s (ws_id w) (i_id parent) name of
                         None \<Rightarrow> Inl (SqlError ''path not found'' SQLITE_NOTFOUND)
                       | Some n \<Rightarrow> Inr n)) (\<lambda>node.
      bind (gets (\<lambda>s. i_kind node = KDirectory \<and> \<not> recursive \<and> \<not> DirectoryIsEmpty s (ws_id w) (i_id node))) (\<lambda>full.
      require (\<not> full) (SqlError ''directory is not empty'' SQLITE_CONSTRAINT_NOT_EMPTY)
      (andthen (modify (detach (ws_id w) (i_id parent) name node))
      (andthen (modify (TouchDirectory (ws_id w) (i_id parent)))
      (bind (CreateCommit w ''remove'') (\<lambda>_. ret 1))))))))))"

end
