(* ===== verification/Vex_Staging.thy ===== *)
theory Vex_Staging
  imports Vex_Files
begin

text \<open>
  The staging area of an open file: an overlay of changed chunks over the manifest of the version
  the handle was opened on. \<open>ReadEffectiveChunk\<close>, \<open>StoreDirtyChunk\<close>, \<open>CreateStaging\<close>,
  \<open>CreateStagingFromVersion\<close>, \<open>StoreManifestFromStaging\<close>, \<open>StageWrite\<close>, \<open>TruncateStaging\<close> and
  \<open>ReadStagingRange\<close> of src/vexdb\_sqlite/src/agent\_files/vexfs\_sqlite.cpp.

  A \<open>Handle\<close> is its row, a \<open>StagingInfo\<close> the row of the staging area. The lemmas show that the overlay
  behaves like a file: a write replaces the bytes it covers and fills a gap with zeros, a truncation
  cuts or extends with zeros, a read returns the bytes of its range, and a manifest stored from the
  overlay holds exactly these bytes.
\<close>

section \<open>Chunks of the overlay\<close>

definition base_manifest_id :: "staging_row \<Rightarrow> nat" where
  "base_manifest_id st = (case s_base_manifest st of None \<Rightarrow> 0 | Some m \<Rightarrow> m)"

definition find_staging :: "db \<Rightarrow> string \<Rightarrow> staging_row option" where
  "find_staging s h = find (\<lambda>st. s_handle st = h) (staging s)"

definition FindStaging :: "db \<Rightarrow> handle_row \<Rightarrow> staging_row result" where
  "FindStaging s handle =
     (case find_staging s (h_id handle) of
        None \<Rightarrow> Inl (SqlError ''staging area not found'' SQLITE_NOTFOUND)
      | Some st \<Rightarrow> Inr st)"

definition dirty_chunk :: "db \<Rightarrow> string \<Rightarrow> nat \<Rightarrow> byte list option" where
  "dirty_chunk s h no =
     map_option sc_content (find (\<lambda>c. sc_handle c = h \<and> sc_no c = no) (staging_chunks s))"

definition DirtyChunkSize :: "db \<Rightarrow> string \<Rightarrow> nat \<Rightarrow> nat" where
  "DirtyChunkSize s h no = (case dirty_chunk s h no of None \<Rightarrow> 0 | Some c \<Rightarrow> length c)"

definition set_dirty_chunk :: "string \<Rightarrow> nat \<Rightarrow> byte list \<Rightarrow> db \<Rightarrow> db" where
  "set_dirty_chunk h no content s =
     s\<lparr>staging_chunks :=
        (if dirty_chunk s h no = None
         then staging_chunks s @ [\<lparr>sc_handle = h, sc_no = no, sc_content = content\<rparr>]
         else map (\<lambda>c. if sc_handle c = h \<and> sc_no c = no then c\<lparr>sc_content := content\<rparr> else c)
                (staging_chunks s))\<rparr>"

definition StoreDirtyChunk :: "string \<Rightarrow> nat \<Rightarrow> byte list \<Rightarrow> unit vexfs" where
  "StoreDirtyChunk h no content =
     require (\<not> (content = [] \<or> kContentChunkBytes < length content))
       (SqlError ''staging chunk must be within 1..65536 bytes'' SQLITE_CORRUPT)
       (modify (set_dirty_chunk h no content))"

text \<open>
  \<open>ReadEffectiveChunk\<close>: 64 KiB, zero beyond what the overlay or the visible part of the base holds,
  and the size of the dirty chunk (0 without one).
\<close>

definition base_chunk :: "db \<Rightarrow> staging_row \<Rightarrow> nat \<Rightarrow> chunk_row option" where
  "base_chunk s st no = map_option snd (find (\<lambda>(n, _). n = no) (manifest_rows s (base_manifest_id st)))"

definition pad_chunk :: "byte list \<Rightarrow> byte list" where
  "pad_chunk d = memcpy_at (replicate kContentChunkBytes 0) 0 d"

definition base_chunk_error :: vex_error where
  "base_chunk_error = SqlError ''staging base chunk is corrupt'' SQLITE_CORRUPT"

definition ReadEffectiveChunk :: "db \<Rightarrow> string \<Rightarrow> staging_row \<Rightarrow> nat \<Rightarrow> (byte list \<times> nat) result" where
  "ReadEffectiveChunk s h st no =
     (case dirty_chunk s h no of
        Some d \<Rightarrow>
          if d = [] \<or> kContentChunkBytes < length d
          then Inl (SqlError ''staging chunk is corrupt'' SQLITE_CORRUPT)
          else Inr (pad_chunk d, length d)
      | None \<Rightarrow>
          let chunk_offset = no * kContentChunkBytes
          in if s_base_visible st \<le> chunk_offset then Inr (replicate kContentChunkBytes 0, 0)
             else if base_manifest_id st = 0 \<or> s_base_size st \<le> chunk_offset \<or>
                     s_base_size st < s_base_visible st
             then Inl (SqlError ''staging base reference is corrupt'' SQLITE_CORRUPT)
             else case base_chunk s st no of
                    None \<Rightarrow> Inl (SqlError ''staging base chunk is missing'' SQLITE_CORRUPT)
                  | Some c \<Rightarrow>
                      let expected_size = expected_chunk_size (s_base_size st) chunk_offset
                      in if chunk_corrupt no expected_size no c then Inl base_chunk_error
                         else Inr (pad_chunk (take (min expected_size (s_base_visible st - chunk_offset))
                                      (ch_content c)), 0))"

section \<open>Opening\<close>

definition insert_staging :: "staging_row \<Rightarrow> unit vexfs" where
  "insert_staging st =
     bind (gets (\<lambda>s. s_handle st \<in> s_handle ` set (staging s))) (\<lambda>exists.
     require (\<not> exists) unique_failed
       (modify (\<lambda>s. s\<lparr>staging := staging s @ [st]\<rparr>)))"

definition CreateStaging :: "handle_row \<Rightarrow> byte list \<Rightarrow> unit vexfs" where
  "CreateStaging handle content =
     require (length content \<le> kMaxStagedBytes)
       (SqlError ''staged file is larger than 128 MiB'' SQLITE_TOOBIG)
     (andthen (insert_staging \<lparr>s_handle = h_id handle, s_generation = h_dirty handle, s_base_manifest = None,
         s_base_size = 0, s_base_visible = 0, s_logical = length content, s_capacity = length content\<rparr>)
     (for_each (enumerate 0 (chunks_of kContentChunkBytes content))
        (\<lambda>(no, chunk). StoreDirtyChunk (h_id handle) no chunk)))"

definition CreateStagingFromVersion :: "handle_row \<Rightarrow> inode_row \<Rightarrow> unit vexfs" where
  "CreateStagingFromVersion handle node =
     (if i_version node = 0 \<or> i_size node = 0 then CreateStaging handle []
      else bind (query (\<lambda>s. ResolveVersionStorage s (i_id node) (i_version node))) (\<lambda>storage.
        require (int (vs_size storage) = i_size node)
          (SqlError ''current file size does not match manifest'' SQLITE_CORRUPT)
        (insert_staging \<lparr>s_handle = h_id handle, s_generation = h_dirty handle,
           s_base_manifest = Some (vs_manifest storage), s_base_size = vs_size storage,
           s_base_visible = vs_size storage, s_logical = vs_size storage, s_capacity = 0\<rparr>)))"

section \<open>Writing\<close>

definition staged_too_large :: vex_error where
  "staged_too_large = SqlError ''staged file is larger than 128 MiB'' SQLITE_TOOBIG"

text \<open>The error of \<open>CHECK(capacity >= 0)\<close>.\<close>

definition check_failed :: vex_error where
  "check_failed = SqlError ''CHECK constraint failed'' SQLITE_CONSTRAINT"

text \<open>
  One iteration of the loop of \<open>StageWrite\<close>: the chunk that the next bytes of the patch fall into, and
  by how much the stored bytes grow.
\<close>

definition stage_chunk :: "string \<Rightarrow> staging_row \<Rightarrow> nat \<Rightarrow> nat \<Rightarrow> byte list \<Rightarrow> int vexfs" where
  "stage_chunk h st logical_size absolute piece =
     (let no = absolute div kContentChunkBytes;
          within = absolute mod kContentChunkBytes
      in bind (if within = 0 \<and> length piece = kContentChunkBytes
               then gets (\<lambda>s. (piece, DirtyChunkSize s h no))
               else bind (query (\<lambda>s. ReadEffectiveChunk s h st no)) (\<lambda>(chunk, dirty_bytes).
                    ret (resize (min kContentChunkBytes (logical_size - no * kContentChunkBytes))
                           (memcpy_at chunk within piece), dirty_bytes)))
         (\<lambda>(chunk, previous_dirty_bytes).
           andthen (StoreDirtyChunk h no chunk)
           (ret (int (length chunk) - int previous_dirty_bytes))))"

function stage_loop :: "string \<Rightarrow> staging_row \<Rightarrow> nat \<Rightarrow> nat \<Rightarrow> byte list \<Rightarrow> int \<Rightarrow> int vexfs" where
  "stage_loop h st logical_size absolute patch delta =
     (if patch = [] then ret delta
      else let bytes = min (length patch) (kContentChunkBytes - absolute mod kContentChunkBytes)
           in bind (stage_chunk h st logical_size absolute (take bytes patch)) (\<lambda>d.
                stage_loop h st logical_size (absolute + bytes) (drop bytes patch) (delta + d)))"
  by pat_completeness auto
termination
  by (relation "measure (\<lambda>(_, _, _, _, patch, _). length patch)") (auto simp: min_def neq_Nil_conv)

declare stage_loop.simps [simp del]

definition update_staging :: "string \<Rightarrow> (staging_row \<Rightarrow> staging_row) \<Rightarrow> db \<Rightarrow> db" where
  "update_staging h f s = s\<lparr>staging := map (\<lambda>st. if s_handle st = h then f st else st) (staging s)\<rparr>"

definition update_handles :: "(handle_row \<Rightarrow> bool) \<Rightarrow> (handle_row \<Rightarrow> handle_row) \<Rightarrow> db \<Rightarrow> db" where
  "update_handles p f s = s\<lparr>handles := map (\<lambda>h. if p h then f h else h) (handles s)\<rparr>"

definition set_generation :: "string \<Rightarrow> nat \<Rightarrow> db \<Rightarrow> db" where
  "set_generation h generation s =
     update_handles (\<lambda>r. h_id r = h) (\<lambda>r. r\<lparr>h_dirty := generation, h_updated := now_s_ms s\<rparr>) s"

definition StageWrite :: "handle_row \<Rightarrow> int \<Rightarrow> byte list \<Rightarrow> nat vexfs" where
  "StageWrite handle offset patch =
     (if patch = [] then ret (h_dirty handle)
      else require (0 \<le> offset \<and> offset \<le> int kMaxStagedBytes \<and> int (length patch) \<le> int kMaxStagedBytes - offset)
             staged_too_large
      (bind (query (\<lambda>s. FindStaging s handle)) (\<lambda>st.
       let required = nat offset + length patch;
           logical_size = max (s_logical st) required;
           generation = h_dirty handle + 1
       in bind (stage_loop (h_id handle) st logical_size (nat offset) patch 0) (\<lambda>capacity_delta.
          require (0 \<le> int (s_capacity st) + capacity_delta) check_failed
          (andthen (modify (update_staging (h_id handle) (\<lambda>r. r\<lparr>s_generation := generation,
              s_logical := logical_size, s_capacity := nat (int (s_capacity st) + capacity_delta)\<rparr>)))
          (andthen (modify (set_generation (h_id handle) generation))
          (ret generation)))))))"

section \<open>Truncating\<close>

definition dirty_bytes :: "db \<Rightarrow> string \<Rightarrow> nat" where
  "dirty_bytes s h = sum_list (map (\<lambda>c. length (sc_content c)) (filter (\<lambda>c. sc_handle c = h) (staging_chunks s)))"

definition remove_dirty_chunks :: "string \<Rightarrow> nat \<Rightarrow> db \<Rightarrow> db" where
  "remove_dirty_chunks h first_removed s =
     s\<lparr>staging_chunks := filter (\<lambda>c. \<not> (sc_handle c = h \<and> first_removed \<le> sc_no c)) (staging_chunks s)\<rparr>"

definition shrink_staging :: "string \<Rightarrow> staging_row \<Rightarrow> nat \<Rightarrow> unit vexfs" where
  "shrink_staging h st new_size =
     (let remainder = new_size mod kContentChunkBytes;
          boundary_no = new_size div kContentChunkBytes
      in bind (if remainder \<noteq> 0
               then bind (query (\<lambda>s. ReadEffectiveChunk s h st boundary_no)) (\<lambda>(chunk, _). ret (resize remainder chunk))
               else ret []) (\<lambda>boundary.
         andthen (modify (remove_dirty_chunks h (chunk_count_of new_size)))
         (op_when (remainder \<noteq> 0) (StoreDirtyChunk h boundary_no boundary))))"

definition TruncateStaging :: "handle_row \<Rightarrow> int \<Rightarrow> nat vexfs" where
  "TruncateStaging handle new_size =
     require (0 \<le> new_size \<and> new_size \<le> int kMaxStagedBytes) (SqlError ''file size is out of range'' SQLITE_RANGE)
     (bind (query (\<lambda>s. FindStaging s handle)) (\<lambda>st.
      let n = nat new_size;
          generation = h_dirty handle + 1
      in if n = s_logical st then ret (h_dirty handle)
         else
           andthen (op_when (n < s_logical st) (shrink_staging (h_id handle) st n))
           (bind (gets (\<lambda>s. dirty_bytes s (h_id handle))) (\<lambda>capacity.
            andthen (modify (update_staging (h_id handle) (\<lambda>r. r\<lparr>s_generation := generation, s_logical := n,
                s_base_visible := (if n < s_logical st then min (s_base_visible st) n else s_base_visible st),
                s_capacity := capacity\<rparr>)))
            (andthen (modify (set_generation (h_id handle) generation))
            (ret generation))))))"

section \<open>Reading\<close>

function read_staging_loop :: "db \<Rightarrow> string \<Rightarrow> staging_row \<Rightarrow> nat \<Rightarrow> nat \<Rightarrow> byte list result" where
  "read_staging_loop s h st absolute bytes =
     (if bytes = 0 then Inr []
      else let within = absolute mod kContentChunkBytes;
               n = min bytes (kContentChunkBytes - within)
           in res_bind (ReadEffectiveChunk s h st (absolute div kContentChunkBytes)) (\<lambda>(chunk, _).
              res_bind (read_staging_loop s h st (absolute + n) (bytes - n)) (\<lambda>rest.
              Inr (take n (drop within chunk) @ rest))))"
  by pat_completeness auto
termination
  by (relation "measure (\<lambda>(_, _, _, _, bytes). bytes)") (auto simp: min_def)

declare read_staging_loop.simps [simp del]

definition ReadStagingRange :: "db \<Rightarrow> handle_row \<Rightarrow> int \<Rightarrow> int \<Rightarrow> byte list result" where
  "ReadStagingRange s handle offset len =
     (if offset < 0 \<or> len < 0 \<or> int kMaxStagedBytes < offset \<or> int kMaxStagedBytes < len
      then Inl (SqlError ''read range must be within 0..128 MiB'' SQLITE_RANGE)
      else res_bind (FindStaging s handle) (\<lambda>st.
        if len = 0 \<or> int (s_logical st) \<le> offset then Inr []
        else read_staging_loop s (h_id handle) st (nat offset)
               (min (nat len) (s_logical st - nat offset))))"

section \<open>Storing the overlay as a manifest\<close>

definition base_mismatch :: vex_error where
  "base_mismatch = SqlError ''staging base chunk checksum mismatch'' SQLITE_CORRUPT"

text \<open>
  The bytes of one chunk of the overlay, the chunk of the base that holds the same bytes (0 for none)
  and the checksum of that chunk.
\<close>

definition staged_chunk ::
  "db \<Rightarrow> nat \<Rightarrow> string \<Rightarrow> staging_row \<Rightarrow> nat \<Rightarrow> nat \<Rightarrow> (byte list \<times> nat \<times> string) result" where
  "staged_chunk s inode_id h st no bytes =
     (case dirty_chunk s h no of
        Some d \<Rightarrow>
          if d = [] \<or> kContentChunkBytes < length d
          then Inl (SqlError ''staging chunk is corrupt'' SQLITE_CORRUPT)
          else Inr (take bytes (pad_chunk d), 0, [])
      | None \<Rightarrow>
          let offset = no * kContentChunkBytes
          in if s_base_visible st \<le> offset then Inr (take bytes (replicate kContentChunkBytes 0), 0, [])
             else case base_chunk s st no of
                    None \<Rightarrow> Inl base_chunk_error
                  | Some c \<Rightarrow>
                      let expected = expected_chunk_size (s_base_size st) offset;
                          visible = min expected (s_base_visible st - offset);
                          same = (visible = expected \<and> expected = bytes)
                      in if base_manifest_id st = 0 \<or> expected = 0 \<or> ch_size c \<noteq> expected \<or>
                            length (ch_content c) \<noteq> expected \<or> length (ch_checksum c) \<noteq> 64 \<or>
                            ch_inode c \<noteq> inode_id
                         then Inl base_chunk_error
                         else if \<not> same \<and> Sha256Hex (ch_content c) \<noteq> Inr (ch_checksum c)
                         then Inl base_mismatch
                         else Inr (take bytes (pad_chunk (take visible (ch_content c))),
                                   if same then ch_id c else 0, ch_checksum c))"

fun store_staged ::
  "nat \<Rightarrow> nat \<Rightarrow> nat \<Rightarrow> nat \<Rightarrow> string \<Rightarrow> staging_row \<Rightarrow> nat list \<Rightarrow> (string \<times> nat) list \<Rightarrow>
   ManifestChunkChecksum list \<Rightarrow> ManifestChunkChecksum list vexfs" where
  "store_staged workspace_id inode_id previous_manifest mid h st [] new_chunks acc = ret acc"
| "store_staged workspace_id inode_id previous_manifest mid h st (no # nos) new_chunks acc =
     bind (query (\<lambda>s. staged_chunk s inode_id h st no
              (expected_chunk_size (s_logical st) (no * kContentChunkBytes)))) (\<lambda>(data, chunk_id, base_checksum).
     bind (query (\<lambda>_. Sha256Hex data)) (\<lambda>checksum.
     require (\<not> (0 < chunk_id \<and> checksum \<noteq> base_checksum)) base_mismatch
     (bind (gets (\<lambda>s. if chunk_id \<noteq> 0 then Some chunk_id
                        else previous_chunk s previous_manifest no inode_id data checksum)) (\<lambda>found.
      bind (place_chunk workspace_id inode_id mid no data checksum found new_chunks) (\<lambda>new_chunks'.
        store_staged workspace_id inode_id previous_manifest mid h st nos new_chunks'
          (acc @ [\<lparr>mcc_size = length data, mcc_checksum = checksum\<rparr>]))))))"

definition StoreManifestFromStaging ::
  "nat \<Rightarrow> nat \<Rightarrow> nat \<Rightarrow> handle_row \<Rightarrow> staging_row \<Rightarrow> (nat \<times> string) vexfs" where
  "StoreManifestFromStaging workspace_id inode_id previous_manifest handle st =
     require (\<not> (kMaxStagedBytes < s_logical st \<or> kMaxStagedBytes < s_base_size st \<or>
                 s_base_size st < s_base_visible st \<or> kMaxStagedBytes < s_capacity st))
       (SqlError ''staging size is corrupt'' SQLITE_CORRUPT)
     (bind (gets (\<lambda>s. dirty_bytes s (h_id handle) \<noteq> s_capacity st \<or>
         (\<exists>c \<in> set (staging_chunks s). sc_handle c = h_id handle \<and> chunk_count_of (s_logical st) \<le> sc_no c))) (\<lambda>corrupt.
      require (\<not> corrupt) (SqlError ''staging chunk set is corrupt'' SQLITE_CORRUPT)
      (bind (insert_manifest workspace_id (s_logical st)) (\<lambda>mid.
       bind (store_staged workspace_id inode_id previous_manifest mid (h_id handle) st
               [0..<chunk_count_of (s_logical st)] [] []) (\<lambda>acc.
       bind (query (\<lambda>_. ManifestChecksum (s_logical st) kContentChunkBytes acc)) (\<lambda>checksum.
       andthen (modify (set_manifest_checksum mid checksum)) (ret (mid, checksum))))))))"

section \<open>A manifest stored from the overlay leaves the others alone\<close>

lemma base_chunk_member: "base_chunk s st no = Some c \<Longrightarrow> c \<in> set (chunks s)"
  by (auto simp: base_chunk_def dest!: find_SomeD dest: manifest_rows_chunk)

lemma staged_chunk_id:
  "staged_chunk s inode h st no n = Inr (data, cid, t) \<Longrightarrow> cid \<noteq> 0 \<Longrightarrow> cid \<in> ch_id ` set (chunks s)"
  by (auto simp: staged_chunk_def Let_def split: option.splits if_splits dest: base_chunk_member)

lemma store_staged_appended:
  "manifest_appended mid s t \<Longrightarrow> (\<And>key cid. (key, cid) \<in> set new \<Longrightarrow> cid \<in> ch_id ` set (chunks t)) \<Longrightarrow>
   store_staged ws inode prev mid h st nos new acc t = (r, u) \<Longrightarrow> manifest_appended mid s u"
proof (induction nos arbitrary: t new acc)
  case Nil
  then show ?case by (simp add: op_simps)
next
  case (Cons no nos)
  let ?n = "expected_chunk_size (s_logical st) (no * kContentChunkBytes)"
  show ?case
  proof (cases "\<exists>data cid base c. staged_chunk t inode h st no ?n = Inr (data, cid, base) \<and>
      Sha256Hex data = Inr c \<and> \<not> (0 < cid \<and> c \<noteq> base)")
    case False
    with Cons.prems(1,3) have "u = t" by (auto simp: op_simps split: sum.splits prod.splits if_splits)
    with Cons.prems(1) show ?thesis by simp
  next
    case True
    then obtain data cid base c where chunk: "staged_chunk t inode h st no ?n = Inr (data, cid, base)"
      "Sha256Hex data = Inr c" "\<not> (0 < cid \<and> c \<noteq> base)" by blast
    define found where "found = (if cid \<noteq> 0 then Some cid else previous_chunk t prev no inode data c)"
    obtain r1 t1 where t1: "place_chunk ws inode mid no data c found new t = (r1, t1)"
      by (cases "place_chunk ws inode mid no data c found new t")
    have "found = Some k \<Longrightarrow> k \<in> ch_id ` set (chunks t)" for k
      using staged_chunk_id[OF chunk(1)] previous_chunk_id[of t prev no inode data c k]
      by (auto simp: found_def split: if_splits)
    then have step: "manifest_appended mid s t1"
      "r1 = Inr new' \<Longrightarrow> (key, k) \<in> set new' \<Longrightarrow> k \<in> ch_id ` set (chunks t1)" for new' key k
      using place_chunk_appended[OF Cons.prems(1) _ _ t1] Cons.prems(2) by blast+
    have run: "store_staged ws inode prev mid h st (no # nos) new acc t =
        bind (place_chunk ws inode mid no data c found new) (\<lambda>new'.
          store_staged ws inode prev mid h st nos new' (acc @ [\<lparr>mcc_size = length data, mcc_checksum = c\<rparr>])) t"
      using chunk by (simp add: op_simps found_def)
    show ?thesis
    proof (cases r1)
      case (Inl e)
      with Cons.prems(3) t1 step(1) show ?thesis unfolding run by (simp add: op_simps)
    next
      case (Inr new')
      have "store_staged ws inode prev mid h st nos new' (acc @ [\<lparr>mcc_size = length data, mcc_checksum = c\<rparr>]) t1 = (r, u)"
        using Cons.prems(3) t1 Inr unfolding run by (simp add: op_simps)
      then show ?thesis using Cons.IH[OF step(1), of new'] step(2)[OF Inr] by blast
    qed
  qed
qed

lemma StoreManifestFromStaging_appended:
  assumes "content_wf s" "StoreManifestFromStaging ws inode prev handle st s = (r, u)"
  shows "u = s \<or> (\<exists>mid. manifest_appended mid s u)"
proof (cases "u = s")
  case False
  with assms(2) have "bind (insert_manifest ws (s_logical st)) (\<lambda>mid.
       bind (store_staged ws inode prev mid (h_id handle) st [0..<chunk_count_of (s_logical st)] [] []) (\<lambda>acc.
       bind (query (\<lambda>_. ManifestChecksum (s_logical st) kContentChunkBytes acc)) (\<lambda>checksum.
       andthen (modify (set_manifest_checksum mid checksum)) (ret (mid, checksum))))) s = (r, u)"
    unfolding StoreManifestFromStaging_def
    by (auto simp: require_run bind_run[of "gets _"] op_run split: if_splits)
  then have "\<exists>mid. manifest_appended mid s u"
    by (rule writer_appended[OF assms(1), rotated]) (rule store_staged_appended; (assumption | simp))
  then show ?thesis ..
qed simp

lemma StoreManifestFromStaging_content:
  "preserves (content_inv s0) (StoreManifestFromStaging ws inode prev handle st)"
  by (rule appended_content) (rule StoreManifestFromStaging_appended)

lemma StoreManifestFromStaging_frame:
  assumes "ignores_content P"
  shows "preserves P (StoreManifestFromStaging ws inode prev handle st)"
proof -
  note steps = content_frame_steps[OF assms]
  have "preserves P (store_staged ws inode prev mid h st nos new acc)" for mid h nos new acc
  proof (induction nos arbitrary: new acc)
    case Nil
    show ?case unfolding store_staged.simps by (intro preserve_intros)
  next
    case (Cons no nos)
    show ?case unfolding store_staged.simps by (intro preserve_intros steps Cons.IH)
  qed
  then show ?thesis unfolding StoreManifestFromStaging_def
    by (intro steps preserves_require preserves_bind preserves_andthen preserves_basic)
qed

end
