(* ===== verification/Vex_Handles.thy ===== *)
theory Vex_Handles
  imports Vex_Staging
begin

text \<open>
  Handles, request replay, publishing and mount sessions: \<open>RequestFingerprint\<close>, \<open>FindRequest\<close>,
  \<open>MaybePruneRequests\<close>, \<open>StoreVersionFromStaging\<close>, \<open>PublishHandleInTransaction\<close> and the handlers from
  \<open>HandleCreateFunction\<close> to \<open>ReclaimFunction\<close>, with \<open>ReadFunction\<close> and \<open>ReadRangeFunction\<close>, of
  src/vexdb\_sqlite/src/agent\_files/vexfs\_sqlite.cpp.

  The random id of a new handle is an argument. An argument that the code reads with
  \<open>sqlite3_value_int64\<close> is the integer it reads. The lemmas show that a publish succeeds only on the
  version the handle has seen, that it stores the staged bytes as the next version, that a repeated
  request returns the stored result and changes nothing, and that a workspace has one active mount
  session.
\<close>

section \<open>Request fingerprints\<close>

text \<open>
  Four 64-bit words. The code copies the words as they lie in memory; the model takes the little-endian
  order.
\<close>

type_synonym fingerprint = "64 word list"

definition initial_states :: fingerprint where
  "initial_states = [1469598103934665603, 1099511628211, 7809847782465536322, 9650029242287828579]"

definition add_byte :: "byte \<Rightarrow> fingerprint \<Rightarrow> fingerprint" where
  "add_byte b states =
     map (\<lambda>(k, x). (xor x (ucast b + of_nat k * 37)) * (1099511628211 + of_nat k * 2)) (enumerate 0 states)"

definition AddBytes :: "byte list \<Rightarrow> fingerprint \<Rightarrow> fingerprint" where
  "AddBytes data states = fold add_byte data states"

definition big_endian_8 :: "64 word \<Rightarrow> byte list" where
  "big_endian_8 w = map (\<lambda>i. ucast (drop_bit ((7 - i) * 8) w)) [0..<8]"

definition AddLength :: "nat \<Rightarrow> fingerprint \<Rightarrow> fingerprint" where
  "AddLength n = AddBytes (big_endian_8 (of_nat n))"

definition AddBlob :: "byte list \<Rightarrow> fingerprint \<Rightarrow> fingerprint" where
  "AddBlob b states = AddBytes b (AddLength (length b) states)"

definition AddText :: "string \<Rightarrow> fingerprint \<Rightarrow> fingerprint" where
  "AddText t = AddBlob (bytes_of t)"

definition AddInt64 :: "int \<Rightarrow> fingerprint \<Rightarrow> fingerprint" where
  "AddInt64 n states = AddBytes (big_endian_8 (of_int n)) (AddLength 8 states)"

definition RequestFingerprint :: "string \<Rightarrow> fingerprint" where
  "RequestFingerprint operation = AddText operation initial_states"

definition fp_Finish :: "fingerprint \<Rightarrow> byte list" where
  "fp_Finish states = concat (map (\<lambda>w. map (\<lambda>i. ucast (drop_bit (i * 8) w)) [0..<8]) states)"

section \<open>Stored requests\<close>

datatype CachedRequest = CMissing | CInteger int | CText string

definition FindRequest :: "db \<Rightarrow> string \<Rightarrow> string \<Rightarrow> byte list \<Rightarrow> CachedRequest result" where
  "FindRequest s request_id operation fp =
     (if request_id = [] then Inr CMissing
      else case find (\<lambda>r. r_id r = request_id) (requests s) of
             None \<Rightarrow> Inr CMissing
           | Some r \<Rightarrow>
               if r_operation r \<noteq> operation
               then Inl (SqlError ''request_id was already used by another operation'' SQLITE_CONSTRAINT)
               else if r_fingerprint r \<noteq> fp
               then Inl (SqlError ''request_id was reused with different arguments'' SQLITE_CONSTRAINT)
               else (case r_text r of
                       Some t \<Rightarrow> Inr (CText t)
                     | None \<Rightarrow> Inr (CInteger (case r_integer r of None \<Rightarrow> 0 | Some n \<Rightarrow> n))))"

definition MaybePruneRequests :: "nat \<Rightarrow> db \<Rightarrow> db" where
  "MaybePruneRequests newest_rowid s =
     (if newest_rowid \<le> kRequestRetentionRows \<or> newest_rowid mod kRequestPruneInterval \<noteq> 0 then s
      else s\<lparr>requests := filter (\<lambda>r. \<not> r_rowid r \<le> newest_rowid - kRequestRetentionRows) (requests s)\<rparr>)"

definition store_request :: "string \<Rightarrow> string \<Rightarrow> byte list \<Rightarrow> int option \<Rightarrow> string option \<Rightarrow> unit vexfs" where
  "store_request request_id operation fp n t =
     (if request_id = [] then ret ()
      else bind (gets (\<lambda>s. request_id \<in> r_id ` set (requests s))) (\<lambda>exists.
        require (\<not> exists) unique_failed
        (bind (gets (\<lambda>s. next_rowid (map r_rowid (requests s)))) (\<lambda>rowid.
         andthen (modify (\<lambda>s. s\<lparr>requests := requests s @
            [\<lparr>r_rowid = rowid, r_id = request_id, r_operation = operation, r_fingerprint = fp,
              r_integer = n, r_text = t\<rparr>]\<rparr>))
         (modify (MaybePruneRequests rowid))))))"

definition StoreRequestInteger :: "string \<Rightarrow> string \<Rightarrow> byte list \<Rightarrow> int \<Rightarrow> unit vexfs" where
  "StoreRequestInteger request_id operation fp n = store_request request_id operation fp (Some n) None"

definition StoreRequestText :: "string \<Rightarrow> string \<Rightarrow> byte list \<Rightarrow> string \<Rightarrow> unit vexfs" where
  "StoreRequestText request_id operation fp t = store_request request_id operation fp None (Some t)"

section \<open>Publishing\<close>

definition FindHandle :: "db \<Rightarrow> string \<Rightarrow> handle_row result" where
  "FindHandle s h =
     (case find (\<lambda>r. h_id r = h) (handles s) of
        None \<Rightarrow> Inl (SqlError ''handle not found'' SQLITE_NOTFOUND)
      | Some r \<Rightarrow> Inr r)"

definition rebase_staging :: "string \<Rightarrow> nat \<Rightarrow> db \<Rightarrow> db" where
  "rebase_staging h manifest_id s =
     remove_dirty_chunks h 0 (update_staging h (\<lambda>r. r\<lparr>s_base_manifest := Some manifest_id,
       s_base_size := s_logical r, s_base_visible := s_logical r, s_capacity := 0\<rparr>) s)"

definition StoreVersionFromStaging ::
  "Workspace \<Rightarrow> inode_row \<Rightarrow> handle_row \<Rightarrow> nat \<Rightarrow> string \<Rightarrow> bool \<Rightarrow> nat vexfs" where
  "StoreVersionFromStaging w node handle generation message transaction_owned =
     bind (query (\<lambda>s. FindStaging s handle)) (\<lambda>st.
     require (s_generation st = generation)
       (SqlError ''staged generation is stale or missing'' SQLITE_NOTFOUND)
     (bind (query (\<lambda>s. previous_manifest_of s node)) (\<lambda>previous_manifest.
      bind (query (\<lambda>s. CheckQuotaForContentSize s (ws_id w) (i_id node) (int (s_logical st)))) (\<lambda>_.
      andthen (advance_version (i_id node) (i_version node) (s_logical st) (i_version node + 1)
                ''version conflict: file changed before publish'')
      (bind (if transaction_owned then CreateCommitInTransaction w message else CreateCommit w message) (\<lambda>commit.
      bind (StoreManifestFromStaging (ws_id w) (i_id node) previous_manifest handle st) (\<lambda>(manifest_id, checksum).
      andthen (insert_version (i_id node) (i_version node + 1) commit (Some manifest_id) (s_logical st)
                checksum None)
      (andthen (UpdateGrepIndexFromVersion (ws_id w) (i_id node) (i_version node + 1))
      (andthen (modify (rebase_staging (h_id handle) manifest_id))
      (ret (i_version node + 1)))))))))))"

definition PublishHandleInTransaction :: "handle_row \<Rightarrow> int \<Rightarrow> bool \<Rightarrow> nat vexfs" where
  "PublishHandleInTransaction handle generation transaction_owned =
     require (h_state handle \<noteq> HClosed) (SqlError ''handle is closed'' SQLITE_NOTFOUND)
     (if generation \<le> int (h_published handle)
      then bind (query (\<lambda>s. NodeById s (h_inode handle) True)) (\<lambda>node. ret (i_version node))
      else require (generation = int (h_dirty handle))
             (SqlError ''generation is stale or has not been staged'' SQLITE_CONSTRAINT)
      (bind (query (\<lambda>s. NodeById s (h_inode handle) True)) (\<lambda>node.
       require (i_version node = h_expected handle)
         (SqlError ''write conflict: file changed after handle_open'' SQLITE_CONSTRAINT)
       (bind (query (\<lambda>s. WorkspaceById s (h_workspace handle))) (\<lambda>w.
        bind (StoreVersionFromStaging w node handle (nat generation) ''handle publish'' transaction_owned) (\<lambda>version.
        andthen (modify (\<lambda>s. update_handles (\<lambda>r. h_id r = h_id handle)
            (\<lambda>r. r\<lparr>h_expected := version, h_published := nat generation, h_updated := now_s_ms s\<rparr>) s))
        (ret version)))))))"

definition PublishHandle :: "handle_row \<Rightarrow> int \<Rightarrow> nat vexfs" where
  "PublishHandle handle generation = savepoint (PublishHandleInTransaction handle generation False)"

section \<open>Opening handles\<close>

definition optional_text :: "sql_value option \<Rightarrow> string \<Rightarrow> string vexfs" where
  "optional_text v name = (case v of None \<Rightarrow> ret [] | Some x \<Rightarrow> text_arg x name)"

definition optional_owner :: "sql_value option \<Rightarrow> string \<Rightarrow> int vexfs" where
  "optional_owner v name = (case v of None \<Rightarrow> ret 0 | Some x \<Rightarrow> query (\<lambda>_. RequiredOwnerId x name))"

definition new_handle ::
  "string \<Rightarrow> nat \<Rightarrow> nat \<Rightarrow> string \<Rightarrow> bool \<Rightarrow> nat \<Rightarrow> nat \<Rightarrow> string option \<Rightarrow> int \<Rightarrow> handle_row" where
  "new_handle h ws inode flags writable expected dirty owner now =
     \<lparr>h_id = h, h_workspace = ws, h_inode = inode, h_flags = flags, h_writable = writable,
      h_expected = expected, h_dirty = dirty, h_published = 0, h_state = HOpen, h_lease = None,
      h_owner = owner, h_updated = now\<rparr>"

text \<open>The id is the primary key.\<close>

definition insert_handle :: "handle_row \<Rightarrow> unit vexfs" where
  "insert_handle handle =
     bind (gets (\<lambda>s. h_id handle \<in> h_id ` set (handles s))) (\<lambda>exists.
     require (\<not> exists) unique_failed (modify (\<lambda>s. s\<lparr>handles := handles s @ [handle]\<rparr>)))"

text \<open>The cached result of a request whose result is a text or an integer, or the call itself.\<close>

definition replay_text :: "string \<Rightarrow> string \<Rightarrow> byte list \<Rightarrow> string vexfs \<Rightarrow> string vexfs" where
  "replay_text request_id operation fp m =
     bind (query (\<lambda>s. FindRequest s request_id operation fp)) (\<lambda>cached.
     case cached of CText t \<Rightarrow> ret t | _ \<Rightarrow> m)"

definition replay_integer :: "string \<Rightarrow> string \<Rightarrow> byte list \<Rightarrow> int vexfs \<Rightarrow> int vexfs" where
  "replay_integer request_id operation fp m =
     bind (query (\<lambda>s. FindRequest s request_id operation fp)) (\<lambda>cached.
     case cached of CInteger n \<Rightarrow> ret n | _ \<Rightarrow> m)"

text \<open>
  \<open>uid_gid\<close> is given in the form with seven arguments, \<open>session\<close> in the forms with five and seven.
\<close>

definition HandleCreateFunction ::
  "string \<Rightarrow> sql_value \<Rightarrow> sql_value \<Rightarrow> sql_value \<Rightarrow> (sql_value \<times> sql_value) option \<Rightarrow> sql_value \<Rightarrow>
   sql_value option \<Rightarrow> string vexfs" where
  "HandleCreateFunction random_id v0 v1 v2 uid_gid v_request session =
     bind (text_arg v0 ''workspace'') (\<lambda>workspace_name.
     bind (text_arg v1 ''path'') (\<lambda>path.
     bind (query (\<lambda>_. RequiredMode v2)) (\<lambda>mode.
     bind (optional_owner (map_option fst uid_gid) ''uid'') (\<lambda>uid.
     bind (optional_owner (map_option snd uid_gid) ''gid'') (\<lambda>gid.
     bind (text_arg v_request ''request_id'') (\<lambda>request_id.
     bind (optional_text session ''owner_session'') (\<lambda>owner_session.
     let fp = fp_Finish (AddText owner_session (AddInt64 gid (AddInt64 uid (AddInt64 (int mode)
                (AddText path (AddText workspace_name (RequestFingerprint ''handle_create'')))))))
     in replay_text request_id ''handle_create'' fp
       (bind (query (\<lambda>s. FindWorkspace s workspace_name)) (\<lambda>w.
        bind (query (\<lambda>_. PathParts path)) (\<lambda>parts.
        require (parts \<noteq> []) root_exists
        (savepoint
          (bind (free_name w parts) (\<lambda>(parent, name).
           bind (CreateInode (ws_id w) KFile mode) (\<lambda>inode.
           andthen (op_when (uid_gid \<noteq> None)
             (modify (update_inodes (\<lambda>i. i_workspace i = ws_id w \<and> i_id i = inode)
                (\<lambda>i. i\<lparr>i_uid := uid, i_gid := gid\<rparr>))))
           (andthen (AddDentry (ws_id w) (i_id parent) name inode)
           (bind (gets (\<lambda>s. new_handle random_id (ws_id w) inode ''rw'' True 0 1
                   (if session = None then None else Some owner_session) (now_s_ms s))) (\<lambda>handle.
           andthen (insert_handle handle)
           (andthen (CreateStaging handle [])
           (andthen (StoreRequestText request_id ''handle_create'' fp random_id)
           (ret random_id))))))))))))))))))))"

definition HandleOpenFunction ::
  "string \<Rightarrow> sql_value \<Rightarrow> sql_value \<Rightarrow> sql_value \<Rightarrow> sql_value \<Rightarrow> sql_value option \<Rightarrow> string vexfs" where
  "HandleOpenFunction random_id v0 v1 v2 v3 session =
     bind (text_arg v0 ''workspace'') (\<lambda>workspace_name.
     bind (text_arg v1 ''path'') (\<lambda>path.
     bind (text_arg v2 ''flags'') (\<lambda>flags.
     bind (text_arg v3 ''request_id'') (\<lambda>request_id.
     bind (optional_text session ''owner_session'') (\<lambda>owner_session.
     let fp = fp_Finish (AddText owner_session (AddText flags (AddText path (AddText workspace_name
                (RequestFingerprint ''handle_open'')))));
         writable = CHR ''w'' \<in> set flags;
         create = CHR ''c'' \<in> set flags;
         truncate = CHR ''t'' \<in> set flags
     in replay_text request_id ''handle_open'' fp
       (require (\<not> (CHR ''r'' \<notin> set flags \<and> \<not> writable)) (SqlError ''flags must contain r or w'' SQLITE_MISMATCH)
       (require (\<not> ((create \<or> truncate) \<and> \<not> writable))
          (SqlError ''create/truncate requires write access'' SQLITE_MISMATCH)
       (bind (query (\<lambda>s. FindWorkspace s workspace_name)) (\<lambda>w.
        bind (query (\<lambda>_. PathParts path)) (\<lambda>parts.
        bind (query (\<lambda>s. TryResolve s w parts)) (\<lambda>found.
        bind (case found of
                Some n \<Rightarrow> ret (w, n)
              | None \<Rightarrow>
                  require create (SqlError ''path not found'' SQLITE_NOTFOUND)
                  (bind (WritePath w parts [] ''create file'') (\<lambda>_.
                   bind (query (\<lambda>s. WorkspaceById s (ws_id w))) (\<lambda>w'.
                   bind (query (\<lambda>s. Resolve s w' parts)) (\<lambda>n. ret (w', n)))))) (\<lambda>(w', node).
        require (i_kind node = KFile) not_a_file
        (bind (gets (\<lambda>s. new_handle random_id (ws_id w') (i_id node) flags writable (i_version node)
                 (if truncate then 1 else 0) (if session = None then None else Some owner_session)
                 (now_s_ms s))) (\<lambda>handle.
         andthen (insert_handle handle)
         (andthen (if truncate then CreateStaging handle [] else CreateStagingFromVersion handle node)
         (andthen (StoreRequestText request_id ''handle_open'' fp random_id)
         (ret random_id)))))))))))))))))"

section \<open>Using handles\<close>

definition writable_handle :: "string \<Rightarrow> handle_row vexfs" where
  "writable_handle h =
     bind (query (\<lambda>s. FindHandle s h)) (\<lambda>handle.
     require (h_state handle = HOpen) (SqlError ''handle is not open'' SQLITE_NOTFOUND)
     (require (h_writable handle) (SqlError ''handle is read-only'' SQLITE_READONLY)
     (ret handle)))"

definition HandleStageWriteFunction :: "sql_value \<Rightarrow> int \<Rightarrow> sql_value \<Rightarrow> sql_value \<Rightarrow> int vexfs" where
  "HandleStageWriteFunction v0 offset v2 v3 =
     bind (text_arg v0 ''handle'') (\<lambda>h.
     bind (blob_arg v2 ''content'') (\<lambda>patch.
     bind (text_arg v3 ''request_id'') (\<lambda>request_id.
     let fp = fp_Finish (AddBlob patch (AddInt64 offset (AddText h (RequestFingerprint ''handle_stage_write''))))
     in replay_integer request_id ''handle_stage_write'' fp
       (bind (writable_handle h) (\<lambda>handle.
        require (0 \<le> offset \<and> offset \<le> int kMaxStagedBytes) (SqlError ''write offset is out of range'' SQLITE_RANGE)
        (require (int (length patch) \<le> int kMaxStagedBytes - offset) staged_too_large
        (bind (query (\<lambda>s. FindStaging s handle)) (\<lambda>st.
         bind (query (\<lambda>s. CheckQuotaForContentSize s (h_workspace handle) (h_inode handle)
                 (max (int (s_logical st)) (offset + int (length patch))))) (\<lambda>_.
         bind (StageWrite handle offset patch) (\<lambda>generation.
         andthen (StoreRequestInteger request_id ''handle_stage_write'' fp (int generation))
         (ret (int generation))))))))))))"

definition remove_staging :: "string \<Rightarrow> db \<Rightarrow> db" where
  "remove_staging h s =
     (let s' = remove_dirty_chunks h 0 s
      in s'\<lparr>staging := filter (\<lambda>st. s_handle st \<noteq> h) (staging s')\<rparr>)"

definition HandleAppendFunction :: "sql_value \<Rightarrow> sql_value \<Rightarrow> sql_value \<Rightarrow> int vexfs" where
  "HandleAppendFunction v0 v1 v2 =
     bind (text_arg v0 ''handle'') (\<lambda>h.
     bind (blob_arg v1 ''content'') (\<lambda>suffix.
     bind (text_arg v2 ''request_id'') (\<lambda>request_id.
     let fp = fp_Finish (AddBlob suffix (AddText h (RequestFingerprint ''handle_append'')))
     in replay_integer request_id ''handle_append'' fp
       (bind (writable_handle h) (\<lambda>handle.
        require (h_dirty handle = h_published handle)
          (SqlError ''append requires a clean handle'' SQLITE_CONSTRAINT)
        (bind (query (\<lambda>s. WorkspaceById s (h_workspace handle))) (\<lambda>w.
        savepoint
         (bind (query (\<lambda>s. NodeById s (h_inode handle) True)) (\<lambda>node.
          require (i_kind node = KFile) (SqlError ''inode is not a file'' SQLITE_MISMATCH)
          (require (\<not> (i_size node < 0 \<or> int kMaxStagedBytes < i_size node \<or>
                       int kMaxStagedBytes - i_size node < int (length suffix))) too_large
          (bind (query (\<lambda>s. CheckQuotaForContentSize s (ws_id w) (i_id node)
                   (i_size node + int (length suffix)))) (\<lambda>_.
           andthen (modify (remove_staging h))
           (andthen (CreateStagingFromVersion (handle\<lparr>h_expected := i_version node\<rparr>) node)
           (bind (StageWrite (handle\<lparr>h_expected := i_version node\<rparr>) (i_size node) suffix) (\<lambda>generation.
            bind (PublishHandleInTransaction (handle\<lparr>h_expected := i_version node, h_dirty := generation\<rparr>)
                    (int generation) False) (\<lambda>version.
            andthen (StoreRequestInteger request_id ''handle_append'' fp (int version))
            (ret (int version))))))))))))))))))"

definition HandleTruncateFunction :: "sql_value \<Rightarrow> int \<Rightarrow> sql_value \<Rightarrow> int vexfs" where
  "HandleTruncateFunction v0 new_size v2 =
     bind (text_arg v0 ''handle'') (\<lambda>h.
     bind (text_arg v2 ''request_id'') (\<lambda>request_id.
     let fp = fp_Finish (AddInt64 new_size (AddText h (RequestFingerprint ''handle_truncate'')))
     in replay_integer request_id ''handle_truncate'' fp
       (bind (writable_handle h) (\<lambda>handle.
        require (0 \<le> new_size \<and> new_size \<le> int kMaxStagedBytes)
          (SqlError ''truncate size is out of range'' SQLITE_RANGE)
        (bind (query (\<lambda>s. CheckQuotaForContentSize s (h_workspace handle) (h_inode handle) new_size)) (\<lambda>_.
         bind (TruncateStaging handle new_size) (\<lambda>generation.
         andthen (StoreRequestInteger request_id ''handle_truncate'' fp (int generation))
         (ret (int generation)))))))))"

definition HandleReadFunction :: "sql_value \<Rightarrow> int \<Rightarrow> int \<Rightarrow> byte list vexfs" where
  "HandleReadFunction v0 offset len =
     bind (text_arg v0 ''handle'') (\<lambda>h.
     bind (query (\<lambda>s. FindHandle s h)) (\<lambda>handle.
     require (h_state handle \<noteq> HClosed) (SqlError ''handle is closed'' SQLITE_NOTFOUND)
     (require (0 \<le> offset \<and> 0 \<le> len) (SqlError ''offset and length must be non-negative'' SQLITE_RANGE)
     (query (\<lambda>s. ReadStagingRange s handle offset len)))))"

section \<open>Publishing and closing\<close>

definition durability_ok :: "string \<Rightarrow> bool" where
  "durability_ok d \<longleftrightarrow> d = ''none'' \<or> d = ''data'' \<or> d = ''full''"

definition durability_error :: vex_error where
  "durability_error = SqlError ''durability must be none, data, or full'' SQLITE_MISMATCH"

definition HandlePublishFunction :: "sql_value \<Rightarrow> int \<Rightarrow> sql_value \<Rightarrow> sql_value \<Rightarrow> int vexfs" where
  "HandlePublishFunction v0 generation v2 v3 =
     bind (text_arg v0 ''handle'') (\<lambda>h.
     bind (text_arg v2 ''durability'') (\<lambda>durability.
     bind (text_arg v3 ''request_id'') (\<lambda>request_id.
     let fp = fp_Finish (AddText durability (AddInt64 generation (AddText h (RequestFingerprint ''handle_publish''))))
     in replay_integer request_id ''handle_publish'' fp
       (require (durability_ok durability) durability_error
       (bind (query (\<lambda>s. FindHandle s h)) (\<lambda>handle.
        bind (PublishHandle handle generation) (\<lambda>version.
        andthen (StoreRequestInteger request_id ''handle_publish'' fp (int version))
        (ret (int version)))))))))"

definition close_handle :: "string \<Rightarrow> db \<Rightarrow> db" where
  "close_handle h s = remove_staging h
     (update_handles (\<lambda>r. h_id r = h) (\<lambda>r. r\<lparr>h_state := HClosed, h_lease := None, h_updated := now_s_ms s\<rparr>) s)"

definition HandlePublishCloseFunction :: "sql_value \<Rightarrow> int \<Rightarrow> sql_value \<Rightarrow> int vexfs" where
  "HandlePublishCloseFunction v0 generation v2 =
     bind (text_arg v0 ''handle'') (\<lambda>h.
     bind (text_arg v2 ''durability'') (\<lambda>durability.
     require (durability_ok durability) durability_error
     (savepoint
       (bind (query (\<lambda>s. FindHandle s h)) (\<lambda>handle.
        bind (PublishHandleInTransaction handle generation False) (\<lambda>version.
        andthen (modify (close_handle h))
        (ret (int version))))))))"

definition lease_end :: "db \<Rightarrow> int \<Rightarrow> int" where
  "lease_end s seconds = (clock s div 1000 + seconds) * 1000"

definition HandleCloseFunction :: "sql_value \<Rightarrow> bool \<Rightarrow> sql_value \<Rightarrow> string vexfs" where
  "HandleCloseFunction v0 retain_requested v2 =
     bind (text_arg v0 ''handle'') (\<lambda>h.
     bind (text_arg v2 ''request_id'') (\<lambda>request_id.
     let fp = fp_Finish (AddInt64 (if retain_requested then 1 else 0) (AddText h (RequestFingerprint ''handle_close'')))
     in replay_text request_id ''handle_close'' fp
       (bind (query (\<lambda>s. FindHandle s h)) (\<lambda>handle.
        let retain = (retain_requested \<and> h_published handle < h_dirty handle);
            state = (if retain then ''retained'' else ''closed'')
        in andthen (if retain
             then modify (\<lambda>s. update_handles (\<lambda>r. h_id r = h)
                    (\<lambda>r. r\<lparr>h_state := HRetained, h_lease := Some (lease_end s 86400), h_updated := now_s_ms s\<rparr>) s)
             else modify (close_handle h))
           (andthen (StoreRequestText request_id ''handle_close'' fp state)
           (ret state))))))"

section \<open>Mount sessions\<close>

text \<open>\<open>DELETE ... WHERE handle_id IN (SELECT id ... WHERE state='closed')\<close>\<close>

definition clear_closed_staging :: "nat \<Rightarrow> db \<Rightarrow> db" where
  "clear_closed_staging ws s =
     (let closed = (\<lambda>h. \<exists>r \<in> set (handles s). h_id r = h \<and> h_workspace r = ws \<and> h_state r = HClosed)
      in s\<lparr>staging_chunks := filter (\<lambda>c. \<not> closed (sc_handle c)) (staging_chunks s),
           staging := filter (\<lambda>st. \<not> closed (s_handle st)) (staging s)\<rparr>)"

definition RetainOpenHandles :: "Workspace \<Rightarrow> string \<Rightarrow> bool \<Rightarrow> db \<Rightarrow> db" where
  "RetainOpenHandles w session_id matching_session s =
     clear_closed_staging (ws_id w)
       (update_handles (\<lambda>r. h_workspace r = ws_id w \<and> h_state r = HOpen \<and>
            (if matching_session then h_owner r = Some session_id
             else h_owner r \<noteq> None \<and> h_owner r \<noteq> Some session_id))
          (\<lambda>r. if h_published r < h_dirty r
                then r\<lparr>h_state := HRetained, h_lease := Some (lease_end s 86400), h_updated := now_s_ms s\<rparr>
                else r\<lparr>h_state := HClosed, h_lease := None, h_updated := now_s_ms s\<rparr>) s)"

definition ClaimRetainedHandles :: "Workspace \<Rightarrow> string \<Rightarrow> db \<Rightarrow> db" where
  "ClaimRetainedHandles w session_id s =
     update_handles (\<lambda>r. h_workspace r = ws_id w \<and> h_state r = HRetained \<and> h_published r < h_dirty r)
       (\<lambda>r. r\<lparr>h_state := HOpen, h_owner := Some session_id, h_lease := None, h_updated := now_s_ms s\<rparr>) s"

definition session_arg :: "sql_value \<Rightarrow> string vexfs" where
  "session_arg v =
     bind (text_arg v ''session_id'') (\<lambda>session_id.
     require (session_id \<noteq> []) (SqlError ''session_id must not be empty'' SQLITE_MISMATCH) (ret session_id))"

definition find_session :: "db \<Rightarrow> nat \<Rightarrow> session_row option" where
  "find_session s ws = find (\<lambda>r. ss_workspace r = ws) (mount_sessions s)"

text \<open>The workspace is the primary key, and the session id is unique.\<close>

definition upsert_session :: "nat \<Rightarrow> string \<Rightarrow> unit vexfs" where
  "upsert_session ws session_id =
     bind (gets (\<lambda>s. \<exists>r \<in> set (mount_sessions s). ss_id r = session_id \<and> ss_workspace r \<noteq> ws)) (\<lambda>taken.
     require (\<not> taken) unique_failed
       (modify (\<lambda>s. s\<lparr>mount_sessions :=
          (if find_session s ws = None
           then mount_sessions s @ [\<lparr>ss_workspace = ws, ss_id = session_id, ss_lease = lease_end s 30\<rparr>]
           else map (\<lambda>r. if ss_workspace r = ws then r\<lparr>ss_id := session_id, ss_lease := lease_end s 30\<rparr> else r)
                  (mount_sessions s))\<rparr>)))"

definition SessionStartFunction :: "sql_value \<Rightarrow> sql_value \<Rightarrow> nat vexfs" where
  "SessionStartFunction v0 v1 =
     bind (workspace_arg v0) (\<lambda>w.
     bind (session_arg v1) (\<lambda>session_id.
     savepoint
       (bind (gets (\<lambda>s. case find_session s (ws_id w) of
                           None \<Rightarrow> ([], False)
                         | Some r \<Rightarrow> (ss_id r, now_s_ms s < ss_lease r))) (\<lambda>(previous_session, active).
        require (\<not> (active \<and> previous_session \<noteq> session_id))
          (SqlError ''workspace already has an active mount session'' SQLITE_BUSY)
        (andthen (op_when (previous_session \<noteq> [] \<and> previous_session \<noteq> session_id)
                   (modify (RetainOpenHandles w previous_session True)))
        (andthen (modify (ClaimRetainedHandles w session_id))
        (andthen (upsert_session (ws_id w) session_id)
        (ret 1))))))))"

definition SessionHeartbeatFunction :: "sql_value \<Rightarrow> sql_value \<Rightarrow> nat vexfs" where
  "SessionHeartbeatFunction v0 v1 =
     bind (workspace_arg v0) (\<lambda>w.
     bind (session_arg v1) (\<lambda>session_id.
     bind (gets (\<lambda>s. length (filter (\<lambda>r. ss_workspace r = ws_id w \<and> ss_id r = session_id) (mount_sessions s)))) (\<lambda>changed.
     andthen (modify (\<lambda>s. s\<lparr>mount_sessions := map (\<lambda>r. if ss_workspace r = ws_id w \<and> ss_id r = session_id
                then r\<lparr>ss_lease := lease_end s 30\<rparr> else r) (mount_sessions s)\<rparr>))
     (require (changed = 1) (SqlError ''mount session is stale'' SQLITE_BUSY) (ret 1)))))"

definition SessionEndFunction :: "sql_value \<Rightarrow> sql_value \<Rightarrow> nat vexfs" where
  "SessionEndFunction v0 v1 =
     bind (workspace_arg v0) (\<lambda>w.
     bind (session_arg v1) (\<lambda>session_id.
     savepoint
       (andthen (modify (RetainOpenHandles w session_id True))
       (andthen (modify (\<lambda>s. s\<lparr>mount_sessions := filter (\<lambda>r. \<not> (ss_workspace r = ws_id w \<and> ss_id r = session_id))
                   (mount_sessions s)\<rparr>))
       (ret 1)))))"

text \<open>\<open>ORDER BY id\<close>\<close>

definition handles_by_id :: "(handle_row \<Rightarrow> bool) \<Rightarrow> db \<Rightarrow> handle_row list" where
  "handles_by_id p s = sort_key h_id (filter p (handles s))"

definition SynchronizeFunction :: "sql_value \<Rightarrow> sql_value \<Rightarrow> sql_value option \<Rightarrow> int vexfs" where
  "SynchronizeFunction v0 v1 session =
     bind (text_arg v0 ''workspace'') (\<lambda>workspace_name.
     bind (text_arg v1 ''request_id'') (\<lambda>request_id.
     bind (optional_text session ''owner_session'') (\<lambda>owner_session.
     let fp = fp_Finish (AddText owner_session (AddText workspace_name (RequestFingerprint ''mount_synchronize'')))
     in replay_integer request_id ''mount_synchronize'' fp
       (bind (query (\<lambda>s. FindWorkspace s workspace_name)) (\<lambda>w.
        bind (gets (handles_by_id (\<lambda>r. h_workspace r = ws_id w \<and> h_published r < h_dirty r \<and>
            (if session \<noteq> None then h_state r = HOpen \<and> h_owner r = Some owner_session
             else h_state r \<in> {HOpen, HRetained} \<and> h_owner r = None)))) (\<lambda>pending.
        andthen (for_each pending (\<lambda>item.
            bind (query (\<lambda>s. FindHandle s (h_id item))) (\<lambda>handle.
            bind (PublishHandle handle (int (h_dirty item))) (\<lambda>_. ret ()))))
        (andthen (StoreRequestInteger request_id ''mount_synchronize'' fp (int (length pending)))
        (ret (int (length pending))))))))))"

definition PublishCloseAllFunction :: "sql_value \<Rightarrow> sql_value \<Rightarrow> int \<Rightarrow> int vexfs" where
  "PublishCloseAllFunction v0 v1 limit =
     bind (workspace_arg v0) (\<lambda>w.
     bind (text_arg v1 ''owner_session'') (\<lambda>owner_session.
     require (owner_session \<noteq> []) (SqlError ''owner_session must not be empty'' SQLITE_MISMATCH)
     (require (0 \<le> limit) (SqlError ''limit must be zero or positive'' SQLITE_RANGE)
     (savepoint
       (bind (gets (\<lambda>s. let rows = handles_by_id (\<lambda>r. h_workspace r = ws_id w \<and> h_owner r = Some owner_session \<and>
               h_state r = HOpen \<and> h_writable r \<and> h_published r < h_dirty r) s
             in if limit = 0 then rows else take (nat limit) rows)) (\<lambda>pending.
        andthen (for_each pending (\<lambda>item.
            bind (query (\<lambda>s. FindHandle s (h_id item))) (\<lambda>handle.
            bind (PublishHandleInTransaction handle (int (h_dirty item)) True) (\<lambda>_.
            modify (close_handle (h_id item))))))
        (ret (int (length pending)))))))))"

definition ReclaimFunction :: "sql_value \<Rightarrow> sql_value \<Rightarrow> int vexfs" where
  "ReclaimFunction v0 v1 =
     bind (text_arg v0 ''workspace'') (\<lambda>workspace_name.
     bind (text_arg v1 ''request_id'') (\<lambda>request_id.
     let fp = fp_Finish (AddText workspace_name (RequestFingerprint ''item_reclaim''))
     in replay_integer request_id ''item_reclaim'' fp
       (bind (query (\<lambda>s. FindWorkspace s workspace_name)) (\<lambda>w.
        bind (gets (\<lambda>s. filter (\<lambda>r. h_workspace r = ws_id w \<and> h_state r = HClosed) (handles s))) (\<lambda>rows.
        andthen (for_each rows (\<lambda>r. modify (\<lambda>s.
            let s' = remove_staging (h_id r) s
            in s'\<lparr>handles := filter (\<lambda>x. h_id x \<noteq> h_id r) (handles s')\<rparr>)))
        (andthen (StoreRequestInteger request_id ''item_reclaim'' fp (int (length rows)))
        (ret (int (length rows)))))))))"

section \<open>Reading by path\<close>

definition FindActiveMountStaging :: "db \<Rightarrow> nat \<Rightarrow> nat \<Rightarrow> handle_row option" where
  "FindActiveMountStaging s ws inode =
     fold (\<lambda>h best. later_handle best h)
       (filter (\<lambda>h. h_workspace h = ws \<and> h_inode h = inode \<and> h_writable h \<and> h_state h = HOpen \<and>
          h_published h < h_dirty h \<and>
          (\<exists>r \<in> set (mount_sessions s). ss_workspace r = h_workspace h \<and> h_owner h = Some (ss_id r) \<and>
             now_ms s < ss_lease r)) (handles s)) None"

definition ReadFunction :: "sql_value \<Rightarrow> sql_value \<Rightarrow> byte list vexfs" where
  "ReadFunction v0 v1 =
     bind (workspace_arg v0) (\<lambda>w.
     bind (parts_arg v1 ''path'') (\<lambda>parts.
     bind (query (\<lambda>s. Resolve s w parts)) (\<lambda>node.
     query (\<lambda>s.
       case (if i_kind node = KFile then FindActiveMountStaging s (ws_id w) (i_id node) else None) of
         Some mounted \<Rightarrow> ReadStagingRange s mounted 0 (int kMaxStagedBytes)
       | None \<Rightarrow> ReadNode s node))))"

definition ReadRangeFunction :: "sql_value \<Rightarrow> sql_value \<Rightarrow> sql_value \<Rightarrow> sql_value \<Rightarrow> byte list vexfs" where
  "ReadRangeFunction v0 v1 v2 v3 =
     bind (workspace_arg v0) (\<lambda>w.
     bind (parts_arg v1 ''path'') (\<lambda>parts.
     bind (query (\<lambda>s. Resolve s w parts)) (\<lambda>node.
     bind (query (\<lambda>_. RequiredNonnegativeInteger v2 ''offset'')) (\<lambda>offset.
     bind (query (\<lambda>_. RequiredNonnegativeInteger v3 ''length'')) (\<lambda>len.
     require (i_kind node = KFile) not_a_file
     (query (\<lambda>s.
       case (if len \<noteq> 0 then FindActiveMountStaging s (ws_id w) (i_id node) else None) of
         Some mounted \<Rightarrow> ReadStagingRange s mounted offset len
       | None \<Rightarrow>
           if i_version node = 0 \<or> len = 0 \<or> i_size node \<le> offset then Inr []
           else ReadVersionRange s (i_id node) (i_version node) offset len)))))))"

end
