(* ===== verification/Vex_Laws.thy ===== *)
theory Vex_Laws
  imports Vex_Handles
begin

text \<open>
  What every SQL function keeps. A function changes the database only through a few operations on its
  tables; locale \<open>db_invariant\<close> states what such an operation has to do to an invariant, and its lemmas
  carry the invariant through every function of \<open>Vex_Files\<close> and \<open>Vex_Handles\<close>. Locale
  \<open>table_invariant\<close> gives the laws for an invariant that holds between any two statements.
\<close>

section \<open>Frames\<close>

text \<open>The tables an invariant may talk about; the other tables hold attributes, handles and indexes.\<close>

definition core ::
  "db \<Rightarrow> workspace_row list \<times> inode_row list \<times> dentry_row list \<times> commit_row list \<times> manifest_row list \<times>
     chunk_row list \<times> manifest_chunk_row list \<times> version_row list \<times> inode_state_row list \<times>
     dentry_state_row list \<times> xattr_state_row list \<times> acl_state_row list \<times> (nat \<times> nat) list" where
  "core s = (workspaces s, inodes s, dentries s, commits s, manifests s, chunks s, manifest_chunks s,
     file_versions s, inode_states s, dentry_states s, xattr_states s, acl_states s, dirty_inodes s)"

lemma core_update [simp]:
  "core (s\<lparr>xattrs := a\<rparr>) = core s" "core (s\<lparr>acl_entries := b\<rparr>) = core s"
  "core (s\<lparr>dirty_xattrs := c\<rparr>) = core s" "core (s\<lparr>dirty_acl := d\<rparr>) = core s"
  "core (s\<lparr>handles := e\<rparr>) = core s" "core (s\<lparr>staging := f\<rparr>) = core s"
  "core (s\<lparr>staging_chunks := g\<rparr>) = core s" "core (s\<lparr>requests := h\<rparr>) = core s"
  "core (s\<lparr>mount_sessions := i\<rparr>) = core s" "core (s\<lparr>content_fts := j\<rparr>) = core s"
  "core (s\<lparr>grep_dirty := k\<rparr>) = core s" "core (s\<lparr>clock := l\<rparr>) = core s"
  "core (s\<lparr>process_uid := m\<rparr>) = core s" "core (s\<lparr>process_gid := n\<rparr>) = core s"
  "core (s\<lparr>grep_marker := p\<rparr>) = core s" "core (s\<lparr>grep_state := q\<rparr>) = core s"
  by (simp_all add: core_def)

lemma core_fold: "(\<And>x s. core (f x s) = core s) \<Longrightarrow> core (fold f xs s) = core s"
  by (induction xs arbitrary: s) simp_all

lemma core_insert_acl [simp]: "core (insert_acl_or_ignore a s) = core s"
  by (simp add: insert_acl_or_ignore_def)

lemma core_inherit_acl [simp]: "core (inherit_acl ws parent inode s) = core s"
  unfolding inherit_acl_def by (rule core_fold) simp

lemma core_grep [simp]:
  "core (MarkGrepIndexDirty s) = core s" "core (RemoveDeletedFilesFromGrepIndex ws s) = core s"
  by (simp_all add: MarkGrepIndexDirty_def RemoveDeletedFilesFromGrepIndex_def split: GrepIndexState.split)

lemma core_attributes [simp]:
  "core (store_xattr inode name val s) = core s" "core (remove_xattr inode name s) = core s"
  "core (delete_acl p s) = core s" "core (upsert_acl a s) = core s"
  by (simp_all add: store_xattr_def remove_xattr_def mark_xattr_def delete_acl_def upsert_acl_def)

lemma core_staging [simp]:
  "core (set_dirty_chunk h no content s) = core s" "core (update_staging h f s) = core s"
  "core (update_handles q g s) = core s" "core (set_generation h n s) = core s"
  "core (remove_dirty_chunks h first s) = core s" "core (rebase_staging h mid s) = core s"
  "core (remove_staging h s) = core s" "core (close_handle h s) = core s"
  by (simp_all add: set_dirty_chunk_def update_staging_def update_handles_def set_generation_def
      remove_dirty_chunks_def rebase_staging_def remove_staging_def close_handle_def Let_def)

lemma core_sessions [simp]:
  "core (clear_closed_staging ws s) = core s" "core (RetainOpenHandles w session b s) = core s"
  "core (ClaimRetainedHandles w session s) = core s" "core (MaybePruneRequests n s) = core s"
  by (simp_all add: clear_closed_staging_def RetainOpenHandles_def ClaimRetainedHandles_def
      MaybePruneRequests_def Let_def)

section \<open>Reading arguments\<close>

lemma preserves_args [preserve_intros]:
  "preserves I (text_arg v name)" "preserves I (blob_arg v name)" "preserves I (inode_arg v name)"
  by (simp_all add: text_arg_def blob_arg_def inode_arg_def preserves_basic)

lemma preserves_path_args [preserve_intros]:
  "preserves I (parts_arg v name)" "preserves I (workspace_arg v)" "preserves I (session_arg v)"
  "preserves I (writable_handle h)"
  unfolding parts_arg_def workspace_arg_def session_arg_def writable_handle_def
  by (intro preserve_intros)+

lemma preserves_optional_args [preserve_intros]:
  "preserves I (optional_text u name)" "preserves I (optional_owner u name)"
  unfolding optional_text_def optional_owner_def by (intro preserve_intros)+

lemma preserves_replay [preserve_intros]:
  "preserves I m \<Longrightarrow> preserves I (replay_text r operation fp m)"
  "preserves I k \<Longrightarrow> preserves I (replay_integer r operation fp k)"
  unfolding replay_text_def replay_integer_def
  by (auto intro!: preserve_intros split: CachedRequest.split)

section \<open>The laws\<close>

text \<open>
  An update of an inode that is no new version: identity, kind and size stay, and the version counter
  of anything but a directory.
\<close>

definition same_file :: "inode_row \<Rightarrow> inode_row \<Rightarrow> bool" where
  "same_file i j \<longleftrightarrow> i_id j = i_id i \<and> i_workspace j = i_workspace i \<and> i_kind j = i_kind i \<and>
     i_size j = i_size i \<and> i_version i \<le> i_version j \<and> (i_kind i \<noteq> KDirectory \<longrightarrow> i_version j = i_version i) \<and>
     (i_deleted i \<noteq> None \<longrightarrow> i_deleted j \<noteq> None)"

text \<open>
  Any update of an inode: a version counter never falls, no size becomes negative, and what is deleted
  stays deleted.
\<close>

definition same_row :: "inode_row \<Rightarrow> inode_row \<Rightarrow> bool" where
  "same_row i j \<longleftrightarrow> i_id j = i_id i \<and> i_workspace j = i_workspace i \<and> i_kind j = i_kind i \<and>
     i_version i \<le> i_version j \<and> (0 \<le> i_size i \<longrightarrow> 0 \<le> i_size j) \<and>
     (i_deleted i \<noteq> None \<longrightarrow> i_deleted j \<noteq> None)"

lemma same_file_row: "same_file i j \<Longrightarrow> same_row i j"
  by (simp add: same_file_def same_row_def)

abbreviation workspace_ids :: "db \<Rightarrow> nat set" where
  "workspace_ids s \<equiv> w_id ` set (workspaces s)"

definition set_root :: "nat \<Rightarrow> nat \<Rightarrow> db \<Rightarrow> db" where
  "set_root ws root s =
     s\<lparr>workspaces := map (\<lambda>w. if w_id w = ws then w\<lparr>w_root := Some root\<rparr> else w) (workspaces s)\<rparr>"

locale db_invariant =
  fixes J :: "db \<Rightarrow> bool" and known :: "nat \<Rightarrow> bool"
  assumes frame: "J s \<Longrightarrow> core t = core s \<Longrightarrow> J t"
    and create_inode: "known ws \<Longrightarrow> preserves J (CreateInode ws k mode)"
    and update: "(\<And>i. p i \<Longrightarrow> same_file i (f i)) \<Longrightarrow> J s \<Longrightarrow> J (update_inodes p f s)"
    and add_entry: "preserves J (insert_dentry d)"
    and remove_entries: "J s \<Longrightarrow> J (delete_dentries q s)"
    and move_entry: "preserves J (move_dentry ws parent name parent' name')"
    and commit: "preserves J (CreateCommitInTransaction w message)"
    and store: "length content \<le> kMaxStagedBytes \<Longrightarrow> preserves J (StoreVersion w node content message)"
    and append: "preserves J (AppendFunction a b c)"
    and restore: "preserves J (StoreVersionFromVersion w node version message)"
    and publish: "keeps J (StoreVersionFromStaging w node handle generation message owned)"
    and add_workspace: "preserves J (insert_workspace name)"
    and root: "J s \<Longrightarrow> J (set_root ws r s)"
begin

lemma modify_frame: "(\<And>s. core (f s) = core s) \<Longrightarrow> preserves J (modify f)"
  by (rule preserves_modify) (rule frame)

lemma modify_fts: "preserves J (modify (\<lambda>s. s\<lparr>content_fts := f s\<rparr>))"
  by (rule modify_frame) simp

lemma create_commit: "preserves J (CreateCommit w message)"
  unfolding CreateCommit_def by (intro preserves_savepoint commit)

lemma touch: "preserves J (modify (TouchDirectory ws inode))"
  by (rule preserves_modify, unfold TouchDirectory_def, rule update) (auto simp: same_file_def)

lemma add_dentry: "preserves J (AddDentry ws parent name inode)"
  unfolding AddDentry_def by (intro preserve_intros add_entry touch modify_frame) simp

lemma new_child: "known ws \<Longrightarrow> preserves J (create_child ws parent name k mode)"
  unfolding create_child_def by (intro preserve_intros create_inode add_dentry)

lemma index: "preserves J (index_file inode ws version)"
  unfolding index_file_def by (intro preserve_intros modify_frame) simp

lemma rebuild_index: "preserves J RebuildGrepIndex"
  unfolding RebuildGrepIndex_def by (intro preserve_intros index modify_frame) simp_all

lemma write_path:
  "known (ws_id w) \<Longrightarrow> length content \<le> kMaxStagedBytes \<Longrightarrow> preserves J (WritePath w parts content message)"
  unfolding WritePath_def by (intro preserve_intros new_child store)

lemma make_directories: "known ws \<Longrightarrow> preserves J (mkdir_loop ws parts current changed)"
proof (induction parts arbitrary: current changed)
  case Nil
  show ?case unfolding mkdir_loop.simps by (intro preserve_intros)
next
  case (Cons part parts)
  show ?case unfolding mkdir_loop.simps
    by (intro preserve_intros new_child[OF Cons.prems] Cons.IH[OF Cons.prems])
qed

lemma free_name: "preserves J (free_name w parts)"
  unfolding free_name_def by (intro preserve_intros)

lemma metadata: "preserves J (CommitMetadataChange w inode message)"
  unfolding CommitMetadataChange_def by (intro preserve_intros create_commit)

lemma one_inode:
  "(\<And>s i. p i \<Longrightarrow> same_file i (f s i)) \<Longrightarrow> preserves J (update_one_inode p f)"
  unfolding update_one_inode_def by (intro preserve_intros update)

lemma insert_acl: "preserves J (insert_acl a)"
  unfolding insert_acl_def by (intro preserve_intros modify_frame) simp

lemma acl_change: "preserves J (delete_acl_commit w inode p message)"
  unfolding delete_acl_commit_def by (intro preserve_intros metadata modify_frame) simp

lemma touch_changed: "preserves J (modify (touch_changed w inode))"
  by (rule preserves_modify, unfold touch_changed_def, rule update) (auto simp: same_file_def)

lemma tombstones: "J s \<Longrightarrow> J (update_inodes p (\<lambda>i. i\<lparr>i_deleted := Some d\<rparr>) s)"
  by (rule update) (auto simp: same_file_def)

lemma detached: "J s \<Longrightarrow> J (detach ws parent name node s)"
  unfolding detach_def TombstoneTree_def TombstoneIfUnreferenced_def Let_def
  by (auto intro!: frame[OF _ core_grep(2)] tombstones remove_entries)

lemma replace: "preserves J (replace_destination ws source parent name b)"
  unfolding replace_destination_def by (intro preserve_intros detached)

lemma dirty_chunk: "preserves J (StoreDirtyChunk h no content)"
  unfolding StoreDirtyChunk_def by (intro preserve_intros modify_frame) simp

lemma insert_staging: "preserves J (insert_staging st)"
  unfolding insert_staging_def by (intro preserve_intros modify_frame) simp

lemma create_staging: "preserves J (CreateStaging handle content)"
  unfolding CreateStaging_def by (intro preserve_intros insert_staging dirty_chunk)

lemma open_staging: "preserves J (CreateStagingFromVersion handle node)"
  unfolding CreateStagingFromVersion_def by (intro preserve_intros insert_staging create_staging)

lemma stage_piece: "preserves J (stage_chunk h st n absolute piece)"
  unfolding stage_chunk_def by (intro preserve_intros dirty_chunk)

lemma stage_pieces: "preserves J (stage_loop h st n absolute patch delta)"
proof (induction h st n absolute patch delta rule: stage_loop.induct)
  case (1 h st n absolute patch delta)
  show ?case
  proof (cases "patch = []")
    case True
    then show ?thesis by (simp add: stage_loop.simps preserves_basic)
  next
    case False
    show ?thesis
      by (subst stage_loop.simps, unfold if_not_P[OF False] Let_def)
        (intro preserve_intros stage_piece 1[OF False refl])
  qed
qed

lemma stage_write: "preserves J (StageWrite handle offset patch)"
  unfolding StageWrite_def by (intro preserve_intros stage_pieces modify_frame) simp_all

lemma shrink: "preserves J (shrink_staging h st n)"
  unfolding shrink_staging_def by (intro preserve_intros dirty_chunk modify_frame) simp_all

lemma truncate: "preserves J (TruncateStaging handle n)"
  unfolding TruncateStaging_def by (intro preserve_intros shrink modify_frame) simp_all

lemma request: "preserves J (store_request r op fp n t)"
  unfolding store_request_def by (intro preserve_intros modify_frame) simp_all

lemma requests:
  "preserves J (StoreRequestInteger r op fp n)" "preserves J (StoreRequestText r op fp t)"
  by (simp_all add: StoreRequestInteger_def StoreRequestText_def request)

lemma session: "preserves J (upsert_session ws sid)"
  unfolding upsert_session_def by (intro preserve_intros modify_frame) simp

lemma insert_handle: "preserves J (insert_handle h)"
  unfolding insert_handle_def by (intro preserve_intros modify_frame) simp

lemma keeps_frame: "(\<And>s. core (f s) = core s) \<Longrightarrow> keeps J (modify f)"
  by (rule preserves_keeps) (rule modify_frame)

lemma publish_handle: "keeps J (PublishHandleInTransaction handle generation owned)"
  unfolding PublishHandleInTransaction_def by (intro keep_intros publish keeps_frame) simp

lemma publish_savepoint: "preserves J (PublishHandle handle generation)"
  unfolding PublishHandle_def by (intro preserves_savepoint_keeps publish_handle)

lemmas base_rules =
  create_commit touch add_dentry write_path make_directories free_name metadata one_inode insert_acl
  acl_change touch_changed replace create_staging open_staging stage_write truncate requests session
  insert_handle publish_savepoint store append restore move_entry

end

lemma symlink_bound: "length target \<le> kMaxSymlinkBytes \<Longrightarrow> length target \<le> kMaxStagedBytes"
  by (simp add: kMaxSymlinkBytes_def kMaxStagedBytes_def)


text \<open>An invariant that holds between any two statements; a new version is no special case for it.\<close>

locale table_invariant =
  fixes J :: "db \<Rightarrow> bool" and known :: "nat \<Rightarrow> bool"
  assumes frame: "J s \<Longrightarrow> core t = core s \<Longrightarrow> J t"
    and create_inode: "known ws \<Longrightarrow> preserves J (CreateInode ws k mode)"
    and update: "(\<And>i. p i \<Longrightarrow> same_row i (f i)) \<Longrightarrow> J s \<Longrightarrow> J (update_inodes p f s)"
    and add_entry: "preserves J (insert_dentry d)"
    and remove_entries: "J s \<Longrightarrow> J (delete_dentries q s)"
    and move_entry: "preserves J (move_dentry ws parent name parent' name')"
    and commit: "preserves J (CreateCommitInTransaction w message)"
    and manifest: "preserves J (StoreManifest ws inode previous content)"
    and staged_manifest: "preserves J (StoreManifestFromStaging ws inode previous handle st)"
    and version: "preserves J (insert_version inode no c m n checksum source)"
    and add_workspace: "preserves J (insert_workspace name)"
    and root: "J s \<Longrightarrow> J (set_root ws r s)"
begin

lemma advance: "preserves J (advance_version inode old n (old + 1) message)"
  unfolding advance_version_def by (intro preserve_intros update) (simp_all add: same_row_def)

lemma modify_frame: "(\<And>s. core (f s) = core s) \<Longrightarrow> preserves J (modify f)"
  by (rule preserves_modify) (rule frame)

lemma index_version: "preserves J (UpdateGrepIndexFromVersion ws inode version)"
  unfolding UpdateGrepIndexFromVersion_def index_file_def
  by (auto intro!: preserve_intros modify_frame split: GrepIndexState.split)

lemma create_commit: "preserves J (CreateCommit w message)"
  unfolding CreateCommit_def by (intro preserves_savepoint commit)

lemma store_any: "preserves J (StoreVersion w node content message)"
  unfolding StoreVersion_def
  by (intro preserve_intros advance create_commit manifest version index_version)

sublocale base: db_invariant J known
proof
  show "preserves J (StoreVersion w node content message)" for w node content message by (rule store_any)
  show "preserves J (AppendFunction a b c)" for a b c
    unfolding AppendFunction_def by (intro preserve_intros store_any)
  show "preserves J (StoreVersionFromVersion w node n message)" for w node n message
    unfolding StoreVersionFromVersion_def
    by (intro preserve_intros advance create_commit version index_version)
  show "keeps J (StoreVersionFromStaging w node handle g message owned)" for w node handle g message owned
    unfolding StoreVersionFromStaging_def
    by (rule preserves_keeps) (intro preserve_intros advance create_commit commit staged_manifest version
        index_version modify_frame core_staging)
qed (auto intro: frame create_inode update add_entry remove_entries move_entry commit add_workspace root
    same_file_row)

lemma as_db_invariant: "db_invariant J known"
  by (rule base.db_invariant_axioms)

end

section \<open>The calls\<close>

text \<open>
  A call of a SQL function with its arguments; the identifier that the code draws at random comes with
  the call.
\<close>

datatype sql_call =
    Workspace_Create sql_value
  | Mkdir sql_value sql_value
  | Create sql_value sql_value sql_value sql_value
  | Symlink sql_value sql_value sql_value
  | Hardlink sql_value sql_value sql_value
  | Write sql_value sql_value sql_value
  | Append sql_value sql_value sql_value
  | Restore_Version sql_value sql_value sql_value sql_value
  | Set_Mode sql_value sql_value sql_value
  | Set_Times sql_value sql_value sql_value sql_value int
  | Chown sql_value sql_value sql_value sql_value
  | Owner_Set sql_value sql_value sql_value
  | Set_Xattr sql_value sql_value sql_value sql_value int
  | Acl_Set sql_value sql_value sql_value "AclEntry list option"
  | Acl_Delete sql_value sql_value
  | Acl_Grant sql_value sql_value sql_value sql_value "sql_value option"
  | Acl_Revoke sql_value sql_value sql_value "sql_value option"
  | Rename sql_value sql_value sql_value bool
  | Remove sql_value sql_value bool
  | Handle_Create string sql_value sql_value sql_value "(sql_value \<times> sql_value) option" sql_value "sql_value option"
  | Handle_Open string sql_value sql_value sql_value sql_value "sql_value option"
  | Handle_Stage_Write sql_value int sql_value sql_value
  | Handle_Append sql_value sql_value sql_value
  | Handle_Truncate sql_value int sql_value
  | Handle_Publish sql_value int sql_value sql_value
  | Handle_Publish_Close sql_value int sql_value
  | Handle_Close sql_value bool sql_value
  | Session_Start sql_value sql_value
  | Session_Heartbeat sql_value sql_value
  | Session_End sql_value sql_value
  | Synchronize sql_value sql_value "sql_value option"
  | Publish_Close_All sql_value sql_value int
  | Reclaim sql_value sql_value
  | Grep_Index bool sql_value
  | Detect_Grep bool bool

definition discard :: "'a vexfs \<Rightarrow> unit vexfs" where
  "discard m = bind m (\<lambda>_. ret ())"

lemma snd_discard [simp]: "snd (discard m s) = snd (m s)"
  by (simp add: discard_def op_simps split: prod.split sum.split)

primrec call_op :: "sql_call \<Rightarrow> unit vexfs" where
  "call_op (Workspace_Create a) = discard (WorkspaceCreateFunction a)"
| "call_op (Mkdir a b) = discard (MkdirFunction a b)"
| "call_op (Create a b c d) = discard (CreateFunction a b c d)"
| "call_op (Symlink a b c) = discard (SymlinkFunction a b c)"
| "call_op (Hardlink a b c) = discard (HardlinkFunction a b c)"
| "call_op (Write a b c) = discard (WriteFunction a b c)"
| "call_op (Append a b c) = discard (AppendFunction a b c)"
| "call_op (Restore_Version a b c d) = discard (RestoreVersionFunction a b c d)"
| "call_op (Set_Mode a b c) = discard (SetModeFunction a b c)"
| "call_op (Set_Times a b c d n) = discard (SetTimesFunction a b c d n)"
| "call_op (Chown a b c d) = discard (ChownFunction a b c d)"
| "call_op (Owner_Set a b c) = discard (OwnerSetFunction a b c)"
| "call_op (Set_Xattr a b c d n) = discard (SetXattrFunction a b c d n)"
| "call_op (Acl_Set a b c rows) = discard (AclSetFunction a b c rows)"
| "call_op (Acl_Delete a b) = discard (AclDeleteFunction a b)"
| "call_op (Acl_Grant a b c d e) = discard (AclGrantFunction a b c d e)"
| "call_op (Acl_Revoke a b c d) = discard (AclRevokeFunction a b c d)"
| "call_op (Rename a b c replace) = discard (RenameFunction a b c replace)"
| "call_op (Remove a b recursive) = discard (RemoveFunction a b recursive)"
| "call_op (Handle_Create r a b c ug d e) = discard (HandleCreateFunction r a b c ug d e)"
| "call_op (Handle_Open r a b c d e) = discard (HandleOpenFunction r a b c d e)"
| "call_op (Handle_Stage_Write a n b c) = discard (HandleStageWriteFunction a n b c)"
| "call_op (Handle_Append a b c) = discard (HandleAppendFunction a b c)"
| "call_op (Handle_Truncate a n b) = discard (HandleTruncateFunction a n b)"
| "call_op (Handle_Publish a n b c) = discard (HandlePublishFunction a n b c)"
| "call_op (Handle_Publish_Close a n b) = discard (HandlePublishCloseFunction a n b)"
| "call_op (Handle_Close a retain b) = discard (HandleCloseFunction a retain b)"
| "call_op (Session_Start a b) = discard (SessionStartFunction a b)"
| "call_op (Session_Heartbeat a b) = discard (SessionHeartbeatFunction a b)"
| "call_op (Session_End a b) = discard (SessionEndFunction a b)"
| "call_op (Synchronize a b c) = discard (SynchronizeFunction a b c)"
| "call_op (Publish_Close_All a b n) = discard (PublishCloseAllFunction a b n)"
| "call_op (Reclaim a b) = discard (ReclaimFunction a b)"
| "call_op (Grep_Index fts5 a) = discard (GrepIndexFunction fts5 a)"
| "call_op (Detect_Grep fts5 readonly) = DetectGrepIndex fts5 readonly"

section \<open>Every call keeps an invariant\<close>

text \<open>
  The invariant has to hold together with any set of workspaces that are known to exist, because a
  function looks its workspace up before it creates inodes in it.
\<close>

locale global_invariant =
  fixes I :: "db \<Rightarrow> bool"
  assumes laws: "db_invariant (\<lambda>s. I s \<and> W \<subseteq> workspace_ids s) (\<lambda>ws. ws \<in> W)"
begin

sublocale within: db_invariant "\<lambda>s. I s \<and> W \<subseteq> workspace_ids s" "\<lambda>ws. ws \<in> W" for W
  by (rule laws)

lemma frame: "I s \<Longrightarrow> core t = core s \<Longrightarrow> I t"
  using within.frame[of s "{}" t] by simp

lemma start: "preserves (\<lambda>s. I s \<and> {} \<subseteq> workspace_ids s) m \<Longrightarrow> preserves I m"
  by simp

lemma know_more:
  "(\<And>s a. q s = Inr a \<Longrightarrow> ws a \<in> workspace_ids s) \<Longrightarrow>
   (\<And>a. preserves (\<lambda>s. I s \<and> insert (ws a) W \<subseteq> workspace_ids s) (f a)) \<Longrightarrow>
   preserves (\<lambda>s. I s \<and> W \<subseteq> workspace_ids s) (bind (query q) f)"
  unfolding preserves_def by (fastforce simp: op_simps split: sum.split)

lemma find_workspace:
  "(\<And>w. preserves (\<lambda>s. I s \<and> insert (ws_id w) W \<subseteq> workspace_ids s) (f w)) \<Longrightarrow>
   preserves (\<lambda>s. I s \<and> W \<subseteq> workspace_ids s) (bind (query (\<lambda>s. FindWorkspace s name)) f)"
  by (rule know_more[where ws = ws_id])
    (auto simp: FindWorkspace_def split: option.splits dest!: find_SomeD)

lemma workspace_by_id:
  "(\<And>w. preserves (\<lambda>s. I s \<and> insert (ws_id w) W \<subseteq> workspace_ids s) (f w)) \<Longrightarrow>
   preserves (\<lambda>s. I s \<and> W \<subseteq> workspace_ids s) (bind (query (\<lambda>s. WorkspaceById s ws)) f)"
  by (rule know_more[where ws = ws_id])
    (auto simp: WorkspaceById_def find_workspace_row_def split: option.splits dest!: find_SomeD)

lemma workspace_arg:
  "(\<And>w. preserves (\<lambda>s. I s \<and> insert (ws_id w) W \<subseteq> workspace_ids s) (f w)) \<Longrightarrow>
   preserves (\<lambda>s. I s \<and> W \<subseteq> workspace_ids s) (bind (workspace_arg v) f)"
  unfolding workspace_arg_def bind_assoc text_arg_def
  by (rule preserves_bind[OF preserves_basic(3)]) (rule find_workspace)

lemma new_workspace:
  "(\<And>ws. preserves (\<lambda>s. I s \<and> insert ws W \<subseteq> workspace_ids s) (f ws)) \<Longrightarrow>
   preserves (\<lambda>s. I s \<and> W \<subseteq> workspace_ids s) (bind (insert_workspace name) f)"
proof (rule preservesI)
  fix s assume f: "\<And>ws. preserves (\<lambda>s. I s \<and> insert ws W \<subseteq> workspace_ids s) (f ws)"
    and s: "I s \<and> W \<subseteq> workspace_ids s"
  obtain r t where run: "insert_workspace name s = (r, t)" by (cases "insert_workspace name s")
  have t: "I t \<and> W \<subseteq> workspace_ids t" by (rule preservesD[OF within.add_workspace s run])
  show "I (snd (bind (insert_workspace name) f s)) \<and> W \<subseteq> workspace_ids (snd (bind (insert_workspace name) f s))"
  proof (cases r)
    case (Inl e)
    with run t show ?thesis by (simp add: bind_def)
  next
    case (Inr ws)
    with run have "ws \<in> workspace_ids t"
      by (auto simp: insert_workspace_def op_simps new_workspace_row_def Let_def split: if_splits)
    with t f[of ws] have "I (snd (f ws t)) \<and> insert ws W \<subseteq> workspace_ids (snd (f ws t))"
      unfolding preserves_def by blast
    with run Inr show ?thesis by (simp add: bind_def)
  qed
qed

lemma workspace_create_kept: "preserves I (WorkspaceCreateFunction a)"
  unfolding WorkspaceCreateFunction_def
  by (rule start) (intro preserve_intros new_workspace within.create_inode within.base_rules
      within.root[unfolded set_root_def]; simp)

lemmas call_rules =
  preserve_intros within.new_child within.base_rules within.modify_frame within.detached

lemma creating_calls_kept:
  "preserves I (MkdirFunction a b)" "preserves I (CreateFunction a b c d)"
  "preserves I (SymlinkFunction a b c)" "preserves I (WriteFunction a b c)"
  unfolding MkdirFunction_def CreateFunction_def SymlinkFunction_def WriteFunction_def
  by (rule start, rule workspace_arg, intro call_rules; simp add: symlink_bound)+

lemma file_calls_kept:
  "preserves I (HardlinkFunction a b c)" "preserves I (AppendFunction a b c)"
  "preserves I (RestoreVersionFunction a b c d)" "preserves I (SetModeFunction a b c)"
  "preserves I (SetTimesFunction a b c d n)" "preserves I (ChownFunction a b c d)"
  "preserves I (OwnerSetFunction a b c)" "preserves I (SetXattrFunction a b c d n)"
  "preserves I (AclSetFunction a b c rows)" "preserves I (AclDeleteFunction a b)"
  "preserves I (AclGrantFunction a b c d e)" "preserves I (AclRevokeFunction a b c e)"
  "preserves I (RenameFunction a b c replace)" "preserves I (RemoveFunction a b recursive)"
  unfolding HardlinkFunction_def RestoreVersionFunction_def SetModeFunction_def
    SetTimesFunction_def ChownFunction_def OwnerSetFunction_def SetXattrFunction_def AclSetFunction_def
    AclDeleteFunction_def AclGrantFunction_def AclRevokeFunction_def RenameFunction_def RemoveFunction_def
  by (rule start, intro call_rules; (simp add: same_file_def; fail)?; simp?; erule frame; simp)+

lemma handle_calls_kept:
  "preserves I (HandleStageWriteFunction a n b c)" "preserves I (HandleTruncateFunction a n b)"
  "preserves I (HandlePublishFunction a n b c)" "preserves I (HandleCloseFunction a retain b)"
  "preserves I (SessionStartFunction a b)" "preserves I (SessionHeartbeatFunction a b)"
  "preserves I (SessionEndFunction a b)" "preserves I (ReclaimFunction a b)"
  "preserves I (SynchronizeFunction a b d)"
  unfolding HandleStageWriteFunction_def HandleTruncateFunction_def HandlePublishFunction_def
    HandleCloseFunction_def SessionStartFunction_def SessionHeartbeatFunction_def SessionEndFunction_def
    ReclaimFunction_def SynchronizeFunction_def
  by (rule start, intro call_rules; simp?; erule frame; simp add: Let_def)+

lemma index_calls_kept:
  "preserves I (DetectGrepIndex fts5 readonly)" "preserves I (GrepIndexFunction fts5 a)"
  unfolding DetectGrepIndex_def GrepIndexFunction_def grep_action_def EnableGrepIndex_def DisableGrepIndex_def
  by (rule start, intro preserve_intros within.rebuild_index; simp; erule frame; simp)+

lemma handle_create_kept: "preserves I (HandleCreateFunction r a b c ug d e)"
  unfolding HandleCreateFunction_def
  by (rule start) (intro preserves_args find_workspace call_rules within.create_inode within.update;
      (simp add: same_file_def; fail)?)

lemma handle_open_kept: "preserves I (HandleOpenFunction r a b c d e)"
  unfolding HandleOpenFunction_def
  by (rule start) (intro preserves_args find_workspace workspace_by_id call_rules; simp)

lemma transaction_calls_kept:
  "preserves I (HandleAppendFunction a b c)" "preserves I (HandlePublishCloseFunction a n b)"
  "preserves I (PublishCloseAllFunction a b n)"
  unfolding HandleAppendFunction_def HandlePublishCloseFunction_def PublishCloseAllFunction_def
  by (rule start, (intro preserve_intros preserves_savepoint_keeps keep_intros within.publish_handle
      within.base_rules[THEN preserves_keeps] within.keeps_frame; simp?; erule frame; simp))+

lemma discard_kept: "preserves I m \<Longrightarrow> preserves I (discard m)"
  unfolding discard_def by (intro preserve_intros)

lemmas calls_kept = workspace_create_kept creating_calls_kept file_calls_kept handle_calls_kept
  handle_create_kept handle_open_kept transaction_calls_kept index_calls_kept

lemma call_kept: "preserves I (call_op c)"
  by (cases c) (simp_all add: discard_kept calls_kept)

end

section \<open>Executions\<close>

text \<open>
  The databases that a sequence of calls can lead to, whatever their arguments and results; between
  two calls the clock, and the process that makes the calls, may be others.
\<close>

inductive execution :: "db \<Rightarrow> db \<Rightarrow> bool" for s0 where
  start: "execution s0 s0"
| call: "execution s0 s \<Longrightarrow> execution s0 (snd (call_op c s))"
| environment: "execution s0 s \<Longrightarrow> execution s0 (s\<lparr>clock := t, process_uid := u, process_gid := g\<rparr>)"

context global_invariant
begin

lemma execution_kept: "execution s0 s \<Longrightarrow> I s0 \<Longrightarrow> I s"
proof (induction rule: execution.induct)
  case (call s c)
  then show ?case using call_kept by (simp add: preserves_def)
next
  case (environment s t u g)
  then show ?case by (auto elim: frame)
qed

end

end
