(* ===== verification/Vex_Safety.thy ===== *)
theory Vex_Safety
  imports Vex_Laws
begin

text \<open>
  Invariants of every execution, each an instance of the laws in \<open>Vex_Laws\<close>.
\<close>

section \<open>Workspaces stay\<close>

lemma quota_ids [simp]: "w_id (quota_add i w) = w_id w" "w_id (quota_sub i w) = w_id w"
  by (simp_all add: quota_add_def quota_sub_def)

lemma fold_map_ids:
  "(\<And>x w. w_id (g x w) = w_id w) \<Longrightarrow> map w_id (fold (\<lambda>x. map (g x)) xs ws) = map w_id ws"
  by (induction xs arbitrary: ws) (simp_all add: o_def)

lemma map_ids_eq: "map w_id ws = map w_id ws' \<Longrightarrow> w_id ` set ws = w_id ` set ws'"
  by (metis set_map)

lemma workspace_ids_update_inodes [simp]: "workspace_ids (update_inodes p f s) = workspace_ids s"
  by (rule map_ids_eq) (simp add: update_inodes_def fold_map_ids)

lemma workspace_ids_insert_inode [simp]: "workspace_ids (insert_inode i s) = workspace_ids s"
  by (simp add: insert_inode_def image_image)

lemma workspace_ids_map:
  "(\<And>w. w_id (f w) = w_id w) \<Longrightarrow> w_id ` set (map f ws) = w_id ` set ws"
  by (auto simp: image_image)

lemma workspace_ids_set_root [simp]: "workspace_ids (set_root ws r s) = workspace_ids s"
  by (rule map_ids_eq) (simp add: set_root_def)

lemma workspaces_flush [simp]: "workspaces (FlushHistoryChanges ws c s) = workspaces s"
  by (simp add: FlushHistoryChanges_def)

interpretation workspaces_stay: table_invariant "\<lambda>s. W \<subseteq> workspace_ids s" "\<lambda>_. True" for W
proof
  show "preserves (\<lambda>s. W \<subseteq> workspace_ids s) (CreateInode ws k mode)" for ws k mode
    unfolding CreateInode_def by (intro preserve_intros) simp
  show "preserves (\<lambda>s. W \<subseteq> workspace_ids s) (insert_dentry d)" for d
    unfolding insert_dentry_def by (intro preserve_intros) simp
  show "preserves (\<lambda>s. W \<subseteq> workspace_ids s) (move_dentry ws parent name parent' name')"
    for ws parent name parent' name'
    unfolding move_dentry_def by (intro preserve_intros) (simp add: Let_def)
  show "preserves (\<lambda>s. W \<subseteq> workspace_ids s) (CreateCommitInTransaction w message)" for w message
    unfolding CreateCommitInTransaction_def set_head_def
    by (intro preserve_intros) (simp_all add: workspace_ids_map del: set_map)
  show "preserves (\<lambda>s. W \<subseteq> workspace_ids s) (insert_workspace name)" for name
    unfolding insert_workspace_def by (intro preserve_intros) auto
  show "preserves (\<lambda>s. W \<subseteq> workspace_ids s) (insert_version inode no c m n checksum source)"
    for inode no c m n checksum source
    unfolding insert_version_def by (intro preserve_intros) simp
  show "preserves (\<lambda>s. W \<subseteq> workspace_ids s) (StoreManifest ws inode previous content)"
    for ws inode previous content
    by (rule StoreManifest_frame) (simp add: ignores_content_def)
  show "preserves (\<lambda>s. W \<subseteq> workspace_ids s) (StoreManifestFromStaging ws inode previous handle st)"
    for ws inode previous handle st
    by (rule StoreManifestFromStaging_frame) (simp add: ignores_content_def)
qed (auto simp: core_def delete_dentries_def)

text \<open>Two invariants together, and an invariant that needs no known workspace.\<close>

lemma db_invariant_conj:
  assumes j: "db_invariant J (\<lambda>_. True)" and k: "db_invariant K (\<lambda>_. True)"
  shows "db_invariant (\<lambda>s. J s \<and> K s) known"
proof
  show "preserves (\<lambda>s. J s \<and> K s) (CreateInode ws k mode)" for ws k mode
    using db_invariant.create_inode[OF j] db_invariant.create_inode[OF k] by (simp add: preserves_conj)
  show "keeps (\<lambda>s. J s \<and> K s) (StoreVersionFromStaging w node handle g message owned)"
    for w node handle g message owned
    using db_invariant.publish[OF j, of w node handle g message owned]
      db_invariant.publish[OF k, of w node handle g message owned] unfolding keeps_def by blast
qed (intro preserves_conj conjI; (erule conjE)?;
     fast intro: j[THEN db_invariant.frame] k[THEN db_invariant.frame] j[THEN db_invariant.update] k[THEN db_invariant.update]
       j[THEN db_invariant.add_entry] k[THEN db_invariant.add_entry] j[THEN db_invariant.remove_entries]
       k[THEN db_invariant.remove_entries] j[THEN db_invariant.move_entry] k[THEN db_invariant.move_entry]
       j[THEN db_invariant.commit] k[THEN db_invariant.commit] j[THEN db_invariant.store] k[THEN db_invariant.store]
       j[THEN db_invariant.append] k[THEN db_invariant.append]
       j[THEN db_invariant.restore] k[THEN db_invariant.restore] j[THEN db_invariant.add_workspace]
       k[THEN db_invariant.add_workspace] j[THEN db_invariant.root] k[THEN db_invariant.root])+

lemma global_invariantI: "db_invariant I (\<lambda>_. True) \<Longrightarrow> global_invariant I"
  by (intro global_invariant.intro db_invariant_conj workspaces_stay.as_db_invariant)

text \<open>The laws for an invariant over the tables, with the existing workspaces left out.\<close>

lemma core_workspaces: "core t = core s \<Longrightarrow> workspaces t = workspaces s"
  by (simp add: core_def)

lemma workspaces_delete_dentries [simp]: "workspaces (delete_dentries q s) = workspaces s"
  by (simp add: delete_dentries_def)

locale statement_invariant =
  fixes I :: "db \<Rightarrow> bool"
  assumes frame: "I s \<Longrightarrow> core t = core s \<Longrightarrow> I t"
    and create_inode: "I s \<Longrightarrow> ws \<in> workspace_ids s \<Longrightarrow> I (snd (CreateInode ws k mode s))"
    and update: "(\<And>i. p i \<Longrightarrow> same_row i (f i)) \<Longrightarrow> I s \<Longrightarrow> I (update_inodes p f s)"
    and add_entry: "preserves I (insert_dentry d)"
    and remove_entries: "I s \<Longrightarrow> I (delete_dentries q s)"
    and move_entry: "preserves I (move_dentry ws parent name parent' name')"
    and commit: "preserves I (CreateCommitInTransaction w message)"
    and manifest: "preserves I (StoreManifest ws inode previous content)"
    and staged_manifest: "preserves I (StoreManifestFromStaging ws inode previous handle st)"
    and version: "preserves I (insert_version inode no c m n checksum source)"
    and add_workspace: "preserves I (insert_workspace name)"
    and root: "I s \<Longrightarrow> I (set_root ws r s)"
begin

lemma create_inode_known:
  "ws \<in> W \<Longrightarrow> preserves (\<lambda>s. I s \<and> W \<subseteq> workspace_ids s) (CreateInode ws k mode)"
  using workspaces_stay.create_inode[of W ws k mode] by (auto simp: preserves_def intro: create_inode)

lemma tables: "table_invariant (\<lambda>s. I s \<and> W \<subseteq> workspace_ids s) (\<lambda>ws. ws \<in> W)"
proof
  show "I t \<and> W \<subseteq> workspace_ids t" if "I s \<and> W \<subseteq> workspace_ids s" "core t = core s" for s t
    using that frame[of s t] core_workspaces[of t s] by simp
qed (simp_all add: create_inode_known update remove_entries root preserves_conj add_entry workspaces_stay.add_entry
    move_entry workspaces_stay.move_entry commit workspaces_stay.commit manifest workspaces_stay.manifest
    version workspaces_stay.version staged_manifest workspaces_stay.staged_manifest
    add_workspace workspaces_stay.add_workspace)

sublocale every: global_invariant I
  by (rule global_invariant.intro) (rule table_invariant.as_db_invariant[OF tables])

end

section \<open>Published content never changes\<close>

lemma content_frame: "content_inv s0 s \<Longrightarrow> core t = core s \<Longrightarrow> content_inv s0 t"
  by (erule content_tables_inv[rotated]) (simp add: core_def content_tables_def)

lemma insert_version_content: "preserves (content_inv s0) (insert_version inode no c m n t source)"
proof (rule preservesI)
  fix s assume inv: "content_inv s0 s"
  let ?u = "snd (insert_version inode no c m n t source s)"
  have "content_wf ?u = content_wf s" "content_extends s ?u"
    by (auto simp: insert_version_def op_simps content_wf_def content_extends_def find_version_def
        find_manifest_def manifest_rows_def find_append split: option.split)
  with inv show "content_inv s0 ?u"
    unfolding content_inv_def by (blast intro: content_extends_trans)
qed

lemma content_untouched:
  "(\<And>s. content_tables (snd (m s)) = content_tables s) \<Longrightarrow> preserves (content_inv s0) m"
  by (rule preservesI) (rule content_tables_inv)

interpretation content: statement_invariant "content_inv s0" for s0
proof
  show "content_inv s0 s \<Longrightarrow> content_inv s0 (snd (CreateInode ws k mode s))" for s ws k mode
    by (erule content_tables_inv[rotated])
      (simp add: CreateInode_def insert_inode_def op_simps content_tables_def split: sum.split)
  show "preserves (content_inv s0) (insert_dentry d)" for d
    by (rule content_untouched) (auto simp: insert_dentry_def op_simps content_tables_def)
  show "preserves (content_inv s0) (move_dentry ws parent name parent' name')" for ws parent name parent' name'
    by (rule content_untouched)
      (auto simp: move_dentry_def op_simps content_tables_def Let_def split: option.split)
  show "preserves (content_inv s0) (CreateCommitInTransaction w message)" for w message
    by (rule content_untouched)
      (auto simp: CreateCommitInTransaction_def set_head_def FlushHistoryChanges_def op_simps content_tables_def split: option.split)
  show "preserves (content_inv s0) (insert_workspace name)" for name
    by (rule content_untouched) (auto simp: insert_workspace_def op_simps content_tables_def)
  show "content_inv s0 s \<Longrightarrow> content_inv s0 (update_inodes p f s)" for p f s
    by (erule content_tables_inv[rotated]) (simp add: update_inodes_def content_tables_def)
  show "content_inv s0 s \<Longrightarrow> content_inv s0 (delete_dentries q s)" for q s
    by (erule content_tables_inv[rotated]) (simp add: delete_dentries_def content_tables_def)
  show "content_inv s0 s \<Longrightarrow> content_inv s0 (set_root ws r s)" for ws r s
    by (erule content_tables_inv[rotated]) (simp add: set_root_def content_tables_def)
qed (rule content_frame StoreManifest_content StoreManifestFromStaging_content insert_version_content; assumption)+

section \<open>The live counters\<close>

text \<open>What an inode adds to the file count and to the byte count of a workspace.\<close>

definition file_load :: "nat \<Rightarrow> inode_row \<Rightarrow> int" where
  "file_load ws i = (if i_workspace i = ws \<and> counted i then 1 else 0)"

definition byte_load :: "nat \<Rightarrow> inode_row \<Rightarrow> int" where
  "byte_load ws i = (if i_workspace i = ws \<and> counted i then i_size i else 0)"

definition quota_inv :: "db \<Rightarrow> bool" where
  "quota_inv s \<longleftrightarrow> distinct (map w_id (workspaces s)) \<and> i_workspace ` set (inodes s) \<subseteq> workspace_ids s \<and>
     (\<forall>w \<in> set (workspaces s).
        w_live_files w = sum_list (map (file_load (w_id w)) (inodes s)) \<and>
        w_live_bytes w = sum_list (map (byte_load (w_id w)) (inodes s)))"

lemma quota_add_counts [simp]:
  "w_live_files (quota_add i w) = w_live_files w + file_load (w_id w) i"
  "w_live_bytes (quota_add i w) = w_live_bytes w + byte_load (w_id w) i"
  by (auto simp: quota_add_def file_load_def byte_load_def)

lemma quota_sub_counts [simp]:
  "w_live_files (quota_sub i w) = w_live_files w - file_load (w_id w) i"
  "w_live_bytes (quota_sub i w) = w_live_bytes w - byte_load (w_id w) i"
  by (auto simp: quota_sub_def file_load_def byte_load_def)

lemma fold_map_commute: "fold (\<lambda>x. map (g x)) xs ws = map (fold g xs) ws"
  by (induction xs arbitrary: ws) (simp_all add: o_def)

lemma fold_quota:
  "w_id (fold (\<lambda>i w. quota_add (f i) (quota_sub i w)) xs w) = w_id w"
  "w_live_files (fold (\<lambda>i w. quota_add (f i) (quota_sub i w)) xs w) =
     w_live_files w + sum_list (map (\<lambda>i. file_load (w_id w) (f i) - file_load (w_id w) i) xs)"
  "w_live_bytes (fold (\<lambda>i w. quota_add (f i) (quota_sub i w)) xs w) =
     w_live_bytes w + sum_list (map (\<lambda>i. byte_load (w_id w) (f i) - byte_load (w_id w) i) xs)"
  by (induction xs arbitrary: w) simp_all

lemma sum_updated:
  fixes g :: "'a \<Rightarrow> int"
  shows "sum_list (map g (map (\<lambda>i. if p i then f i else i) xs)) =
     sum_list (map g xs) + sum_list (map (\<lambda>i. g (f i) - g i) (filter p xs))"
  by (induction xs) auto

lemma quota_update:
  assumes "quota_inv s" "\<And>i. p i \<Longrightarrow> i_workspace (f i) = i_workspace i"
  shows "quota_inv (update_inodes p f s)"
proof -
  let ?g = "\<lambda>i w. quota_add (f i) (quota_sub i w)"
  have w: "workspaces (update_inodes p f s) = map (fold ?g (filter p (inodes s))) (workspaces s)"
    by (simp add: update_inodes_def fold_map_commute)
  have i: "inodes (update_inodes p f s) = map (\<lambda>i. if p i then f i else i) (inodes s)"
    by (simp add: update_inodes_def)
  have "map w_id (workspaces (update_inodes p f s)) = map w_id (workspaces s)"
    unfolding w by (simp add: fold_quota(1))
  then have ids: "distinct (map w_id (workspaces (update_inodes p f s)))"
      "workspace_ids (update_inodes p f s) = workspace_ids s"
    using assms(1) by (simp_all add: quota_inv_def)
  have inode_ws: "i_workspace ` set (inodes (update_inodes p f s)) \<subseteq> workspace_ids s"
    using assms by (auto simp: i quota_inv_def split: if_splits)
  have counts: "w_live_files u = sum_list (map (file_load (w_id u)) (inodes (update_inodes p f s))) \<and>
      w_live_bytes u = sum_list (map (byte_load (w_id u)) (inodes (update_inodes p f s)))"
    if "u \<in> set (workspaces (update_inodes p f s))" for u
  proof -
    from that obtain v where v: "v \<in> set (workspaces s)" "u = fold ?g (filter p (inodes s)) v" by (auto simp: w)
    with assms(1) show ?thesis
      unfolding i sum_updated v(2) fold_quota by (simp add: quota_inv_def)
  qed
  from ids inode_ws counts show ?thesis unfolding quota_inv_def ids(2) by blast
qed

lemma quota_insert:
  assumes "quota_inv s" "i_workspace i \<in> workspace_ids s"
  shows "quota_inv (insert_inode i s)"
proof -
  have "map w_id (workspaces (insert_inode i s)) = map w_id (workspaces s)"
    by (simp add: insert_inode_def)
  with assms show ?thesis by (auto simp: quota_inv_def insert_inode_def image_image o_def)
qed

text \<open>The counters do not see anything but the inodes and the counters.\<close>

definition quota_view :: "db \<Rightarrow> (nat \<times> int \<times> int) list \<times> inode_row list" where
  "quota_view s = (map (\<lambda>w. (w_id w, w_live_files w, w_live_bytes w)) (workspaces s), inodes s)"

lemma quota_view_inv: "quota_view t = quota_view s \<Longrightarrow> quota_inv s \<Longrightarrow> quota_inv t"
proof -
  assume view: "quota_view t = quota_view s" and s: "quota_inv s"
  let ?c = "\<lambda>w. (w_id w, w_live_files w, w_live_bytes w)"
  from view have ws: "map ?c (workspaces t) = map ?c (workspaces s)" and same: "inodes t = inodes s"
    by (simp_all add: quota_view_def)
  from ws have "map fst (map ?c (workspaces t)) = map fst (map ?c (workspaces s))" by simp
  then have ids: "map w_id (workspaces t) = map w_id (workspaces s)" by (simp add: o_def)
  have "\<exists>v \<in> set (workspaces s). ?c w = ?c v" if "w \<in> set (workspaces t)" for w
    using that ws by (metis (no_types, lifting) image_iff list.set_map)
  with s show "quota_inv t" unfolding quota_inv_def same ids map_ids_eq[OF ids] by fastforce
qed

lemma quota_untouched:
  "(\<And>s. quota_view (snd (m s)) = quota_view s) \<Longrightarrow> preserves quota_inv m"
  by (rule preservesI) (rule quota_view_inv)

lemma quota_view_frame: "ignores_content (\<lambda>s. quota_inv s)"
  unfolding ignores_content_def by (auto elim!: quota_view_inv[rotated] simp: quota_view_def)

lemma quota_new_workspace: "preserves quota_inv (insert_workspace name)"
proof -
  let ?row = "\<lambda>s. new_workspace_row (next_rowid (map w_id (workspaces s))) name"
  have none: "sum_list (map (file_load ws) is) = 0" "sum_list (map (byte_load ws) is) = 0"
    if "ws \<notin> i_workspace ` set is" for ws "is"
    using that by (induction "is") (auto simp: file_load_def byte_load_def)
  have "quota_inv (s\<lparr>workspaces := workspaces s @ [?row s]\<rparr>)" if "quota_inv s" for s
  proof -
    have "next_rowid (map w_id (workspaces s)) \<notin> i_workspace ` set (inodes s)"
      using that next_rowid_fresh_image[of w_id "workspaces s"] unfolding quota_inv_def by blast
    from none[OF this] that show ?thesis by (auto simp: quota_inv_def new_workspace_row_def)
  qed
  then show ?thesis unfolding insert_workspace_def by (auto simp: preserves_def op_simps)
qed

lemma quota_create_inode:
  "quota_inv s \<Longrightarrow> ws \<in> workspace_ids s \<Longrightarrow> quota_inv (snd (CreateInode ws k mode s))"
  by (auto simp: CreateInode_def op_simps intro!: quota_insert split: sum.split)

lemma quota_set_root: "quota_inv s \<Longrightarrow> quota_inv (set_root ws r s)"
  by (erule quota_view_inv[rotated]) (simp add: quota_view_def set_root_def)

lemma quota_ops:
  "preserves quota_inv (insert_dentry d)" "preserves quota_inv (move_dentry ws parent name parent' name')"
  "preserves quota_inv (CreateCommitInTransaction w message)"
  "preserves quota_inv (insert_version inode no c m n t source)"
  by (rule quota_untouched; simp add: insert_dentry_def move_dentry_def CreateCommitInTransaction_def set_head_def
      FlushHistoryChanges_def insert_version_def op_simps quota_view_def Let_def split: option.split)+

lemma quota_steps:
  "quota_inv s \<Longrightarrow> core t = core s \<Longrightarrow> quota_inv t" "quota_inv s \<Longrightarrow> quota_inv (delete_dentries q s)"
  by (erule quota_view_inv[rotated]; simp add: core_def quota_view_def delete_dentries_def)+

interpretation quota: statement_invariant quota_inv
proof
  show "quota_inv s \<Longrightarrow> ws \<in> workspace_ids s \<Longrightarrow> quota_inv (snd (CreateInode ws k mode s))" for s ws k mode
    by (rule quota_create_inode)
qed (auto intro: quota_ops quota_new_workspace StoreManifest_frame[OF quota_view_frame]
    StoreManifestFromStaging_frame[OF quota_view_frame] quota_set_root quota_steps
    simp: quota_update same_row_def)

lemma file_load_count:
  "sum_list (map (file_load ws) xs) = int (length (filter (\<lambda>i. i_workspace i = ws \<and> counted i) xs))"
  "sum_list (map (byte_load ws) xs) = sum_list (map i_size (filter (\<lambda>i. i_workspace i = ws \<and> counted i) xs))"
  by (induction xs) (auto simp: file_load_def byte_load_def)

lemma quota_inv_empty [simp]: "quota_inv empty_db"
  by (simp add: quota_inv_def empty_db_def)

section \<open>The file quota\<close>


lemma quota_max [simp]: "w_max_files (quota_add i w) = w_max_files w" "w_max_files (quota_sub i w) = w_max_files w"
  by (simp_all add: quota_add_def quota_sub_def)












section \<open>Properties\<close>

text \<open>
  C9: No sequence of the calls of \<open>sql_call\<close>, with any arguments and any results, errors included, changes
  the content of a published version: a version that could be read keeps its bytes, whatever is written,
  renamed, restored, published or removed later.
\<close>

theorem published_content_immutable:
  assumes "content_wf s0" "ReadVersionContent s0 inode version = Inr content" "execution s0 s"
  shows "ReadVersionContent s inode version = Inr content"
proof -
  have "content_inv s0 s" using content.every.execution_kept[OF assms(3)] content_inv_start[OF assms(1)] .
  then show ?thesis using ReadVersionContent_extends[OF _ assms(2)] by (simp add: content_inv_def)
qed

theorem published_content_immutable_witness:
  "\<exists>s. content_wf s \<and> ReadVersionContent s 1 1 = Inr [1, 2, 3] \<and>
     ReadVersionContent (snd (call_op (Write (SqlText ''w'') (SqlText ''/a'') (SqlBlob [9])) s)) 1 1 = Inr [1, 2, 3]"
proof -
  obtain s where s: "content_wf s" "ReadVersionContent s 1 1 = Inr [1, 2, 3]"
    using readable_content[of "[1, 2, 3]" 1 1] no_collision_small[of "[1, 2, 3]"]
    by (auto simp: kMaxStagedBytes_def kContentChunkBytes_def)
  from published_content_immutable[OF s execution.call[OF execution.start]] s show ?thesis by blast
qed

text \<open>
  C10: Started from an empty database, after any sequence of calls the counters that a workspace row
  carries are exact: the number of its live files and symbolic links, and the sum of their sizes. The
  triggers never drift from the rows they count, on error paths too.
\<close>

theorem live_counters_exact:
  assumes "execution empty_db s" "w \<in> set (workspaces s)"
  shows "w_live_files w =
      int (length (filter (\<lambda>i. i_workspace i = w_id w \<and> i_kind i \<noteq> KDirectory \<and> i_deleted i = None) (inodes s))) \<and>
    w_live_bytes w =
      sum_list (map i_size (filter (\<lambda>i. i_workspace i = w_id w \<and> i_kind i \<noteq> KDirectory \<and> i_deleted i = None) (inodes s)))"
proof -
  have "quota_inv s" using quota.every.execution_kept[OF assms(1)] by simp
  with assms(2) show ?thesis by (simp add: quota_inv_def file_load_count counted_def)
qed

theorem live_counters_exact_witness:
  "\<exists>w \<in> set (workspaces (snd (call_op (Workspace_Create (SqlText ''w'')) empty_db))).
     w_live_files w = 0 \<and> w_live_bytes w = 0"
proof -
  let ?s = "snd (call_op (Workspace_Create (SqlText ''w'')) empty_db)"
  have run: "execution empty_db ?s" by (rule execution.call[OF execution.start])
  have "map w_id (workspaces ?s) = [1] \<and> map i_kind (inodes ?s) = [KDirectory]"
    unfolding call_op.simps snd_discard by code_simp
  then obtain w i where w: "workspaces ?s = [w]" and i: "inodes ?s = [i]" "i_kind i = KDirectory" by auto
  from live_counters_exact[OF run, of w] w i show ?thesis by simp
qed



end
