(* ===== verification/Vex_History.thy ===== *)
theory Vex_History
  imports Vex_Safety
begin

text \<open>
  The commit log and the history tables over whole executions: the commits of a workspace form one
  chain, recorded history never changes, and the history is complete: the latest recorded state of an
  inode is its current state unless the inode is marked as changed.
\<close>

section \<open>The commit log of a workspace\<close>

definition ws_log :: "db \<Rightarrow> nat \<Rightarrow> commit_row list" where
  "ws_log s ws = filter (\<lambda>c. c_workspace c = ws) (commits s)"

definition chain_parents :: "commit_row list \<Rightarrow> nat option list" where
  "chain_parents log = (if log = [] then [] else None # map (\<lambda>c. Some (c_id c)) (butlast log))"

definition chain_head :: "commit_row list \<Rightarrow> nat option" where
  "chain_head log = (if log = [] then None else Some (c_id (last log)))"

lemma chain_parents_snoc: "chain_parents (log @ [c]) = chain_parents log @ [chain_head log]"
  by (cases log rule: rev_cases) (simp_all add: chain_parents_def chain_head_def butlast_append)

lemma chain_head_snoc [simp]: "chain_head (log @ [c]) = Some (c_id c)"
  by (simp add: chain_head_def)

definition log_inv :: "db \<Rightarrow> bool" where
  "log_inv s \<longleftrightarrow> distinct (map w_id (workspaces s)) \<and> distinct (map c_id (commits s)) \<and>
     0 \<notin> c_id ` set (commits s) \<and> c_workspace ` set (commits s) \<subseteq> workspace_ids s \<and>
     (\<forall>w \<in> set (workspaces s). map c_parent (ws_log s (w_id w)) = chain_parents (ws_log s (w_id w)) \<and>
        w_head w = chain_head (ws_log s (w_id w)))"

text \<open>What the log invariant sees.\<close>

definition log_view :: "db \<Rightarrow> (nat \<times> nat option) list \<times> commit_row list" where
  "log_view s = (map (\<lambda>w. (w_id w, w_head w)) (workspaces s), commits s)"

lemma log_view_inv: "log_view t = log_view s \<Longrightarrow> log_inv s \<Longrightarrow> log_inv t"
proof -
  assume view: "log_view t = log_view s" and s: "log_inv s"
  let ?c = "\<lambda>w. (w_id w, w_head w)"
  from view have ws: "map ?c (workspaces t) = map ?c (workspaces s)" and same: "commits t = commits s"
    by (simp_all add: log_view_def)
  from ws have "map fst (map ?c (workspaces t)) = map fst (map ?c (workspaces s))" by simp
  then have ids: "map w_id (workspaces t) = map w_id (workspaces s)" by (simp add: o_def)
  have "\<exists>v \<in> set (workspaces s). ?c w = ?c v" if "w \<in> set (workspaces t)" for w
    using that ws by (metis (no_types, lifting) image_iff list.set_map)
  with s show "log_inv t" unfolding log_inv_def same ids map_ids_eq[OF ids] ws_log_def by fastforce
qed

lemma quota_head [simp]: "w_head (quota_add i w) = w_head w" "w_head (quota_sub i w) = w_head w"
  by (simp_all add: quota_add_def quota_sub_def)

lemma fold_quota_head: "w_head (fold (\<lambda>i w. quota_add (f i) (quota_sub i w)) xs w) = w_head w"
  by (induction xs arbitrary: w) simp_all

lemma log_view_ops [simp]:
  "log_view (update_inodes p f s) = log_view s" "log_view (insert_inode i s) = log_view s"
  "log_view (delete_dentries q s) = log_view s" "log_view (set_root ws r s) = log_view s"
  by (simp_all add: log_view_def update_inodes_def fold_map_commute fold_quota fold_quota_head insert_inode_def
      delete_dentries_def set_root_def)

lemma log_commit: "preserves log_inv (CreateCommitInTransaction w message)"
proof (rule preservesI)
  fix s assume s: "log_inv s"
  let ?t = "snd (CreateCommitInTransaction w message s)"
  show "log_inv ?t"
  proof (cases "find_workspace_row s (ws_id w)")
    case None
    with s show ?thesis by (simp add: CreateCommitInTransaction_run)
  next
    case (Some r)
    define c where "c = new_commit s w r message"
    define h where "h = (\<lambda>x::workspace_row. if w_id x = ws_id w then x\<lparr>w_head := Some (c_id c),
        w_floor := (case w_floor x of None \<Rightarrow> Some (c_id c) | Some f \<Rightarrow> Some f)\<rparr> else x)"
    have r: "r \<in> set (workspaces s)" "w_id r = ws_id w"
      using Some by (auto simp: find_workspace_row_def dest!: find_SomeD)
    have t: "workspaces ?t = map h (workspaces s)" "commits ?t = commits s @ [c]"
      using Some by (simp_all add: CreateCommitInTransaction_run FlushHistoryChanges_def set_head_def Let_def h_def flip: c_def)
    have hid [simp]: "w_id (h x) = w_id x" for x by (simp add: h_def)
    have cws [simp]: "c_workspace c = w_id r" by (simp add: c_def new_commit_def)
    have log: "ws_log ?t ws = ws_log s ws @ (if ws = w_id r then [c] else [])" for ws
      by (simp add: ws_log_def t)
    have parent: "c_parent c = chain_head (ws_log s (w_id r))"
      using s r(1) by (auto simp: log_inv_def c_def new_commit_def null_if_zero_def chain_head_def ws_log_def
          split: if_splits dest!: last_in_set)
    have "map w_id (workspaces ?t) = map w_id (workspaces s)" by (simp add: t)
    moreover have "map c_parent (ws_log ?t (w_id x)) = chain_parents (ws_log ?t (w_id x)) \<and>
        w_head x = chain_head (ws_log ?t (w_id x))" if "x \<in> set (workspaces ?t)" for x
    proof -
      from that obtain y where y: "y \<in> set (workspaces s)" "x = h y" by (auto simp: t)
      then have y': "map c_parent (ws_log s (w_id y)) = chain_parents (ws_log s (w_id y))"
          "w_head y = chain_head (ws_log s (w_id y))" using s by (auto simp: log_inv_def)
      show ?thesis
      proof (cases "w_id y = w_id r")
        case True
        with y' parent show ?thesis by (simp add: y(2) log chain_parents_snoc) (simp add: h_def r(2))
      next
        case False
        with y' show ?thesis by (simp add: y(2) log) (simp add: h_def r(2))
      qed
    qed
    ultimately show ?thesis
      using s r(1) unfolding log_inv_def by (auto simp: t c_def new_commit_def image_image o_def)
  qed
qed

lemma log_ops:
  "preserves log_inv (insert_dentry d)" "preserves log_inv (move_dentry ws parent name parent' name')"
  "preserves log_inv (insert_version inode no c m n t source)"
  by (rule preservesI, erule log_view_inv[rotated],
      simp add: insert_dentry_def move_dentry_def insert_version_def op_simps log_view_def Let_def split: option.split)+

lemma log_ignores: "ignores_content log_inv"
  unfolding ignores_content_def by (auto elim!: log_view_inv[rotated] simp: log_view_def)

lemma log_new_workspace: "preserves log_inv (insert_workspace name)"
proof -
  have "log_inv (s\<lparr>workspaces := workspaces s @ [new_workspace_row (next_rowid (map w_id (workspaces s))) name]\<rparr>)"
    if s: "log_inv s" for s
  proof -
    have "next_rowid (map w_id (workspaces s)) \<notin> c_workspace ` set (commits s)"
      using s next_rowid_fresh_image[of w_id "workspaces s"] unfolding log_inv_def by blast
    then have "ws_log s (next_rowid (map w_id (workspaces s))) = []"
      unfolding ws_log_def filter_empty_conv by (metis image_eqI)
    with s show ?thesis
      by (auto simp: log_inv_def new_workspace_row_def ws_log_def chain_parents_def chain_head_def)
  qed
  then show ?thesis unfolding insert_workspace_def by (auto simp: preserves_def op_simps)
qed

interpretation log: statement_invariant log_inv
proof
  show "log_inv s \<Longrightarrow> core t = core s \<Longrightarrow> log_inv t" for s t
    by (erule log_view_inv[rotated]) (simp add: core_def log_view_def)
  show "log_inv s \<Longrightarrow> log_inv (snd (CreateInode ws k mode s))" for s ws k mode
    by (auto simp: CreateInode_def op_simps elim!: log_view_inv[rotated] split: sum.split)
qed (auto intro: log_ops log_commit log_new_workspace StoreManifest_frame[OF log_ignores]
    StoreManifestFromStaging_frame[OF log_ignores] elim: log_view_inv[rotated])

lemma log_inv_empty [simp]: "log_inv empty_db"
  by (simp add: log_inv_def empty_db_def)

section \<open>Recorded history never changes\<close>

lemma replace_rows_fresh:
  "(\<And>r n. r \<in> set old \<Longrightarrow> n \<in> set new \<Longrightarrow> key r \<noteq> key n) \<Longrightarrow> replace_rows key new old = old @ new"
  by (auto simp: replace_rows_def intro!: filter_True)

lemma image_avoid: "f ` A \<subseteq> B \<Longrightarrow> c \<notin> B \<Longrightarrow> x \<in> A \<Longrightarrow> f x = c \<Longrightarrow> P"
  by auto

text \<open>Every row of the history belongs to a commit.\<close>

definition states_of_commits :: "db \<Rightarrow> bool" where
  "states_of_commits s \<longleftrightarrow> is_commit ` set (inode_states s) \<subseteq> c_id ` set (commits s) \<and>
     ds_commit ` set (dentry_states s) \<subseteq> c_id ` set (commits s) \<and>
     xs_commit ` set (xattr_states s) \<subseteq> c_id ` set (commits s) \<and>
     as_commit ` set (acl_states s) \<subseteq> c_id ` set (commits s)"

definition extends_history :: "db \<Rightarrow> db \<Rightarrow> bool" where
  "extends_history s0 s \<longleftrightarrow> prefix (commits s0) (commits s) \<and> prefix (inode_states s0) (inode_states s) \<and>
     prefix (dentry_states s0) (dentry_states s) \<and> prefix (xattr_states s0) (xattr_states s) \<and>
     prefix (acl_states s0) (acl_states s)"

definition history_inv :: "db \<Rightarrow> db \<Rightarrow> bool" where
  "history_inv s0 s \<longleftrightarrow> states_of_commits s \<and> extends_history s0 s"

lemma flushed_commit:
  "r \<in> set (flushed_inodes s ws c) \<Longrightarrow> is_commit r = c \<and> \<not> unpublished (is_row r)"
  "d \<in> set (flushed_dentries s ws c) \<Longrightarrow> ds_commit d = c"
  "x \<in> set (flushed_xattrs s ws c) \<Longrightarrow> xs_commit x = c"
  "a \<in> set (flushed_acl s ws c) \<Longrightarrow> as_commit a = c"
  by (auto simp: flushed_inodes_def flushed_dentries_def flushed_xattrs_def flushed_acl_def split: option.splits)

lemma flush_appends:
  assumes "states_of_commits s" "c \<notin> c_id ` set (commits s)"
    and t: "inode_states t = inode_states s" "dentry_states t = dentry_states s" "xattr_states t = xattr_states s"
      "acl_states t = acl_states s"
  shows "inode_states (FlushHistoryChanges ws c t) = inode_states s @ flushed_inodes t ws c"
    "dentry_states (FlushHistoryChanges ws c t) = dentry_states s @ flushed_dentries t ws c"
    "xattr_states (FlushHistoryChanges ws c t) = xattr_states s @ flushed_xattrs t ws c"
    "acl_states (FlushHistoryChanges ws c t) = acl_states s @ flushed_acl t ws c"
  using assms(1,2) unfolding states_of_commits_def
  by (auto simp: FlushHistoryChanges_def t is_key_def ds_key_def xs_key_def as_key_def
      dest!: flushed_commit intro!: replace_rows_fresh elim: image_avoid)

text \<open>What the history invariant sees.\<close>

definition history_view :: "db \<Rightarrow> commit_row list \<times> inode_state_row list \<times> dentry_state_row list \<times>
    xattr_state_row list \<times> acl_state_row list" where
  "history_view s = (commits s, inode_states s, dentry_states s, xattr_states s, acl_states s)"

lemma history_view_inv: "history_view t = history_view s \<Longrightarrow> history_inv s0 s \<Longrightarrow> history_inv s0 t"
  by (simp add: history_view_def history_inv_def states_of_commits_def extends_history_def)

lemma history_view_ops [simp]:
  "history_view (update_inodes p f s) = history_view s" "history_view (insert_inode i s) = history_view s"
  "history_view (delete_dentries q s) = history_view s" "history_view (set_root ws r s) = history_view s"
  by (simp_all add: history_view_def update_inodes_def insert_inode_def delete_dentries_def set_root_def)

lemma history_commit: "preserves (history_inv s0) (CreateCommitInTransaction w message)"
proof (rule preservesI)
  fix s assume s: "history_inv s0 s"
  let ?t = "snd (CreateCommitInTransaction w message s)"
  show "history_inv s0 ?t"
  proof (cases "find_workspace_row s (ws_id w)")
    case None
    with s show ?thesis by (simp add: CreateCommitInTransaction_run)
  next
    case (Some r)
    define c where "c = new_commit s w r message"
    let ?s1 = "s\<lparr>commits := commits s @ [c]\<rparr>"
    let ?u = "FlushHistoryChanges (ws_id w) (c_id c) ?s1"
    have fresh: "c_id c \<notin> c_id ` set (commits s)" by (simp add: c_def new_commit_def)
    have view: "history_view ?t = history_view ?u"
      using Some by (simp add: CreateCommitInTransaction_run history_view_def set_head_def Let_def flip: c_def)
    have commits: "commits ?u = commits s @ [c]" by (simp add: FlushHistoryChanges_def)
    have old: "states_of_commits s" using s by (simp add: history_inv_def)
    have rows: "inode_states ?u = inode_states s @ flushed_inodes ?s1 (ws_id w) (c_id c)"
        "dentry_states ?u = dentry_states s @ flushed_dentries ?s1 (ws_id w) (c_id c)"
        "xattr_states ?u = xattr_states s @ flushed_xattrs ?s1 (ws_id w) (c_id c)"
        "acl_states ?u = acl_states s @ flushed_acl ?s1 (ws_id w) (c_id c)"
      by (rule flush_appends[OF old fresh]; simp)+
    have "history_inv s0 ?u"
      using s by (auto simp: history_inv_def states_of_commits_def extends_history_def rows commits
          dest!: flushed_commit)
    then show ?thesis by (rule history_view_inv[OF view])
  qed
qed




section \<open>The history is complete\<close>

definition recorded :: "db \<Rightarrow> nat \<times> nat \<Rightarrow> inode_row list" where
  "recorded s k = map is_row (filter (\<lambda>r. inode_key (is_row r) = k) (inode_states s))"

definition complete_inv :: "db \<Rightarrow> bool" where
  "complete_inv s \<longleftrightarrow> distinct (map i_id (inodes s)) \<and> states_of_commits s \<and>
     (\<forall>r \<in> set (inode_states s). \<not> unpublished (is_row r)) \<and>
     (\<forall>i \<in> set (inodes s). unpublished i \<or> inode_key i \<in> set (dirty_inodes s) \<or>
        recorded s (inode_key i) \<noteq> [] \<and> last (recorded s (inode_key i)) = i)"

text \<open>What the invariant sees.\<close>

definition complete_view :: "db \<Rightarrow> inode_row list \<times> (nat \<times> nat) list \<times> commit_row list \<times> inode_state_row list \<times>
    dentry_state_row list \<times> xattr_state_row list \<times> acl_state_row list" where
  "complete_view s = (inodes s, dirty_inodes s, history_view s)"

lemma complete_view_inv: "complete_view t = complete_view s \<Longrightarrow> complete_inv s \<Longrightarrow> complete_inv t"
  by (simp add: complete_view_def history_view_def complete_inv_def states_of_commits_def recorded_def)

lemma set_add_key [simp]: "set (add_key k ks) = insert k (set ks)"
  by (auto simp: add_key_def)

lemma set_fold_add_key: "set (fold (\<lambda>x. add_key (g x)) xs ks) = g ` set xs \<union> set ks"
  by (induction xs arbitrary: ks) auto

lemma complete_update:
  assumes s: "complete_inv s" and f: "\<And>i. p i \<Longrightarrow> same_row i (f i)"
  shows "complete_inv (update_inodes p f s)"
proof -
  let ?g = "\<lambda>i. if p i then f i else i"
  have "map i_id (map ?g (inodes s)) = map i_id (inodes s)" using f by (auto simp: same_row_def)
  then have ids: "distinct (map i_id (map ?g (inodes s)))" using s by (simp only: complete_inv_def)
  have dirty: "set (dirty_inodes (update_inodes p f s)) = (\<lambda>i. inode_key (f i)) ` {i \<in> set (inodes s). p i} \<union> set (dirty_inodes s)"
    by (simp add: update_inodes_def set_fold_add_key)
  have "unpublished j \<or> inode_key j \<in> set (dirty_inodes (update_inodes p f s)) \<or>
      recorded s (inode_key j) \<noteq> [] \<and> last (recorded s (inode_key j)) = j" if "j \<in> set (map ?g (inodes s))" for j
    using that s by (auto simp: dirty complete_inv_def)
  with s ids show ?thesis
    by (simp add: complete_inv_def states_of_commits_def recorded_def update_inodes_def)
qed

lemma complete_insert:
  assumes s: "complete_inv s" and i: "i_id i \<notin> i_id ` set (inodes s)"
  shows "complete_inv (insert_inode i s)"
  using assms by (auto simp: complete_inv_def insert_inode_def states_of_commits_def recorded_def)

lemma flushed_inodes_of:
  assumes ids: "distinct (map i_id (inodes s))" and i: "i \<in> set (inodes s)" and r: "r \<in> set (flushed_inodes s ws c)"
    and key: "inode_key (is_row r) = inode_key i"
  shows "is_row r = i" "inode_key i \<in> set (dirty_inodes s)"
proof -
  from r have row: "is_row r \<in> set (inodes s)" "inode_key (is_row r) \<in> set (dirty_inodes s)"
    by (auto simp: flushed_inodes_def inode_key_def)
  with key show "inode_key i \<in> set (dirty_inodes s)" by simp
  from key have "i_id (is_row r) = i_id i" by (simp add: inode_key_def)
  with ids i row(1) show "is_row r = i" by (auto simp: distinct_map dest: inj_onD)
qed

lemma complete_commit: "preserves complete_inv (CreateCommitInTransaction w message)"
proof (rule preservesI)
  fix s assume s: "complete_inv s"
  let ?t = "snd (CreateCommitInTransaction w message s)"
  show "complete_inv ?t"
  proof (cases "find_workspace_row s (ws_id w)")
    case None
    with s show ?thesis by (simp add: CreateCommitInTransaction_run)
  next
    case (Some r)
    define c where "c = new_commit s w r message"
    let ?s1 = "s\<lparr>commits := commits s @ [c]\<rparr>"
    let ?u = "FlushHistoryChanges (ws_id w) (c_id c) ?s1"
    let ?new = "flushed_inodes ?s1 (ws_id w) (c_id c)"
    have fresh: "c_id c \<notin> c_id ` set (commits s)" by (simp add: c_def new_commit_def)
    have view: "complete_view ?t = complete_view ?u"
      using Some by (simp add: CreateCommitInTransaction_run complete_view_def history_view_def set_head_def Let_def flip: c_def)
    have old: "states_of_commits s" "distinct (map i_id (inodes ?s1))" using s by (simp_all add: complete_inv_def)
    have "history_inv s s" using old by (simp add: history_inv_def extends_history_def)
    then have "history_inv s ?t" using history_commit by (simp add: preserves_def)
    then have states: "states_of_commits ?u"
      using view by (simp add: history_inv_def states_of_commits_def complete_view_def history_view_def)
    have rows: "inode_states ?u = inode_states s @ ?new" by (rule flush_appends(1)[OF old(1) fresh]) simp_all
    have rec: "recorded ?u k = recorded s k @ map is_row (filter (\<lambda>r. inode_key (is_row r) = k) ?new)" for k
      by (simp add: recorded_def rows)
    have latest: "unpublished i \<or> inode_key i \<in> set (dirty_inodes ?u) \<or>
        recorded ?u (inode_key i) \<noteq> [] \<and> last (recorded ?u (inode_key i)) = i" if i: "i \<in> set (inodes s)" for i
    proof -
      let ?mine = "filter (\<lambda>r. inode_key (is_row r) = inode_key i) ?new"
      have mine: "is_row r = i" if "r \<in> set ?mine" for r
        using that flushed_inodes_of(1)[OF old(2), of i r "ws_id w" "c_id c"] i by simp
      consider "unpublished i" | "\<not> unpublished i" "inode_key i \<in> set (dirty_inodes s)" "i_workspace i = ws_id w"
        | "\<not> unpublished i" "inode_key i \<in> set (dirty_inodes s)" "i_workspace i \<noteq> ws_id w"
        | "\<not> unpublished i" "inode_key i \<notin> set (dirty_inodes s)" by blast
      then show ?thesis
      proof cases
        case 2
        then have "\<lparr>is_commit = c_id c, is_row = i\<rparr> \<in> set ?mine"
          using i by (auto simp: flushed_inodes_def inode_key_def)
        then have "?mine \<noteq> []" by (metis empty_iff empty_set)
        moreover from this have "is_row (last ?mine) = i" using mine last_in_set by blast
        ultimately show ?thesis by (simp add: rec last_map)
      next
        case 3
        then have "inode_key i \<in> set (dirty_inodes ?u)" by (simp add: FlushHistoryChanges_def inode_key_def)
        then show ?thesis by simp
      next
        case 4
        have "?mine = []" using flushed_inodes_of(2)[OF old(2), of i] i 4(2) by (auto simp: filter_empty_conv)
        with 4 s i show ?thesis by (auto simp: rec complete_inv_def)
      qed simp
    qed
    have same: "inodes ?u = inodes s" by (simp add: FlushHistoryChanges_def)
    have "complete_inv ?u"
      using s states latest unfolding complete_inv_def same by (auto simp: rows dest: flushed_commit)
    then show ?thesis by (rule complete_view_inv[OF view])
  qed
qed

lemma complete_ops:
  "preserves complete_inv (insert_dentry d)" "preserves complete_inv (move_dentry ws parent name parent' name')"
  "preserves complete_inv (insert_version inode no c m n t source)"
  "preserves complete_inv (insert_workspace name)"
  by (rule preservesI, erule complete_view_inv[rotated],
      simp add: insert_dentry_def move_dentry_def insert_version_def insert_workspace_def op_simps complete_view_def
        history_view_def Let_def split: option.split)+

lemma complete_ignores: "ignores_content complete_inv"
  unfolding ignores_content_def by (auto elim!: complete_view_inv[rotated] simp: complete_view_def history_view_def)

interpretation complete: statement_invariant complete_inv
proof
  show "complete_inv s \<Longrightarrow> core t = core s \<Longrightarrow> complete_inv t" for s t
    by (erule complete_view_inv[rotated]) (simp add: core_def complete_view_def history_view_def)
  show "complete_inv s \<Longrightarrow> complete_inv (snd (CreateInode ws k mode s))" for s ws k mode
    by (auto simp: CreateInode_def op_simps intro!: complete_insert split: sum.split)
  show "complete_inv s \<Longrightarrow> complete_inv (delete_dentries q s)" for s q
    by (erule complete_view_inv[rotated]) (simp add: delete_dentries_def complete_view_def history_view_def)
  show "complete_inv s \<Longrightarrow> complete_inv (set_root ws r s)" for s ws r
    by (erule complete_view_inv[rotated]) (simp add: set_root_def complete_view_def history_view_def)
qed (auto intro: complete_ops complete_commit complete_update StoreManifest_frame[OF complete_ignores]
    StoreManifestFromStaging_frame[OF complete_ignores])

lemma complete_inv_empty [simp]: "complete_inv empty_db"
  by (simp add: complete_inv_def empty_db_def states_of_commits_def)

section \<open>Properties\<close>

text \<open>
  C12: The commits of a workspace form one chain. After any sequence of calls from an empty database,
  the first commit of the workspace has no parent, every later one has the commit made just before it
  as its parent, and the head of the workspace is its newest commit.
\<close>

theorem commit_log_linear:
  assumes "execution empty_db s" "w \<in> set (workspaces s)"
  shows "let log = filter (\<lambda>c. c_workspace c = w_id w) (commits s)
    in map c_parent log = (if log = [] then [] else None # map (\<lambda>c. Some (c_id c)) (butlast log)) \<and>
       w_head w = (if log = [] then None else Some (c_id (last log))) \<and> distinct (map c_id log)"
proof -
  have "log_inv s" using log.every.execution_kept[OF assms(1)] by simp
  with assms(2) show ?thesis
    by (auto simp: Let_def log_inv_def ws_log_def chain_parents_def chain_head_def distinct_map_filter split: if_splits)
qed

theorem commit_log_linear_witness:
  "\<exists>w \<in> set (workspaces (snd (call_op (Workspace_Create (SqlText ''w'')) empty_db))). w_head w = Some 1"
proof -
  let ?s = "snd (call_op (Workspace_Create (SqlText ''w'')) empty_db)"
  have "map w_id (workspaces ?s) = [1] \<and> map (\<lambda>c. (c_id c, c_workspace c)) (commits ?s) = [(1, 1)]"
    unfolding call_op.simps snd_discard by code_simp
  then obtain w c where w: "workspaces ?s = [w]" "w_id w = 1" and c: "commits ?s = [c]" "c_workspace c = 1" "c_id c = 1"
    by auto
  from commit_log_linear[OF execution.call[OF execution.start], of w "Workspace_Create (SqlText ''w'')"] w c
  show ?thesis by (simp add: Let_def)
qed



text \<open>
  C14: The history is complete, and holds nothing that was never published. After any sequence of calls
  from an empty database, an inode that is not an unpublished file is either marked as changed or its
  latest recorded state is exactly its current row; no recorded state is that of an unpublished file.
\<close>

theorem history_complete:
  assumes "execution empty_db s"
  shows "(\<forall>i \<in> set (inodes s). \<not> unpublished i \<and> inode_key i \<notin> set (dirty_inodes s) \<longrightarrow>
      (let rows = filter (\<lambda>r. inode_key (is_row r) = inode_key i) (inode_states s)
       in rows \<noteq> [] \<and> is_row (last rows) = i)) \<and>
    (\<forall>r \<in> set (inode_states s). \<not> unpublished (is_row r))"
proof -
  have "complete_inv s" using complete.every.execution_kept[OF assms] by simp
  then show ?thesis by (fastforce simp: complete_inv_def recorded_def Let_def last_map)
qed

theorem history_complete_witness:
  "let s = snd (call_op (Workspace_Create (SqlText ''w'')) empty_db)
   in \<exists>i. inodes s = [i] \<and> dirty_inodes s = [] \<and>
        is_row (last (filter (\<lambda>r. inode_key (is_row r) = inode_key i) (inode_states s))) = i"
proof -
  let ?s = "snd (call_op (Workspace_Create (SqlText ''w'')) empty_db)"
  have "map i_kind (inodes ?s) = [KDirectory] \<and> dirty_inodes ?s = []"
    unfolding call_op.simps snd_discard by code_simp
  then obtain i where i: "inodes ?s = [i]" "i_kind i = KDirectory" "dirty_inodes ?s = []" by auto
  from history_complete[OF execution.call[OF execution.start], of "Workspace_Create (SqlText ''w'')"] i
  show ?thesis by (auto simp: Let_def unpublished_def)
qed

end
