(* ===== verification/Vex_Overlay.thy ===== *)
theory Vex_Overlay
  imports Vex_Handles
begin

text \<open>
  The staging area of \<open>Vex_Staging\<close> refines a file that is a list of bytes. \<open>overlay s h st content\<close>
  relates the rows of a handle to its content; the lemmas show that opening, writing, truncating,
  reading and storing act on the content as the operations \<open>overwrite\<close>, \<open>resize\<close> and \<open>take\<close>/\<open>drop\<close> do.
\<close>

section \<open>The abstract file\<close>

text \<open>Bytes written at an offset: they replace what was there, and a gap is filled with zeros.\<close>

definition overwrite :: "byte list \<Rightarrow> nat \<Rightarrow> byte list \<Rightarrow> byte list" where
  "overwrite content offset patch =
     memcpy_at (resize (max (length content) (offset + length patch)) content) offset patch"

lemma byte_at_beyond: "length xs \<le> i \<Longrightarrow> byte_at xs i = 0"
  by (simp add: byte_at_def)

lemma length_overwrite [simp]: "length (overwrite content offset patch) = max (length content) (offset + length patch)"
  unfolding overwrite_def by (subst length_memcpy_at) simp_all

lemma byte_at_overwrite:
  "byte_at (overwrite content offset patch) i =
     (if offset \<le> i \<and> i < offset + length patch then byte_at patch (i - offset) else byte_at content i)"
  unfolding overwrite_def
  by (subst byte_at_memcpy_at) (auto simp: byte_at_resize byte_at_beyond)

lemma overwrite_append [simp]: "overwrite content (length content) patch = content @ patch"
  by (rule bytes_eqI) (simp_all add: byte_at_overwrite byte_at_append)

lemma overwrite_split:
  "byte_at (overwrite (overwrite content offset a) (offset + length a) b) i = byte_at (overwrite content offset (a @ b)) i"
  by (auto simp: byte_at_overwrite byte_at_append)

text \<open>The 64 KiB of a file from chunk \<open>no\<close> on, zero beyond its end.\<close>

definition window :: "byte list \<Rightarrow> nat \<Rightarrow> byte list" where
  "window content no = map (byte_at content) [no * kContentChunkBytes..<no * kContentChunkBytes + kContentChunkBytes]"

lemma length_window [simp]: "length (window content no) = kContentChunkBytes"
  by (simp add: window_def)

lemma byte_at_window:
  "byte_at (window content no) j = (if j < kContentChunkBytes then byte_at content (no * kContentChunkBytes + j) else 0)"
  by (simp add: byte_at_def window_def)

lemma window_cong: "(\<And>i. byte_at a i = byte_at b i) \<Longrightarrow> window a no = window b no"
  by (simp add: window_def)

lemma window_eqI:
  "length d = kContentChunkBytes \<Longrightarrow>
   (\<And>j. j < kContentChunkBytes \<Longrightarrow> byte_at d j = byte_at content (no * kContentChunkBytes + j)) \<Longrightarrow> d = window content no"
  by (rule bytes_eqI) (simp_all add: byte_at_window)

lemma window_beyond: "length content \<le> no * kContentChunkBytes \<Longrightarrow> window content no = replicate kContentChunkBytes 0"
  by (rule sym, rule window_eqI) (simp_all, simp add: byte_at_def)

lemma take_window:
  assumes "no < length (chunks_of kContentChunkBytes content)"
  shows "take (expected_chunk_size (length content) (no * kContentChunkBytes)) (window content no) =
    chunks_of kContentChunkBytes content ! no"
proof (rule bytes_eqI)
  let ?C = kContentChunkBytes
  have chunk: "chunks_of ?C content ! no = take ?C (drop (no * ?C) content)" by (rule nth_chunks_of[OF assms])
  show "length (take (expected_chunk_size (length content) (no * ?C)) (window content no)) = length (chunks_of ?C content ! no)"
    by (simp add: chunk expected_chunk_size_def min.commute)
  show "byte_at (take (expected_chunk_size (length content) (no * ?C)) (window content no)) i = byte_at (chunks_of ?C content ! no) i"
    if "i < length (chunks_of ?C content ! no)" for i
    using that by (simp add: chunk expected_chunk_size_def byte_at_take byte_at_window byte_at_drop)
qed

lemma byte_at_pad_chunk [simp]: "byte_at (pad_chunk d) j = byte_at d j"
  unfolding pad_chunk_def by (subst byte_at_memcpy_at) (auto simp: byte_at_def)

lemma length_pad_chunk [simp]: "length d \<le> kContentChunkBytes \<Longrightarrow> length (pad_chunk d) = kContentChunkBytes"
  unfolding pad_chunk_def by (subst length_memcpy_at) simp_all

section \<open>Dirty chunks\<close>

definition chunk_key :: "staging_chunk_row \<Rightarrow> string \<times> nat" where
  "chunk_key c = (sc_handle c, sc_no c)"

text \<open>
  The dirty chunks of a handle are not empty and lie within the size of its file; (handle, chunk
  number) is the primary key of their table.
\<close>

definition dirty_ok :: "db \<Rightarrow> string \<Rightarrow> nat \<Rightarrow> bool" where
  "dirty_ok s h n \<longleftrightarrow> distinct (map chunk_key (staging_chunks s)) \<and>
     (\<forall>c \<in> set (staging_chunks s). sc_handle c = h \<longrightarrow> sc_content c \<noteq> [] \<and>
        length (sc_content c) \<le> kContentChunkBytes \<and> sc_no c * kContentChunkBytes + length (sc_content c) \<le> n)"

lemma dirty_chunk_Some:
  "dirty_chunk s h no = Some d \<Longrightarrow> \<exists>c \<in> set (staging_chunks s). sc_handle c = h \<and> sc_no c = no \<and> sc_content c = d"
  by (auto simp: dirty_chunk_def dest!: find_SomeD)

lemma dirty_chunk_None:
  "dirty_chunk s h no = None \<longleftrightarrow> (\<forall>c \<in> set (staging_chunks s). \<not> (sc_handle c = h \<and> sc_no c = no))"
  by (auto simp: dirty_chunk_def find_None_iff)

lemma dirty_okD:
  "dirty_ok s h n \<Longrightarrow> dirty_chunk s h no = Some d \<Longrightarrow>
   d \<noteq> [] \<and> length d \<le> kContentChunkBytes \<and> no * kContentChunkBytes + length d \<le> n"
  by (drule dirty_chunk_Some) (auto simp: dirty_ok_def)

lemma dirty_ok_mono: "dirty_ok s h n \<Longrightarrow> n \<le> m \<Longrightarrow> dirty_ok s h m"
  by (fastforce simp: dirty_ok_def)

lemma dirty_chunk_set:
  "dirty_chunk (set_dirty_chunk h no d s) h' no' = (if h' = h \<and> no' = no then Some d else dirty_chunk s h' no')"
proof -
  have map: "find (\<lambda>c. sc_handle c = h' \<and> sc_no c = no')
      (map (\<lambda>c. if sc_handle c = h \<and> sc_no c = no then c\<lparr>sc_content := d\<rparr> else c) cs) =
    map_option (\<lambda>c. if sc_handle c = h \<and> sc_no c = no then c\<lparr>sc_content := d\<rparr> else c)
      (find (\<lambda>c. sc_handle c = h' \<and> sc_no c = no') cs)" for cs
    by (rule find_map_same) auto
  show ?thesis
  proof (cases "dirty_chunk s h no")
    case None
    then show ?thesis by (auto simp: set_dirty_chunk_def dirty_chunk_def find_append split: option.split)
  next
    case (Some e)
    then have "dirty_chunk (set_dirty_chunk h no d s) h' no' = map_option (\<lambda>c.
        if sc_handle c = h \<and> sc_no c = no then d else sc_content c)
        (find (\<lambda>c. sc_handle c = h' \<and> sc_no c = no') (staging_chunks s))"
      unfolding set_dirty_chunk_def dirty_chunk_def[of "s\<lparr>staging_chunks := _\<rparr>"]
      by (simp add: map option.map_comp o_def if_distrib[of sc_content] cong: if_cong)
    with Some show ?thesis
      by (cases "find (\<lambda>c. sc_handle c = h' \<and> sc_no c = no') (staging_chunks s)")
        (auto simp: dirty_chunk_def dest: find_SomeD)
  qed
qed

lemma set_dirty_chunk_keys:
  assumes "distinct (map chunk_key (staging_chunks s))"
  shows "distinct (map chunk_key (staging_chunks (set_dirty_chunk h no d s)))"
proof -
  have "chunk_key \<circ> (\<lambda>c. if sc_handle c = h \<and> sc_no c = no then c\<lparr>sc_content := d\<rparr> else c) = chunk_key"
    by (auto simp: fun_eq_iff chunk_key_def)
  with assms show ?thesis
    by (auto simp: set_dirty_chunk_def dirty_chunk_None) (auto simp: chunk_key_def)
qed

lemma set_dirty_chunk_rows:
  "c \<in> set (staging_chunks (set_dirty_chunk h no d s)) \<Longrightarrow> sc_handle c = h \<Longrightarrow>
   c \<in> set (staging_chunks s) \<and> sc_no c \<noteq> no \<or> sc_no c = no \<and> sc_content c = d"
proof (cases "dirty_chunk s h no = None")
  case True
  assume "c \<in> set (staging_chunks (set_dirty_chunk h no d s))" "sc_handle c = h"
  with True consider "c \<in> set (staging_chunks s)" "sc_no c \<noteq> no"
    | "c = \<lparr>sc_handle = h, sc_no = no, sc_content = d\<rparr>"
    by (auto simp: set_dirty_chunk_def dirty_chunk_None)
  then show ?thesis by cases simp_all
next
  case False
  assume "c \<in> set (staging_chunks (set_dirty_chunk h no d s))" "sc_handle c = h"
  moreover have "staging_chunks (set_dirty_chunk h no d s) =
      map (\<lambda>e. if sc_handle e = h \<and> sc_no e = no then e\<lparr>sc_content := d\<rparr> else e) (staging_chunks s)"
    using False by (auto simp: set_dirty_chunk_def)
  ultimately have "c \<in> (\<lambda>e. if sc_handle e = h \<and> sc_no e = no then e\<lparr>sc_content := d\<rparr> else e) ` set (staging_chunks s)"
    by (simp only: set_map)
  then obtain e where "c = (if sc_handle e = h \<and> sc_no e = no then e\<lparr>sc_content := d\<rparr> else e)"
      "e \<in> set (staging_chunks s)" by (rule imageE)
  with \<open>sc_handle c = h\<close> show ?thesis by (cases "sc_handle e = h \<and> sc_no e = no") simp_all
qed

lemma dirty_ok_set:
  assumes "distinct (map chunk_key (staging_chunks s))"
    and "\<And>c. c \<in> set (staging_chunks s) \<Longrightarrow> sc_handle c = h \<Longrightarrow> sc_no c \<noteq> no \<Longrightarrow> sc_content c \<noteq> [] \<and>
        length (sc_content c) \<le> kContentChunkBytes \<and> sc_no c * kContentChunkBytes + length (sc_content c) \<le> n"
    and "d \<noteq> []" "length d \<le> kContentChunkBytes" "no * kContentChunkBytes + length d \<le> n"
  shows "dirty_ok (set_dirty_chunk h no d s) h n"
  unfolding dirty_ok_def
proof (intro conjI ballI impI)
  show "distinct (map chunk_key (staging_chunks (set_dirty_chunk h no d s)))" by (rule set_dirty_chunk_keys[OF assms(1)])
  fix c assume "c \<in> set (staging_chunks (set_dirty_chunk h no d s))" "sc_handle c = h"
  then have "sc_content c \<noteq> [] \<and> length (sc_content c) \<le> kContentChunkBytes \<and>
      sc_no c * kContentChunkBytes + length (sc_content c) \<le> n"
    using set_dirty_chunk_rows[of c h no d s] assms(2)[of c] assms(3-5) by metis
  then show "sc_content c \<noteq> []" "length (sc_content c) \<le> kContentChunkBytes"
    "sc_no c * kContentChunkBytes + length (sc_content c) \<le> n" by simp_all
qed

lemma set_dirty_chunk_ok:
  "dirty_ok s h n \<Longrightarrow> d \<noteq> [] \<Longrightarrow> length d \<le> kContentChunkBytes \<Longrightarrow> no * kContentChunkBytes + length d \<le> n \<Longrightarrow>
   dirty_ok (set_dirty_chunk h no d s) h n"
  by (rule dirty_ok_set) (auto simp: dirty_ok_def)

text \<open>The bytes that the dirty chunks take.\<close>

lemma sum_changed:
  assumes "distinct (map key xs)" "x \<in> set xs" "\<And>y. y \<in> set xs \<Longrightarrow> key y = key x \<longleftrightarrow> p y"
  shows "sum_list (map g (map (\<lambda>y. if p y then f y else y) xs)) + g x = sum_list (map g xs) + (g (f x) :: nat)"
  using assms
proof (induction xs)
  case (Cons a xs)
  show ?case
  proof (cases "a = x")
    case True
    have "\<not> p y" if "y \<in> set xs" for y
    proof -
      have "key y \<noteq> key x" using Cons.prems(1) True that by (auto simp: image_iff)
      with Cons.prems(3)[of y] that show ?thesis by simp
    qed
    then have "map (\<lambda>y. if p y then f y else y) xs = xs" by (intro map_idI) simp
    with True Cons.prems(3)[of a] show ?thesis by simp
  next
    case False
    with Cons.prems have "x \<in> set xs" "key a \<noteq> key x" by auto
    with Cons show ?thesis by simp
  qed
qed simp

lemma dirty_bytes_set:
  assumes "dirty_ok s h n"
  shows "dirty_bytes (set_dirty_chunk h no d s) h + DirtyChunkSize s h no = dirty_bytes s h + length d"
proof (cases "dirty_chunk s h no")
  case None
  then show ?thesis by (simp add: dirty_bytes_def set_dirty_chunk_def DirtyChunkSize_def)
next
  case (Some e)
  from dirty_chunk_Some[OF Some] obtain c where c: "c \<in> set (staging_chunks s)" "sc_handle c = h" "sc_no c = no"
      "sc_content c = e" by blast
  let ?f = "\<lambda>c::staging_chunk_row. if sc_handle c = h \<and> sc_no c = no then c\<lparr>sc_content := d\<rparr> else c"
  have "filter (\<lambda>c. sc_handle c = h) (map ?f cs) = map ?f (filter (\<lambda>c. sc_handle c = h) cs)" for cs
    by (induction cs) auto
  moreover have "staging_chunks (set_dirty_chunk h no d s) = map ?f (staging_chunks s)"
    using Some by (simp add: set_dirty_chunk_def)
  ultimately have "dirty_bytes (set_dirty_chunk h no d s) h =
      sum_list (map (\<lambda>c. length (sc_content c)) (map ?f (filter (\<lambda>c. sc_handle c = h) (staging_chunks s))))"
    by (simp only: dirty_bytes_def)
  moreover have "distinct (map chunk_key (filter (\<lambda>c. sc_handle c = h) (staging_chunks s)))"
    using assms by (simp add: dirty_ok_def distinct_map_filter)
  ultimately show ?thesis
    using sum_changed[of chunk_key "filter (\<lambda>c. sc_handle c = h) (staging_chunks s)" c
        "\<lambda>c. sc_handle c = h \<and> sc_no c = no" "\<lambda>c. length (sc_content c)" "\<lambda>c. c\<lparr>sc_content := d\<rparr>"] c Some
    by (auto simp: DirtyChunkSize_def dirty_bytes_def chunk_key_def)
qed

section \<open>The chunks that a handle sees\<close>

definition effective :: "db \<Rightarrow> string \<Rightarrow> staging_row \<Rightarrow> byte list \<Rightarrow> bool" where
  "effective s h st content \<longleftrightarrow> (\<forall>no. \<exists>n. ReadEffectiveChunk s h st no = Inr (window content no, n))"

lemma effective_cong: "(\<And>i. byte_at a i = byte_at b i) \<Longrightarrow> effective s h st a \<Longrightarrow> effective s h st b"
  using window_cong[of a b] by (simp add: effective_def)

lemma ReadEffectiveChunk_size: "ReadEffectiveChunk s h st no = Inr (c, n) \<Longrightarrow> n = DirtyChunkSize s h no"
  by (auto simp: ReadEffectiveChunk_def DirtyChunkSize_def Let_def split: option.splits if_splits)

lemma ReadEffectiveChunk_dirty:
  "dirty_chunk s h no = Some d \<Longrightarrow> d \<noteq> [] \<Longrightarrow> length d \<le> kContentChunkBytes \<Longrightarrow>
   ReadEffectiveChunk s h st no = Inr (pad_chunk d, length d)"
  by (simp add: ReadEffectiveChunk_def)

lemma ReadEffectiveChunk_beyond:
  "dirty_chunk s h no = None \<Longrightarrow> s_base_visible st \<le> no * kContentChunkBytes \<Longrightarrow>
   ReadEffectiveChunk s h st no = Inr (replicate kContentChunkBytes 0, 0)"
  by (simp add: ReadEffectiveChunk_def)

text \<open>What the result depends on: the dirty chunk, and the base chunk where there is none.\<close>

lemma ReadEffectiveChunk_cong:
  assumes "dirty_chunk t h' no = dirty_chunk s h no" "base_chunk t st' no = base_chunk s st no"
    "s_base_manifest st' = s_base_manifest st" "s_base_size st' = s_base_size st"
    "s_base_visible st' = s_base_visible st"
  shows "ReadEffectiveChunk t h' st' no = ReadEffectiveChunk s h st no"
  unfolding ReadEffectiveChunk_def base_manifest_id_def assms ..

lemma base_chunk_same:
  "chunks t = chunks s \<Longrightarrow> manifest_chunks t = manifest_chunks s \<Longrightarrow> s_base_manifest st' = s_base_manifest st \<Longrightarrow>
   base_chunk t st' no = base_chunk s st no"
  by (simp add: base_chunk_def manifest_rows_def base_manifest_id_def)

lemma set_dirty_chunk_effective:
  assumes "effective s h st content" "d \<noteq> []" "length d \<le> kContentChunkBytes"
    and "pad_chunk d = window content' no"
    and "\<And>n. n \<noteq> no \<Longrightarrow> window content' n = window content n"
  shows "effective (set_dirty_chunk h no d s) h st content'"
  unfolding effective_def
proof
  fix n
  let ?t = "set_dirty_chunk h no d s"
  show "\<exists>k. ReadEffectiveChunk ?t h st n = Inr (window content' n, k)"
  proof (cases "n = no")
    case True
    then show ?thesis
      using ReadEffectiveChunk_dirty[of ?t h no d st] assms(2-4) by (simp add: dirty_chunk_set)
  next
    case False
    have "base_chunk ?t st n = base_chunk s st n" by (rule base_chunk_same) (simp_all add: set_dirty_chunk_def)
    then have "ReadEffectiveChunk ?t h st n = ReadEffectiveChunk s h st n"
      using False by (intro ReadEffectiveChunk_cong) (simp_all add: dirty_chunk_set)
    with assms(1,5) False show ?thesis by (simp add: effective_def)
  qed
qed

section \<open>Writing\<close>

text \<open>Only the chunks of one handle changed.\<close>

definition only_chunks :: "string \<Rightarrow> db \<Rightarrow> db \<Rightarrow> bool" where
  "only_chunks h s t \<longleftrightarrow> (\<exists>cs. t = s\<lparr>staging_chunks := cs\<rparr> \<and>
     filter (\<lambda>c. sc_handle c \<noteq> h) cs = filter (\<lambda>c. sc_handle c \<noteq> h) (staging_chunks s))"

lemma only_chunks_refl [simp]: "only_chunks h s s"
  by (auto simp: only_chunks_def intro!: exI[of _ "staging_chunks s"])

lemma only_chunks_trans: "only_chunks h s t \<Longrightarrow> only_chunks h t u \<Longrightarrow> only_chunks h s u"
  by (auto simp: only_chunks_def)

lemma only_chunks_set [simp]: "only_chunks h s (set_dirty_chunk h no d s)"
proof -
  have "filter (\<lambda>c. sc_handle c \<noteq> h) (map (\<lambda>c. if sc_handle c = h \<and> sc_no c = no then c\<lparr>sc_content := d\<rparr> else c) cs) =
      filter (\<lambda>c. sc_handle c \<noteq> h) cs" for cs
    by (induction cs) auto
  then show ?thesis by (auto simp: only_chunks_def set_dirty_chunk_def)
qed

lemma only_chunks_remove [simp]: "only_chunks h s (remove_dirty_chunks h first s)"
  unfolding only_chunks_def remove_dirty_chunks_def by (intro exI conjI, rule refl) (auto intro!: filter_cong)

text \<open>Bytes that fall into one chunk change that window only.\<close>

lemma window_overwrite_other:
  assumes "absolute mod kContentChunkBytes + length piece \<le> kContentChunkBytes" "n \<noteq> absolute div kContentChunkBytes"
  shows "window (overwrite content absolute piece) n = window content n"
proof (rule sym, rule window_eqI)
  let ?C = kContentChunkBytes
  fix j assume j: "j < ?C"
  have abs: "absolute = absolute div ?C * ?C + absolute mod ?C" by simp
  have "\<not> (absolute \<le> n * ?C + j \<and> n * ?C + j < absolute + length piece)"
  proof
    assume in_piece: "absolute \<le> n * ?C + j \<and> n * ?C + j < absolute + length piece"
    then have "absolute div ?C * ?C \<le> n * ?C + j" using abs by linarith
    then have "absolute div ?C \<le> n"
      using j by (metis div_le_mono div_mult_self_is_m div_mult_self3 div_less add.right_neutral kContentChunkBytes_pos not_gr_zero)
    moreover have "n * ?C < absolute div ?C * ?C + ?C" using in_piece assms(1) abs by linarith
    then have "n * ?C < (absolute div ?C + 1) * ?C" by simp
    then have "n < absolute div ?C + 1" by (simp only: mult_less_cancel2)
    ultimately show False using assms(2) by simp
  qed
  then show "byte_at (window content n) j = byte_at (overwrite content absolute piece) (n * ?C + j)"
    using j by (auto simp: byte_at_overwrite byte_at_window)
qed simp

lemma window_overwrite_same:
  assumes "absolute mod kContentChunkBytes + length piece \<le> kContentChunkBytes"
  shows "window (overwrite content absolute piece) (absolute div kContentChunkBytes) =
    memcpy_at (window content (absolute div kContentChunkBytes)) (absolute mod kContentChunkBytes) piece"
proof (rule sym, rule window_eqI)
  let ?C = kContentChunkBytes
  show "length (memcpy_at (window content (absolute div ?C)) (absolute mod ?C) piece) = ?C" using assms by simp
  fix j assume j: "j < ?C"
  have abs: "absolute = absolute div ?C * ?C + absolute mod ?C" by simp
  have "absolute \<le> absolute div ?C * ?C + j \<longleftrightarrow> absolute mod ?C \<le> j"
    "absolute div ?C * ?C + j < absolute + length piece \<longleftrightarrow> j < absolute mod ?C + length piece"
    "absolute div ?C * ?C + j - absolute = j - absolute mod ?C"
    using abs by linarith+
  then show "byte_at (memcpy_at (window content (absolute div ?C)) (absolute mod ?C) piece) j =
      byte_at (overwrite content absolute piece) (absolute div ?C * ?C + j)"
    using assms j by (subst byte_at_memcpy_at) (simp_all add: byte_at_overwrite byte_at_window)
qed

lemma pad_chunk_resize:
  assumes "\<And>j. n \<le> j \<Longrightarrow> j < kContentChunkBytes \<Longrightarrow> byte_at m j = 0" "length m = kContentChunkBytes" "n \<le> kContentChunkBytes"
  shows "pad_chunk (resize n m) = m"
  using assms by (intro bytes_eqI) (auto simp: byte_at_resize)

lemma stage_chunk_run:
  assumes eff: "effective s h st content" and ok: "dirty_ok s h n"
    and piece: "piece \<noteq> []" "absolute mod kContentChunkBytes + length piece \<le> kContentChunkBytes"
      "absolute + length piece \<le> n" and len: "length content \<le> n"
  shows "\<exists>t. stage_chunk h st n absolute piece s = (Inr (int (dirty_bytes t h) - int (dirty_bytes s h)), t) \<and>
    effective t h st (overwrite content absolute piece) \<and> dirty_ok t h n \<and> only_chunks h s t"
proof -
  let ?C = kContentChunkBytes
  let ?no = "absolute div ?C" and ?content = "overwrite content absolute piece"
  define full where "full \<longleftrightarrow> absolute mod ?C = 0 \<and> length piece = ?C"
  define m where "m = memcpy_at (window content ?no) (absolute mod ?C) piece"
  define d where "d = (if full then piece else resize (min ?C (n - ?no * ?C)) m)"
  have abs: "?no * ?C + absolute mod ?C = absolute" by simp
  have m: "m = window ?content ?no" using window_overwrite_same[OF piece(2)] by (simp add: m_def)
  have "byte_at m j = 0" if "n - ?no * ?C \<le> j" "j < ?C" for j
  proof -
    have "length ?content \<le> n" using piece(3) len by simp
    then have "length ?content \<le> ?no * ?C + j" using that(1) by linarith
    with that(2) show ?thesis by (simp add: m byte_at_window byte_at_beyond)
  qed
  then have "pad_chunk (resize (min ?C (n - ?no * ?C)) m) = m"
    by (intro pad_chunk_resize) (auto simp: m min_def split: if_splits)
  moreover have "pad_chunk piece = m" if full
  proof -
    have "m = piece" using that by (simp add: m_def full_def memcpy_at_def)
    then show ?thesis using that by (intro bytes_eqI) (simp_all add: full_def)
  qed
  ultimately have pad: "pad_chunk d = window ?content ?no" by (simp add: d_def m)
  have "0 < length piece" using piece(1) by simp
  then have "absolute < n" using piece(3) by linarith
  then have "?no * ?C < n" using abs by linarith
  then have d: "d \<noteq> []" "length d \<le> ?C" "?no * ?C + length d \<le> n"
    using piece abs by (auto simp: d_def full_def simp flip: length_greater_0_conv)
  let ?t = "set_dirty_chunk h ?no d s"
  obtain k where "ReadEffectiveChunk s h st ?no = Inr (window content ?no, k)" using eff by (auto simp: effective_def)
  moreover from this have "k = DirtyChunkSize s h ?no" by (rule ReadEffectiveChunk_size)
  ultimately have read: "ReadEffectiveChunk s h st ?no = Inr (window content ?no, DirtyChunkSize s h ?no)" by simp
  have store: "StoreDirtyChunk h ?no d s = (Inr (), ?t)" using d by (simp add: StoreDirtyChunk_def op_simps)
  have "stage_chunk h st n absolute piece s = (Inr (int (length d) - int (DirtyChunkSize s h ?no)), ?t)"
  proof (cases full)
    case True
    with store show ?thesis by (simp add: stage_chunk_def Let_def op_simps d_def full_def)
  next
    case False
    then have "\<not> (absolute mod ?C = 0 \<and> length piece = ?C)" by (simp add: full_def)
    moreover have "resize (min ?C (n - ?no * ?C)) (memcpy_at (window content ?no) (absolute mod ?C) piece) = d"
      using False by (simp add: d_def m_def)
    ultimately show ?thesis using store read
      unfolding stage_chunk_def Let_def by (simp only: if_False op_simps) (simp add: op_simps)
  qed
  moreover have "int (length d) - int (DirtyChunkSize s h ?no) = int (dirty_bytes ?t h) - int (dirty_bytes s h)"
    using dirty_bytes_set[OF ok, of ?no d] by linarith
  moreover have "effective ?t h st ?content"
    using window_overwrite_other[OF piece(2)] by (intro set_dirty_chunk_effective[OF eff d(1,2) pad])
  moreover have "dirty_ok ?t h n" by (rule set_dirty_chunk_ok[OF ok d])
  ultimately show ?thesis by simp
qed

lemma mod_room: "b \<le> kContentChunkBytes - a mod kContentChunkBytes \<Longrightarrow> a mod kContentChunkBytes + b \<le> kContentChunkBytes"
  using mod_less_divisor[OF kContentChunkBytes_pos, of a] by linarith

lemma stage_loop_run:
  "effective s h st content \<Longrightarrow> dirty_ok s h n \<Longrightarrow> absolute + length patch \<le> n \<Longrightarrow> length content \<le> n \<Longrightarrow>
   \<exists>t. stage_loop h st n absolute patch delta s = (Inr (delta + int (dirty_bytes t h) - int (dirty_bytes s h)), t) \<and>
     effective t h st (overwrite content absolute patch) \<and> dirty_ok t h n \<and> only_chunks h s t"
proof (induction h st n absolute patch delta arbitrary: s content rule: stage_loop.induct)
  case (1 h st n absolute patch delta)
  show ?case
  proof (cases "patch = []")
    case True
    then have "effective s h st (overwrite content absolute patch)"
      by (intro effective_cong[OF _ "1.prems"(1)]) (auto simp: byte_at_overwrite)
    with True "1.prems" show ?thesis by (intro exI[of _ s]) (simp add: stage_loop.simps op_simps)
  next
    case False
    define bytes where "bytes = min (length patch) (kContentChunkBytes - absolute mod kContentChunkBytes)"
    let ?a = "take bytes patch" and ?b = "drop bytes patch"
    have within: "absolute mod kContentChunkBytes < kContentChunkBytes" by simp
    have piece: "?a \<noteq> []" "absolute mod kContentChunkBytes + length ?a \<le> kContentChunkBytes" "length ?a = bytes"
    proof -
      show "?a \<noteq> []" "length ?a = bytes" using False within by (auto simp: bytes_def)
      then show "absolute mod kContentChunkBytes + length ?a \<le> kContentChunkBytes"
        by (intro mod_room) (simp add: bytes_def)
    qed
    have "absolute + length ?a \<le> n" using "1.prems"(3) by simp
    from stage_chunk_run[OF "1.prems"(1,2) piece(1,2) this "1.prems"(4)]
    obtain t where t: "stage_chunk h st n absolute ?a s = (Inr (int (dirty_bytes t h) - int (dirty_bytes s h)), t)"
        "effective t h st (overwrite content absolute ?a)" "dirty_ok t h n" "only_chunks h s t"
      by blast
    let ?d = "int (dirty_bytes t h) - int (dirty_bytes s h)"
    have "bytes \<le> length patch" by (simp add: bytes_def)
    then have fits: "absolute + bytes + length ?b \<le> n" "length (overwrite content absolute ?a) \<le> n"
      using "1.prems"(3,4) piece(3) by simp_all
    from "1.IH"[OF False bytes_def t(2,3) fits, of ?d]
    obtain u where u: "stage_loop h st n (absolute + bytes) ?b (delta + ?d) t =
        (Inr (delta + ?d + int (dirty_bytes u h) - int (dirty_bytes t h)), u)"
        "effective u h st (overwrite (overwrite content absolute ?a) (absolute + bytes) ?b)"
        "dirty_ok u h n" "only_chunks h t u" by blast
    have "effective u h st (overwrite content absolute patch)"
      using effective_cong[OF _ u(2)] overwrite_split[of content absolute ?a ?b] piece(3) by simp
    moreover have "stage_loop h st n absolute patch delta s =
        (Inr (delta + int (dirty_bytes u h) - int (dirty_bytes s h)), u)"
      using False t(1) u(1) by (subst stage_loop.simps) (simp add: op_simps Let_def bytes_def[symmetric])
    ultimately show ?thesis using u(3) only_chunks_trans[OF t(4) u(4)] by blast
  qed
qed

section \<open>The overlay of a handle\<close>

text \<open>The row of the staging area and its chunks hold the content.\<close>

definition staged :: "db \<Rightarrow> string \<Rightarrow> staging_row \<Rightarrow> byte list \<Rightarrow> bool" where
  "staged s h st content \<longleftrightarrow> find_staging s h = Some st \<and> s_logical st = length content \<and>
     length content \<le> kMaxStagedBytes \<and> s_base_visible st \<le> s_base_size st \<and> s_base_size st \<le> kMaxStagedBytes \<and>
     s_base_visible st \<le> length content \<and> effective s h st content \<and> dirty_ok s h (length content) \<and>
     s_capacity st = dirty_bytes s h"

definition overlay :: "db \<Rightarrow> string \<Rightarrow> byte list \<Rightarrow> bool" where
  "overlay s h content \<longleftrightarrow> (\<exists>st. staged s h st content)"

text \<open>An operation on one handle: the rows of the others, and the content store, stay.\<close>

definition apart :: "string \<Rightarrow> db \<Rightarrow> db \<Rightarrow> bool" where
  "apart h s t \<longleftrightarrow> chunks t = chunks s \<and> manifest_chunks t = manifest_chunks s \<and>
     filter (\<lambda>c. sc_handle c \<noteq> h) (staging_chunks t) = filter (\<lambda>c. sc_handle c \<noteq> h) (staging_chunks s) \<and>
     filter (\<lambda>r. s_handle r \<noteq> h) (staging t) = filter (\<lambda>r. s_handle r \<noteq> h) (staging s)"

lemma apart_dirty:
  assumes "filter (\<lambda>c. sc_handle c \<noteq> h) (staging_chunks t) = filter (\<lambda>c. sc_handle c \<noteq> h) (staging_chunks s)" "h' \<noteq> h"
  shows "dirty_chunk t h' = dirty_chunk s h'" "dirty_bytes t h' = dirty_bytes s h'"
    "{c \<in> set (staging_chunks t). sc_handle c = h'} = {c \<in> set (staging_chunks s). sc_handle c = h'}"
proof -
  have find: "find (\<lambda>c. sc_handle c = h' \<and> sc_no c = no) (filter (\<lambda>c. sc_handle c \<noteq> h) cs) =
      find (\<lambda>c. sc_handle c = h' \<and> sc_no c = no) cs" for cs no
    using assms(2) by (intro find_filter_other) auto
  have filter: "filter (\<lambda>c. sc_handle c = h') (filter (\<lambda>c. sc_handle c \<noteq> h) cs) = filter (\<lambda>c. sc_handle c = h') cs" for cs
    using assms(2) by (auto intro: filter_cong)
  show "dirty_chunk t h' = dirty_chunk s h'"
    using find[of _ "staging_chunks t"] find[of _ "staging_chunks s"] assms(1) by (simp add: dirty_chunk_def fun_eq_iff)
  have same: "filter (\<lambda>c. sc_handle c = h') (staging_chunks t) = filter (\<lambda>c. sc_handle c = h') (staging_chunks s)"
    using filter[of "staging_chunks t"] filter[of "staging_chunks s"] assms(1) by simp
  then show "dirty_bytes t h' = dirty_bytes s h'" by (simp add: dirty_bytes_def)
  show "{c \<in> set (staging_chunks t). sc_handle c = h'} = {c \<in> set (staging_chunks s). sc_handle c = h'}"
    using arg_cong[OF same, of set] by simp
qed

lemma apart_staged:
  assumes apart: "apart h s t" and h: "h' \<noteq> h" and keys: "distinct (map chunk_key (staging_chunks t))"
    and staged: "staged s h' st content"
  shows "staged t h' st content"
proof -
  from apart have rows: "filter (\<lambda>r. s_handle r \<noteq> h) (staging t) = filter (\<lambda>r. s_handle r \<noteq> h) (staging s)"
    and cs: "filter (\<lambda>c. sc_handle c \<noteq> h) (staging_chunks t) = filter (\<lambda>c. sc_handle c \<noteq> h) (staging_chunks s)"
    by (simp_all add: apart_def)
  have "find (\<lambda>r. s_handle r = h') (filter (\<lambda>r. s_handle r \<noteq> h) rs) = find (\<lambda>r. s_handle r = h') rs" for rs
    using h by (intro find_filter_other) auto
  then have find: "find_staging t h' = find_staging s h'" unfolding find_staging_def by (metis rows)
  note dirty = apart_dirty[OF cs h]
  have "base_chunk t st no = base_chunk s st no" for no using apart by (intro base_chunk_same) (simp_all add: apart_def)
  then have "ReadEffectiveChunk t h' st no = ReadEffectiveChunk s h' st no" for no
    by (intro ReadEffectiveChunk_cong) (simp_all add: dirty)
  then have "effective t h' st content = effective s h' st content" by (simp add: effective_def)
  moreover have "dirty_ok t h' (length content)"
    using staged dirty(3) keys unfolding staged_def dirty_ok_def by blast
  ultimately show ?thesis using staged find dirty(2) by (simp add: staged_def)
qed

lemma staged_keys: "staged s h st content \<Longrightarrow> distinct (map chunk_key (staging_chunks s))"
  by (simp add: staged_def dirty_ok_def)

lemma find_staging_update:
  "find_staging s h = Some st \<Longrightarrow> (\<And>r. s_handle (f r) = s_handle r) \<Longrightarrow>
   find_staging (update_staging h f s) h = Some (f st)"
proof -
  assume st: "find_staging s h = Some st" and f: "\<And>r. s_handle (f r) = s_handle r"
  have "find (\<lambda>r. s_handle r = h) (map (\<lambda>r. if s_handle r = h then f r else r) (staging s)) =
      map_option (\<lambda>r. if s_handle r = h then f r else r) (find (\<lambda>r. s_handle r = h) (staging s))"
    using f by (intro find_map_same) auto
  moreover have "s_handle st = h" using st by (auto simp: find_staging_def dest: find_SomeD)
  ultimately show ?thesis using st by (simp add: find_staging_def update_staging_def)
qed

lemma filter_update_other:
  "(\<And>r. s_handle (f r) = s_handle r) \<Longrightarrow>
   filter (\<lambda>r. s_handle r \<noteq> h) (map (\<lambda>r. if s_handle r = h then f r else r) rs) = filter (\<lambda>r. s_handle r \<noteq> h) rs"
  by (induction rs) auto

text \<open>
  The end of a change: the row gets a new generation and size, and the handle the generation.
\<close>

lemma restaged:
  assumes staged: "staged s h st content" and only: "only_chunks h s t"
    and f: "\<And>r. s_handle (f r) = s_handle r" "s_base_manifest (f st) = s_base_manifest st"
      "s_base_size (f st) = s_base_size st" "s_base_visible (f st) \<le> s_base_size st"
      "s_base_visible (f st) \<le> length content'"
      "s_logical (f st) = length content'" "s_capacity (f st) = dirty_bytes t h"
    and new: "length content' \<le> kMaxStagedBytes" "effective t h (f st) content'" "dirty_ok t h (length content')"
    and u: "u = set_generation h g (update_staging h f t)"
  shows "staged u h (f st) content' \<and> apart h s u"
proof -
  from only obtain cs where t: "t = s\<lparr>staging_chunks := cs\<rparr>"
      "filter (\<lambda>c. sc_handle c \<noteq> h) cs = filter (\<lambda>c. sc_handle c \<noteq> h) (staging_chunks s)"
    by (auto simp: only_chunks_def)
  have u': "staging_chunks u = cs" "chunks u = chunks t" "manifest_chunks u = manifest_chunks t"
      "staging u = staging (update_staging h f t)"
    by (simp_all add: u t(1) set_generation_def update_handles_def update_staging_def)
  have "find_staging t h = Some st" using staged by (simp add: t(1) staged_def find_staging_def)
  then have find: "find_staging u h = Some (f st)"
    using find_staging_update[of t h st f] f(1) u'(4) by (simp add: find_staging_def)
  have dirty: "dirty_chunk u h = dirty_chunk t h" "dirty_bytes u h = dirty_bytes t h" "dirty_ok u h = dirty_ok t h"
    using u'(1) by (simp_all add: t(1) dirty_chunk_def dirty_bytes_def dirty_ok_def fun_eq_iff)
  have "ReadEffectiveChunk u h (f st) no = ReadEffectiveChunk t h (f st) no" for no
    using u' by (intro ReadEffectiveChunk_cong base_chunk_same) (simp_all add: dirty)
  then have "effective u h (f st) content'" using new(2) by (simp add: effective_def)
  with find dirty new f staged have "staged u h (f st) content'" by (simp add: staged_def)
  moreover have "apart h s u"
    using t(2) u' filter_update_other[of f h "staging s"] f(1)
    by (simp add: apart_def t(1) update_staging_def)
  ultimately show ?thesis ..
qed

lemma effective_base:
  "s_base_manifest st' = s_base_manifest st \<Longrightarrow> s_base_size st' = s_base_size st \<Longrightarrow>
   s_base_visible st' = s_base_visible st \<Longrightarrow> effective s h st' content = effective s h st content"
  unfolding effective_def
  using ReadEffectiveChunk_cong[of s h _ s h st' st] base_chunk_same[of s s st' st] by simp

lemma StageWrite_staged:
  assumes staged: "staged s (h_id handle) st content" and patch: "patch \<noteq> []"
    and range: "0 \<le> offset" "offset + int (length patch) \<le> int kMaxStagedBytes"
  shows "\<exists>t st'. StageWrite handle offset patch s = (Inr (h_dirty handle + 1), t) \<and>
    staged t (h_id handle) st' (overwrite content (nat offset) patch) \<and> s_generation st' = h_dirty handle + 1 \<and>
    s_base_manifest st' = s_base_manifest st \<and> s_base_visible st' = s_base_visible st \<and> apart (h_id handle) s t"
proof -
  let ?h = "h_id handle" and ?g = "h_dirty handle + 1"
  define n where "n = max (length content) (nat offset + length patch)"
  have eff: "effective s ?h st content" and ok: "dirty_ok s ?h n" and cap: "s_capacity st = dirty_bytes s ?h"
    and st: "find_staging s ?h = Some st" "s_logical st = length content"
    using staged dirty_ok_mono[of s ?h "length content" n] by (auto simp: staged_def n_def)
  from stage_loop_run[OF eff ok, of "nat offset" patch 0]
  obtain t where t: "stage_loop ?h st n (nat offset) patch 0 s = (Inr (int (dirty_bytes t ?h) - int (dirty_bytes s ?h)), t)"
      "effective t ?h st (overwrite content (nat offset) patch)" "dirty_ok t ?h n" "only_chunks ?h s t"
    by (auto simp: n_def)
  define f :: "staging_row \<Rightarrow> staging_row" where
    "f = (\<lambda>r. r\<lparr>s_generation := ?g, s_logical := n, s_capacity := dirty_bytes t ?h\<rparr>)"
  define u where "u = set_generation ?h ?g (update_staging ?h f t)"
  have len: "length (overwrite content (nat offset) patch) = n" by (simp add: n_def)
  have max: "n \<le> kMaxStagedBytes" "s_base_visible st \<le> n" using staged range by (auto simp: n_def staged_def)
  have "staged u ?h (f st) (overwrite content (nat offset) patch) \<and> apart ?h s u"
    using staged t(3) max len effective_base[of "f st" st t ?h] t(2)
    by (intro restaged[OF staged t(4) _ _ _ _ _ _ _ _ _ _ u_def]) (simp_all add: f_def staged_def)
  moreover have "StageWrite handle offset patch s = (Inr ?g, u)"
    using patch range st t(1) unfolding StageWrite_def Let_def
    by (simp add: op_simps FindStaging_def n_def[symmetric] cap u_def f_def)
  ultimately show ?thesis by (intro exI[of _ u] exI[of _ "f st"]) (simp add: f_def)
qed

section \<open>Truncating\<close>

lemma dirty_chunk_remove:
  "dirty_chunk (remove_dirty_chunks h first s) h no = (if first \<le> no then None else dirty_chunk s h no)"
proof (cases "first \<le> no")
  case True
  then show ?thesis by (auto simp: dirty_chunk_None remove_dirty_chunks_def)
next
  case False
  then have "find (\<lambda>c. sc_handle c = h \<and> sc_no c = no)
      (filter (\<lambda>c. \<not> (sc_handle c = h \<and> first \<le> sc_no c)) (staging_chunks s)) =
    find (\<lambda>c. sc_handle c = h \<and> sc_no c = no) (staging_chunks s)"
    by (intro find_filter_other) auto
  with False show ?thesis by (simp add: dirty_chunk_def remove_dirty_chunks_def)
qed

lemma chunk_count_le: "chunk_count_of n \<le> no \<longleftrightarrow> n \<le> no * kContentChunkBytes"
proof -
  have "chunk_count_of n \<le> no \<longleftrightarrow> n + kContentChunkBytes - 1 < Suc no * kContentChunkBytes"
    unfolding chunk_count_of_def using div_less_iff_less_mult[of kContentChunkBytes "n + kContentChunkBytes - 1" "Suc no"]
    by (simp add: less_Suc_eq_le)
  also have "\<dots> \<longleftrightarrow> n \<le> no * kContentChunkBytes" by simp (simp add: less_diff_conv2 less_Suc_eq_le kContentChunkBytes_def)
  finally show ?thesis .
qed

lemma remove_dirty_ok:
  assumes "dirty_ok s h m"
  shows "distinct (map chunk_key (staging_chunks (remove_dirty_chunks h first s)))"
    "c \<in> set (staging_chunks (remove_dirty_chunks h first s)) \<Longrightarrow> sc_handle c = h \<Longrightarrow>
     sc_content c \<noteq> [] \<and> length (sc_content c) \<le> kContentChunkBytes \<and> sc_no c < first"
  using assms by (auto simp: dirty_ok_def remove_dirty_chunks_def distinct_map_filter)

text \<open>The dirty chunks that remain lie within the new size, the one at the boundary apart.\<close>

lemma below_boundary:
  "no < chunk_count_of n \<Longrightarrow> no \<noteq> n div kContentChunkBytes \<or> n mod kContentChunkBytes = 0 \<Longrightarrow>
   Suc no * kContentChunkBytes \<le> n"
proof -
  let ?C = kContentChunkBytes
  assume a: "no < chunk_count_of n" "no \<noteq> n div ?C \<or> n mod ?C = 0"
  have n: "n = n div ?C * ?C + n mod ?C" by simp
  have "no * ?C < n" using a(1) chunk_count_le[of n no] by linarith
  then have "no \<le> n div ?C" by (metis div_le_mono div_mult_self_is_m kContentChunkBytes_pos less_imp_le)
  moreover have "no \<noteq> n div ?C" using a(2) \<open>no * ?C < n\<close> n by auto
  ultimately have "Suc no \<le> n div ?C" by simp
  then have "Suc no * ?C \<le> n div ?C * ?C" by (rule mult_le_mono1)
  then show ?thesis using n by linarith
qed

lemma ReadEffectiveChunk_shrink:
  assumes read: "ReadEffectiveChunk s h st no = Inr r" and n: "Suc no * kContentChunkBytes \<le> n"
    and dirty: "dirty_chunk t h no = dirty_chunk s h no" and base: "base_chunk t st' no = base_chunk s st no"
    and st': "s_base_manifest st' = s_base_manifest st" "s_base_size st' = s_base_size st"
      "s_base_visible st' = min (s_base_visible st) n"
  shows "ReadEffectiveChunk t h st' no = Inr r"
proof -
  let ?off = "no * kContentChunkBytes"
  have off: "?off < n" using n by (simp add: kContentChunkBytes_def)
  have visible: "min (s_base_visible st) n \<le> ?off \<longleftrightarrow> s_base_visible st \<le> ?off" using off by auto
  have part: "min (expected_chunk_size k ?off) (min (s_base_visible st) n - ?off) =
      min (expected_chunk_size k ?off) (s_base_visible st - ?off)" for k
    using n unfolding expected_chunk_size_def by simp linarith
  have "\<not> s_base_size st < min (s_base_visible st) n" if "\<not> s_base_size st < s_base_visible st" using that by simp
  with read show ?thesis
    unfolding ReadEffectiveChunk_def Let_def base_manifest_id_def dirty base st' visible part
    by (auto split: option.splits if_splits)
qed

lemma shrink_staging_run:
  assumes staged: "staged s h st content" and n: "n < length content"
    and st': "s_base_manifest st' = s_base_manifest st" "s_base_size st' = s_base_size st"
      "s_base_visible st' = min (s_base_visible st) n"
  shows "\<exists>t. shrink_staging h st n s = (Inr (), t) \<and> effective t h st' (resize n content) \<and> dirty_ok t h n \<and>
    only_chunks h s t"
proof -
  let ?C = kContentChunkBytes
  let ?r = "n mod ?C" and ?b = "n div ?C" and ?s1 = "remove_dirty_chunks h (chunk_count_of n) s"
  have nb: "n = ?b * ?C + ?r" by simp
  have eff: "effective s h st content" and ok: "dirty_ok s h (length content)" using staged by (simp_all add: staged_def)
  define d where "d = resize ?r (window content ?b)"
  define t where "t = (if ?r = 0 then ?s1 else set_dirty_chunk h ?b d ?s1)"
  have d: "?r \<noteq> 0 \<Longrightarrow> d \<noteq> []" "length d \<le> ?C" "length d = ?r"
    by (auto simp: d_def less_imp_le simp flip: length_greater_0_conv)
  obtain k where "ReadEffectiveChunk s h st ?b = Inr (window content ?b, k)" using eff by (auto simp: effective_def)
  moreover have "StoreDirtyChunk h ?b d ?s1 = (Inr (), set_dirty_chunk h ?b d ?s1)" if "?r \<noteq> 0"
    using d(1)[OF that] d(2) by (simp add: StoreDirtyChunk_def op_simps)
  ultimately have "shrink_staging h st n s = (Inr (), t)"
    by (auto simp: shrink_staging_def op_simps Let_def t_def d_def)
  moreover have "only_chunks h s t"
    using only_chunks_trans[OF only_chunks_remove only_chunks_set] by (simp add: t_def)
  moreover have "dirty_ok t h n"
  proof -
    have "sc_no c * ?C + length (sc_content c) \<le> n"
      if c: "c \<in> set (staging_chunks ?s1)" "sc_handle c = h" "?r = 0 \<or> sc_no c \<noteq> ?b" for c
    proof -
      have "Suc (sc_no c) * ?C \<le> n" using remove_dirty_ok(2)[OF ok c(1,2)] c(3) by (intro below_boundary) auto
      with remove_dirty_ok(2)[OF ok c(1,2)] show ?thesis by simp
    qed
    note rest = this
    have keys: "distinct (map chunk_key (staging_chunks ?s1))" by (rule remove_dirty_ok(1)[OF ok])
    show ?thesis
    proof (cases "?r = 0")
      case True
      with rest keys remove_dirty_ok(2)[OF ok] show ?thesis by (auto simp: t_def dirty_ok_def)
    next
      case False
      have "dirty_ok (set_dirty_chunk h ?b d ?s1) h n"
        using rest remove_dirty_ok(2)[OF ok] d(1)[OF False] d(2,3) nb
        by (intro dirty_ok_set[OF keys]) auto
      with False show ?thesis by (simp add: t_def)
    qed
  qed
  moreover have "effective t h st' (resize n content)"
    unfolding effective_def
  proof
    fix no
    have dirty: "dirty_chunk t h no = (if ?r \<noteq> 0 \<and> no = ?b then Some d
        else if chunk_count_of n \<le> no then None else dirty_chunk s h no)"
      by (simp add: t_def dirty_chunk_set dirty_chunk_remove)
    consider (beyond) "chunk_count_of n \<le> no" | (boundary) "?r \<noteq> 0" "no = ?b"
      | (below) "no < chunk_count_of n" "no \<noteq> ?b \<or> ?r = 0" by linarith
    then show "\<exists>k. ReadEffectiveChunk t h st' no = Inr (window (resize n content) no, k)"
    proof cases
      case beyond
      then have "n \<le> no * ?C" by (simp add: chunk_count_le)
      moreover have "\<not> (?r \<noteq> 0 \<and> no = ?b)"
      proof
        assume "?r \<noteq> 0 \<and> no = ?b"
        with calculation nb show False by (metis leD less_add_same_cancel1 neq0_conv)
      qed
      ultimately have "dirty_chunk t h no = None" using beyond dirty by simp
      then have "ReadEffectiveChunk t h st' no = Inr (replicate kContentChunkBytes 0, 0)"
        using \<open>n \<le> no * ?C\<close> by (intro ReadEffectiveChunk_beyond) (simp_all add: st')
      then show ?thesis using \<open>n \<le> no * ?C\<close> by (simp add: window_beyond)
    next
      case boundary
      have "?b * ?C + j < n \<longleftrightarrow> j < ?r" for j using nb by linarith
      then have "pad_chunk d = window (resize n content) no"
        using boundary(2) d(2) by (intro window_eqI) (simp_all add: d_def byte_at_resize byte_at_window)
      with boundary dirty d show ?thesis by (simp add: ReadEffectiveChunk_dirty)
    next
      case below
      then have n': "Suc no * ?C \<le> n" by (intro below_boundary)
      have "window (resize n content) no = window content no"
        using n' by (intro sym[OF window_eqI]) (auto simp: byte_at_resize byte_at_window)
      moreover have "base_chunk t st' no = base_chunk s st no"
        by (rule base_chunk_same) (simp_all add: t_def set_dirty_chunk_def remove_dirty_chunks_def st')
      moreover have "dirty_chunk t h no = dirty_chunk s h no" using below dirty by auto
      moreover obtain k where "ReadEffectiveChunk s h st no = Inr (window content no, k)"
        using eff by (auto simp: effective_def)
      ultimately show ?thesis using ReadEffectiveChunk_shrink[OF _ n' _ _ st'] by auto
    qed
  qed
  ultimately show ?thesis by blast
qed

lemma TruncateStaging_staged:
  assumes staged: "staged s (h_id handle) st content" and range: "0 \<le> n" "n \<le> int kMaxStagedBytes"
  shows "\<exists>g t st'. TruncateStaging handle n s = (Inr g, t) \<and>
    g = (if n = int (length content) then h_dirty handle else h_dirty handle + 1) \<and>
    staged t (h_id handle) st' (resize (nat n) content) \<and>
    s_base_manifest st' = s_base_manifest st \<and> s_base_visible st' \<le> s_base_visible st \<and> apart (h_id handle) s t"
proof (cases "nat n = length content")
  case True
  then have "TruncateStaging handle n s = (Inr (h_dirty handle), s)" "resize (nat n) content = content"
    using staged range by (auto simp: TruncateStaging_def op_simps FindStaging_def staged_def resize_def)
  with True staged range show ?thesis by (intro exI) (auto simp: apart_def)
next
  case False
  let ?h = "h_id handle" and ?g = "h_dirty handle + 1" and ?n = "nat n"
  have st: "find_staging s ?h = Some st" "s_logical st = length content" using staged by (simp_all add: staged_def)
  define v where "v = (if ?n < length content then min (s_base_visible st) ?n else s_base_visible st)"
  have "\<exists>t. op_when (?n < length content) (shrink_staging ?h st ?n) s = (Inr (), t) \<and>
      effective t ?h (st\<lparr>s_base_visible := v\<rparr>) (resize ?n content) \<and> dirty_ok t ?h ?n \<and> only_chunks ?h s t"
  proof (cases "?n < length content")
    case True
    then show ?thesis
      using shrink_staging_run[OF staged True, of "st\<lparr>s_base_visible := v\<rparr>"] by (simp add: op_simps v_def)
  next
    case grow: False
    have "effective s ?h st (resize ?n content)"
    proof (rule effective_cong)
      show "effective s ?h st content" using staged by (simp add: staged_def)
      show "byte_at content i = byte_at (resize ?n content) i" for i
        using grow by (auto simp: byte_at_resize byte_at_beyond)
    qed
    moreover have "dirty_ok s ?h ?n" using staged grow dirty_ok_mono by (force simp: staged_def)
    ultimately show ?thesis using grow by (simp add: op_simps v_def)
  qed
  then obtain t where t: "op_when (?n < length content) (shrink_staging ?h st ?n) s = (Inr (), t)"
      "effective t ?h (st\<lparr>s_base_visible := v\<rparr>) (resize ?n content)" "dirty_ok t ?h ?n" "only_chunks ?h s t"
    by blast
  define f :: "staging_row \<Rightarrow> staging_row" where
    "f = (\<lambda>r. r\<lparr>s_generation := ?g, s_logical := ?n, s_base_visible := v, s_capacity := dirty_bytes t ?h\<rparr>)"
  define u where "u = set_generation ?h ?g (update_staging ?h f t)"
  have v: "v \<le> s_base_visible st" "v \<le> ?n" "v \<le> s_base_size st"
    using staged by (auto simp: v_def staged_def)
  have "effective t ?h (f st) (resize ?n content)"
    using t(2) effective_base[of "f st" "st\<lparr>s_base_visible := v\<rparr>" t ?h] by (simp add: f_def)
  then have "staged u ?h (f st) (resize ?n content) \<and> apart ?h s u"
    using staged t(3) v range
    by (intro restaged[OF staged t(4) _ _ _ _ _ _ _ _ _ _ u_def]) (simp_all add: f_def staged_def)
  moreover have "TruncateStaging handle n s = (Inr ?g, u)"
    using range st t(1) False unfolding TruncateStaging_def Let_def
    by (simp add: op_simps FindStaging_def v_def u_def f_def)
  ultimately show ?thesis using v(1) range False by (intro exI[of _ ?g] exI[of _ u] exI[of _ "f st"]) (auto simp: f_def)
qed

section \<open>Reading\<close>

lemma read_staging_run:
  "effective s h st content \<Longrightarrow>
   read_staging_loop s h st absolute bytes = Inr (map (byte_at content) [absolute..<absolute + bytes])"
proof (induction s h st absolute bytes rule: read_staging_loop.induct)
  case (1 s h st absolute bytes)
  let ?C = kContentChunkBytes
  show ?case
  proof (cases "bytes = 0")
    case True
    then show ?thesis by (simp add: read_staging_loop.simps)
  next
    case False
    define n where "n = min bytes (?C - absolute mod ?C)"
    let ?no = "absolute div ?C"
    have within: "absolute mod ?C < ?C" "?no * ?C + absolute mod ?C = absolute" by simp_all
    obtain k where read: "ReadEffectiveChunk s h st ?no = Inr (window content ?no, k)"
      using "1.prems" by (auto simp: effective_def)
    have n: "0 < n" "n \<le> bytes" using False within(1) by (auto simp: n_def)
    have fits: "absolute mod ?C + n \<le> ?C" by (rule mod_room) (simp add: n_def)
    have ih: "read_staging_loop s h st (absolute + n) (bytes - n) =
        Inr (map (byte_at content) [absolute + n..<absolute + n + (bytes - n)])"
      by (rule "1.IH"[OF False refl n_def "1.prems"])
    have "window content ?no ! (absolute mod ?C + i) = byte_at content (absolute + i)" if "i < n" for i
    proof -
      have "?no * ?C + (absolute mod ?C + i) = absolute + i" using within(2) by linarith
      then have "[?no * ?C..<?no * ?C + ?C] ! (absolute mod ?C + i) = absolute + i"
        using fits that by (subst nth_upt) linarith+
      then show ?thesis using fits that by (simp add: window_def)
    qed
    then have "take n (drop (absolute mod ?C) (window content ?no)) = map (byte_at content) [absolute..<absolute + n]"
      using fits by (intro nth_equalityI) simp_all
    moreover have "[absolute..<absolute + bytes] = [absolute..<absolute + n] @ [absolute + n..<absolute + n + (bytes - n)]"
      using n(2) upt_add_eq_append[of absolute "absolute + n" "bytes - n"] by simp
    ultimately show ?thesis
      using False read ih by (subst read_staging_loop.simps) (simp add: Let_def n_def[symmetric])
  qed
qed

lemma ReadStagingRange_staged:
  assumes staged: "staged s (h_id handle) st content"
    and range: "0 \<le> off" "off \<le> int kMaxStagedBytes" "0 \<le> len" "len \<le> int kMaxStagedBytes"
  shows "ReadStagingRange s handle off len = Inr (take (nat len) (drop (nat off) content))"
proof (cases "len = 0 \<or> int (length content) \<le> off")
  case True
  then show ?thesis using staged range by (auto simp: ReadStagingRange_def FindStaging_def staged_def)
next
  case False
  define n where "n = min (nat len) (length content - nat off)"
  have "map (byte_at content) [nat off..<nat off + n] = take (nat len) (drop (nat off) content)"
    using False range by (intro nth_equalityI) (auto simp: n_def byte_at_def)
  moreover have "read_staging_loop s (h_id handle) st (nat off) n = Inr (map (byte_at content) [nat off..<nat off + n])"
    using staged by (intro read_staging_run) (simp add: staged_def)
  ultimately show ?thesis
    using False staged range by (simp add: ReadStagingRange_def FindStaging_def staged_def n_def)
qed

section \<open>Storing the overlay as a manifest\<close>

text \<open>The part of the base that is still visible is a manifest of the same inode.\<close>

definition manifest_of :: "db \<Rightarrow> nat \<Rightarrow> nat \<Rightarrow> bool" where
  "manifest_of s inode mid \<longleftrightarrow> find_manifest s mid \<noteq> None \<and> (\<forall>(no, c) \<in> set (manifest_rows s mid). ch_inode c = inode)"

definition base_owned :: "db \<Rightarrow> nat \<Rightarrow> staging_row \<Rightarrow> bool" where
  "base_owned s inode st \<longleftrightarrow> (0 < s_base_visible st \<longrightarrow> manifest_of s inode (base_manifest_id st))"

lemma manifest_of_extends: "content_extends s t \<Longrightarrow> manifest_of s inode mid \<Longrightarrow> manifest_of t inode mid"
  unfolding manifest_of_def content_extends_def by fastforce

lemma take_pad_chunk: "n \<le> length d \<Longrightarrow> length d \<le> kContentChunkBytes \<Longrightarrow> take n (pad_chunk d) = take n d"
  by (rule bytes_eqI) (auto simp: byte_at_take)

text \<open>The dirty chunks do not overlap, so they take at most the bytes of the file.\<close>

lemma dirty_bytes_bound:
  assumes "dirty_ok s h n"
  shows "dirty_bytes s h \<le> n"
proof -
  let ?C = kContentChunkBytes
  let ?cs = "filter (\<lambda>c. sc_handle c = h) (staging_chunks s)"
  define I where "I c = {sc_no c * ?C..<sc_no c * ?C + length (sc_content c)}" for c :: staging_chunk_row
  have keys: "distinct (map chunk_key ?cs)" using assms by (simp add: dirty_ok_def distinct_map_filter)
  then have dist: "distinct ?cs" by (simp add: distinct_map)
  have c: "length (sc_content c) \<le> ?C" "I c \<subseteq> {..<n}" if "c \<in> set ?cs" for c
    using assms that by (auto simp: dirty_ok_def I_def)
  have "I a \<inter> I b = {}" if "a \<in> set ?cs" "b \<in> set ?cs" "a \<noteq> b" for a b
  proof -
    have "chunk_key a \<noteq> chunk_key b" using keys that by (auto simp: distinct_map dest: inj_onD)
    then have no: "sc_no a \<noteq> sc_no b" using that by (auto simp: chunk_key_def)
    have "x div ?C = sc_no e" if "x \<in> I e" "e \<in> set ?cs" for x e
      using that c(1)[OF that(2)] by (intro div_nat_eqI) (auto simp: I_def mult.commute)
    with no that(1,2) show ?thesis by (metis disjoint_iff)
  qed
  then have "card (\<Union>(I ` set ?cs)) = (\<Sum>c \<in> set ?cs. card (I c))" by (intro card_UN_disjoint) (auto simp: I_def)
  also have "\<dots> = sum_list (map (\<lambda>c. length (sc_content c)) ?cs)"
    using dist by (simp add: sum_list_distinct_conv_sum_set I_def)
  finally have "dirty_bytes s h = card (\<Union>(I ` set ?cs))" by (simp add: dirty_bytes_def)
  also have "\<dots> \<le> card {..<n}" using c(2) by (intro card_mono) auto
  finally show ?thesis by simp
qed

lemma staged_chunk_run:
  assumes staged: "staged s h st content" and owned: "base_owned s inode st"
    and no: "no < length (chunks_of kContentChunkBytes content)"
  shows "\<exists>cid t. staged_chunk s inode h st no (expected_chunk_size (length content) (no * kContentChunkBytes)) =
      Inr (chunks_of kContentChunkBytes content ! no, cid, t) \<and>
    (cid \<noteq> 0 \<longrightarrow> (\<exists>c \<in> set (chunks s). ch_id c = cid \<and> ch_checksum c = t \<and>
       owned_chunk inode (chunks_of kContentChunkBytes content ! no) c))"
proof -
  let ?C = kContentChunkBytes
  let ?off = "no * ?C" and ?d = "chunks_of ?C content ! no"
  let ?bytes = "expected_chunk_size (length content) ?off"
  have data: "take ?bytes (window content no) = ?d" by (rule take_window[OF no])
  obtain k where read: "ReadEffectiveChunk s h st no = Inr (window content no, k)"
    using staged by (auto simp: staged_def effective_def)
  show ?thesis
  proof (cases "dirty_chunk s h no")
    case (Some e)
    with read data show ?thesis
      by (auto simp: staged_chunk_def ReadEffectiveChunk_def split: if_splits)
  next
    case None
    show ?thesis
    proof (cases "s_base_visible st \<le> ?off")
      case True
      with None read data show ?thesis by (auto simp: staged_chunk_def ReadEffectiveChunk_def Let_def)
    next
      case False
      with None read obtain c where c: "base_chunk s st no = Some c" "base_manifest_id st \<noteq> 0"
          "\<not> chunk_corrupt no (expected_chunk_size (s_base_size st) ?off) no c"
          "window content no = pad_chunk (take (min (expected_chunk_size (s_base_size st) ?off)
             (s_base_visible st - ?off)) (ch_content c))"
        by (auto simp: ReadEffectiveChunk_def Let_def split: option.splits if_splits)
      define expected where "expected = expected_chunk_size (s_base_size st) ?off"
      define visible where "visible = min expected (s_base_visible st - ?off)"
      have ok: "expected \<noteq> 0" "ch_size c = expected" "length (ch_content c) = expected" "length (ch_checksum c) = 64"
          "Sha256Hex (ch_content c) = Inr (ch_checksum c)"
        using c(3) by (simp_all add: chunk_corrupt_def expected_def)
      have "(no, c) \<in> set (manifest_rows s (base_manifest_id st))"
        using c(1) by (auto simp: base_chunk_def dest!: find_SomeD)
      then have owner: "ch_inode c = inode" and mem: "c \<in> set (chunks s)"
        using owned False by (auto simp: base_owned_def manifest_of_def dest: manifest_rows_chunk)
      have "take ?bytes (pad_chunk (take visible (ch_content c))) = ?d"
        using data c(4) by (simp add: visible_def expected_def)
      moreover have "ch_content c = ?d" if "visible = expected" "expected = ?bytes"
        using calculation that ok(3) take_pad_chunk[of ?bytes "ch_content c"]
        by (simp add: expected_chunk_size_def)
      ultimately show ?thesis
        using None False c(1,2) ok owner mem unfolding staged_chunk_def
        by (auto simp: Let_def expected_def[symmetric] visible_def[symmetric] owned_chunk_def stored_chunk_def)
    qed
  qed
qed

lemma staged_content_store:
  assumes staged: "staged s h st content" and owned: "base_owned s inode st"
    and wf: "content_wf s" and app: "manifest_appended mid s t"
  shows "staged t h st content \<and> base_owned t inode st"
proof -
  have tables: "staging t = staging s" "staging_chunks t = staging_chunks s"
    using app by (auto simp: manifest_appended_def)
  have rows: "find_manifest t (base_manifest_id st) \<noteq> None \<and>
      manifest_rows t (base_manifest_id st) = manifest_rows s (base_manifest_id st)" if "0 < s_base_visible st"
    using that owned manifest_appended_extends[OF app wf]
    by (auto simp: base_owned_def manifest_of_def content_extends_def)
  have dirty: "dirty_chunk t h = dirty_chunk s h" "dirty_bytes t h = dirty_bytes s h" "dirty_ok t h = dirty_ok s h"
      "find_staging t h = find_staging s h"
    using tables by (simp_all add: dirty_chunk_def dirty_bytes_def dirty_ok_def find_staging_def fun_eq_iff)
  have "ReadEffectiveChunk t h st no = ReadEffectiveChunk s h st no" for no
  proof (cases "0 < s_base_visible st")
    case True
    with rows dirty(1) show ?thesis by (intro ReadEffectiveChunk_cong) (simp_all add: base_chunk_def)
  next
    case False
    with dirty(1) show ?thesis
      by (cases "dirty_chunk s h no") (simp_all add: ReadEffectiveChunk_beyond, simp add: ReadEffectiveChunk_def)
  qed
  with staged rows owned dirty show ?thesis by (simp add: staged_def effective_def base_owned_def manifest_of_def)
qed

lemma store_staged_run:
  assumes staged: "staged s0 h st content" and owned: "base_owned s0 inode st" and wf: "content_wf s0"
    and ds: "ds = chunks_of kContentChunkBytes content"
  shows "manifest_appended mid s0 s \<Longrightarrow> distinct (map ch_id (chunks s)) \<Longrightarrow> entries_below mid k s \<Longrightarrow>
    new_chunks_ok inode (set ds) (chunks s) new \<Longrightarrow> nos = [k..<length ds] \<Longrightarrow>
    \<exists>u. store_staged ws inode prev mid h st nos new acc s = (Inr (acc @ map bytes_mcc (drop k ds)), u) \<and>
      placed inode (set ds) mid k (drop k ds) s u"
proof (induction nos arbitrary: s k new acc)
  case Nil
  then have "length ds \<le> k" by (metis upt_eq_Nil_conv le0 le_zero_eq)
  with Nil show ?case by (simp add: op_simps placed_Nil)
next
  case (Cons no nos)
  from Cons.prems(5) have no: "no = k" "k < length ds" "nos = [Suc k..<length ds]"
    using upt_eq_Cons_conv[of k "length ds" no nos] by auto
  let ?d = "ds ! k" and ?n = "expected_chunk_size (s_logical st) (k * kContentChunkBytes)"
  have logical: "s_logical st = length content" using staged by (simp add: staged_def)
  have now: "staged s h st content" "base_owned s inode st"
    using staged_content_store[OF staged owned wf Cons.prems(1)] by simp_all
  from staged_chunk_run[OF now, of k] no(2) obtain cid base where chunk: "staged_chunk s inode h st k ?n = Inr (?d, cid, base)"
      "cid \<noteq> 0 \<Longrightarrow> \<exists>c \<in> set (chunks s). ch_id c = cid \<and> ch_checksum c = base \<and> owned_chunk inode ?d c"
    by (auto simp: ds logical)
  have d: "?d \<in> set ds" using no(2) by simp
  then obtain t where t: "Sha256Hex ?d = Inr t" using chunk_digest ds by blast
  define found where "found = (if cid \<noteq> 0 then Some cid else previous_chunk s prev k inode ?d t)"
  have "\<exists>c \<in> set (chunks s). ch_id c = i \<and> owned_chunk inode ?d c" if "found = Some i" for i
    using that chunk(2) previous_chunk_stored[OF _ t, of s prev k inode i]
    by (auto simp: found_def split: if_splits)
  from place_chunk_run[OF Cons.prems(2,3,4) d t this, where ws = ws]
  obtain new' s1 where step: "place_chunk ws inode mid k ?d t found new s = (Inr new', s1)"
      "placed inode (set ds) mid k [?d] s s1" "new_chunks_ok inode (set ds) (chunks s1) new'"
    by blast
  from Cons.IH[OF placed_appended[OF Cons.prems(1) step(2)] placed_ids[OF step(2)]
      placed_below[OF step(2) Cons.prems(3)] step(3) no(3), of "acc @ [bytes_mcc ?d]"]
  obtain u where u: "store_staged ws inode prev mid h st nos new' (acc @ [bytes_mcc ?d]) s1 =
      (Inr ((acc @ [bytes_mcc ?d]) @ map bytes_mcc (drop (Suc k) ds)), u)"
      "placed inode (set ds) mid (Suc k) (drop (Suc k) ds) s1 u" by blast
  have split: "drop k ds = ?d # drop (Suc k) ds" using no(2) by (rule Cons_nth_drop_Suc[symmetric])
  have "\<not> (0 < cid \<and> t \<noteq> base)" using chunk(2) t by (auto simp: owned_chunk_def stored_chunk_def)
  then have "store_staged ws inode prev mid h st (no # nos) new acc s = (Inr (acc @ map bytes_mcc (drop k ds)), u)"
    using chunk(1) t step(1)[unfolded found_def] u(1) no(1) split
    by (cases "cid = 0") (simp_all add: op_simps bytes_mcc_def)
  with placed_Cons[OF step(2) u(2)] show ?case by (simp add: split)
qed

lemma StoreManifestFromStaging_stored:
  assumes staged: "staged s (h_id handle) st content" and owned: "base_owned s inode st" and wf: "content_wf s"
  shows "\<exists>content' r s'. StoreManifestFromStaging ws inode prev handle st s = (Inr r, s') \<and>
    stored_as content content' \<and> manifest_added ws inode content' r s s'"
proof -
  let ?h = "h_id handle" and ?ds = "chunks_of kContentChunkBytes content"
  have logical: "s_logical st = length content" and size: "length content \<le> kMaxStagedBytes"
    and cap: "s_capacity st = dirty_bytes s ?h" and ok: "dirty_ok s ?h (length content)"
    using staged by (simp_all add: staged_def)
  have count: "chunk_count_of (length content) = length ?ds" by (rule chunk_count_of_length)
  let ?loop = "\<lambda>mid. store_staged ws inode prev mid ?h st [0..<length ?ds] [] []"
  have "\<not> chunk_count_of (length content) \<le> sc_no c" if "c \<in> set (staging_chunks s)" "sc_handle c = ?h" for c
  proof -
    have "sc_content c \<noteq> []" "sc_no c * kContentChunkBytes + length (sc_content c) \<le> length content"
      using ok that by (simp_all add: dirty_ok_def)
    then show ?thesis unfolding chunk_count_le by (simp add: not_le) (metis add_less_same_cancel1 le_less_trans length_greater_0_conv less_add_same_cancel1 less_le_trans)
  qed
  then have run: "StoreManifestFromStaging ws inode prev handle st s =
      manifest_writer ws (length content) ?loop s"
    using staged dirty_bytes_bound[OF ok] size cap
    by (auto simp: StoreManifestFromStaging_def require_run bind_run[of "gets _"] op_run logical count staged_def manifest_writer_def)
  have loop: "\<exists>u. ?loop mid s1 = (Inr (map bytes_mcc ?ds), u) \<and> placed inode (set ?ds) mid 0 ?ds s1 u"
    if "distinct (map ch_id (chunks s1))" "entries_below mid 0 s1" "manifest_appended mid s s1" for mid s1
    using store_staged_run[OF staged owned wf refl that(3,1,2), of "[]" "[0..<length ?ds]" ws prev "[]"]
    by (simp add: new_chunks_ok_def)
  show ?thesis unfolding run by (rule writer_added[OF wf size refl loop])
qed

section \<open>Opening a handle\<close>

text \<open>A handle without dirty chunks over a manifest sees the content of that manifest.\<close>

lemma manifest_effective:
  assumes stored: "manifest_stored s mid content" and mid: "0 < mid"
    and st: "s_base_manifest st = Some mid" "s_base_size st = length content" "s_base_visible st = length content"
    and clean: "\<And>no. dirty_chunk s h no = None"
  shows "effective s h st content"
  unfolding effective_def
proof
  fix no
  let ?C = kContentChunkBytes
  obtain cs where cs: "manifest_rows s mid = enumerate 0 cs" "list_all2 stored_chunk (chunks_of ?C content) cs"
    using stored by (auto simp: manifest_stored_def)
  show "\<exists>n. ReadEffectiveChunk s h st no = Inr (window content no, n)"
  proof (cases "length content \<le> no * ?C")
    case True
    then show ?thesis using clean st by (simp add: ReadEffectiveChunk_beyond window_beyond)
  next
    case False
    then have no: "no < length (chunks_of ?C content)" by (intro chunk_in_range) simp_all
    with cs(2) have c: "no < length cs" "stored_chunk (chunks_of ?C content ! no) (cs ! no)"
      by (auto simp: list_all2_conv_all_nth)
    have "find (\<lambda>(n, _). n = no) (enumerate 0 cs) = Some (no, cs ! no)"
      using c(1) by (intro find_unique[where key = fst]) (auto simp: in_set_enumerate_eq distinct_enumerate)
    then have base: "base_chunk s st no = Some (cs ! no)"
      by (simp add: base_chunk_def base_manifest_id_def st(1) cs(1))
    have chunk: "chunks_of ?C content ! no = take ?C (drop (no * ?C) content)" by (rule nth_chunks_of[OF no])
    then have "chunks_of ?C content ! no \<noteq> []"
        "length (chunks_of ?C content ! no) = expected_chunk_size (length content) (no * ?C)"
      using False by (auto simp: expected_chunk_size_def min.commute)
    with c(2) have "\<not> chunk_corrupt no (expected_chunk_size (length content) (no * ?C)) no (cs ! no)"
      by (rule stored_chunk_not_corrupt)
    moreover have "pad_chunk (take (min (expected_chunk_size (length content) (no * ?C)) (length content - no * ?C))
        (ch_content (cs ! no))) = window content no"
      using c(2) chunk
      by (intro window_eqI) (auto simp: stored_chunk_def expected_chunk_size_def byte_at_take byte_at_drop byte_at_beyond)
    ultimately show ?thesis using False clean base mid st
      by (simp add: ReadEffectiveChunk_def base_manifest_id_def)
  qed
qed

lemma insert_staging_run:
  "s_handle st \<notin> s_handle ` set (staging s) \<Longrightarrow>
   insert_staging st s = (Inr (), s\<lparr>staging := staging s @ [st]\<rparr>) \<and>
   find_staging (s\<lparr>staging := staging s @ [st]\<rparr>) (s_handle st) = Some st"
  by (simp add: insert_staging_def op_simps find_staging_def find_append find_fresh_key)

text \<open>The handle is new: it has no row and no chunks.\<close>

definition unstaged :: "db \<Rightarrow> string \<Rightarrow> bool" where
  "unstaged s h \<longleftrightarrow> h \<notin> s_handle ` set (staging s) \<and> h \<notin> sc_handle ` set (staging_chunks s) \<and>
     distinct (map chunk_key (staging_chunks s))"

lemma unstaged_clean:
  "unstaged s h \<Longrightarrow> dirty_chunk s h no = None \<and> dirty_bytes s h = 0 \<and> dirty_ok s h n"
  by (auto simp: unstaged_def dirty_chunk_None dirty_bytes_def dirty_ok_def filter_empty_conv image_iff)

lemma chunk_index_less: "j < kContentChunkBytes \<Longrightarrow> no * kContentChunkBytes + j < k * kContentChunkBytes \<longleftrightarrow> no < k"
  using div_less_iff_less_mult[OF kContentChunkBytes_pos, of "no * kContentChunkBytes + j" k] by simp

lemma place_dirty_chunks:
  assumes st: "s_base_visible st = 0" and content: "length content \<le> n"
  shows "effective s h st (take (k * kContentChunkBytes) content) \<Longrightarrow> dirty_ok s h n \<Longrightarrow>
    dirty_bytes s h = min (k * kContentChunkBytes) (length content) \<Longrightarrow>
    (\<And>no. k \<le> no \<Longrightarrow> dirty_chunk s h no = None) \<Longrightarrow>
    \<exists>t. for_each (enumerate k (chunks_of kContentChunkBytes (drop (k * kContentChunkBytes) content)))
        (\<lambda>(no, chunk). StoreDirtyChunk h no chunk) s = (Inr (), t) \<and>
      effective t h st content \<and> dirty_ok t h n \<and> dirty_bytes t h = length content \<and> only_chunks h s t"
proof (induction "length content - k * kContentChunkBytes" arbitrary: k s rule: less_induct)
  case less
  let ?C = kContentChunkBytes
  show ?case
  proof (cases "length content \<le> k * ?C")
    case True
    with less.prems show ?thesis by (simp add: op_simps)
  next
    case False
    let ?d = "take ?C (drop (k * ?C) content)" and ?rest = "drop (Suc k * ?C) content"
    let ?t = "set_dirty_chunk h k ?d s"
    have d: "?d \<noteq> []" "length ?d \<le> ?C" "k * ?C + length ?d \<le> n" using False content by auto
    have "pad_chunk ?d = window (take (Suc k * ?C) content) k"
      using d(2) by (intro window_eqI) (auto simp: byte_at_take byte_at_drop)
    moreover have "window (take (Suc k * ?C) content) no = window (take (k * ?C) content) no" if "no \<noteq> k" for no
    proof (rule sym, rule window_eqI)
      fix j assume j: "j < ?C"
      have "no * ?C + j < k * ?C \<longleftrightarrow> no < k" "no * ?C + j < Suc k * ?C \<longleftrightarrow> no < Suc k"
        using j by (simp_all only: chunk_index_less)
      then show "byte_at (window (take (k * ?C) content) no) j = byte_at (take (Suc k * ?C) content) (no * ?C + j)"
        using j that by (simp only: byte_at_window byte_at_take if_True) simp
    qed simp
    ultimately have eff: "effective ?t h st (take (Suc k * ?C) content)"
      by (intro set_dirty_chunk_effective[OF less.prems(1) d(1,2)])
    have ok: "dirty_ok ?t h n" by (rule set_dirty_chunk_ok[OF less.prems(2) d])
    have "DirtyChunkSize s h k = 0" using less.prems(4) by (simp add: DirtyChunkSize_def)
    then have bytes: "dirty_bytes ?t h = min (Suc k * ?C) (length content)"
      using dirty_bytes_set[OF less.prems(2), of k ?d] less.prems(3) False by auto
    have above: "dirty_chunk ?t h no = None" if "Suc k \<le> no" for no
      using less.prems(4) that by (simp add: dirty_chunk_set)
    have "length content - Suc k * ?C < length content - k * ?C" using False by (simp add: kContentChunkBytes_def)
    from less.hyps[OF this eff ok bytes above] obtain u where
      u: "for_each (enumerate (Suc k) (chunks_of ?C ?rest)) (\<lambda>(no, chunk). StoreDirtyChunk h no chunk) ?t = (Inr (), u)"
        "effective u h st content" "dirty_ok u h n" "dirty_bytes u h = length content" "only_chunks h ?t u"
      by blast
    have "chunks_of ?C (drop (k * ?C) content) = ?d # chunks_of ?C ?rest"
      using False by (subst chunks_of_step) (simp_all add: add.commute)
    moreover have "StoreDirtyChunk h k ?d s = (Inr (), ?t)" using d by (simp add: StoreDirtyChunk_def op_simps)
    ultimately show ?thesis using u only_chunks_trans[OF only_chunks_set u(5)] by (auto simp: op_simps)
  qed
qed

lemma CreateStaging_staged:
  assumes fresh: "unstaged s (h_id handle)" and size: "length content \<le> kMaxStagedBytes"
  shows "\<exists>t st. CreateStaging handle content s = (Inr (), t) \<and> staged t (h_id handle) st content \<and>
    s_generation st = h_dirty handle \<and> s_base_visible st = 0 \<and> apart (h_id handle) s t"
proof -
  let ?h = "h_id handle"
  define st where "st = \<lparr>s_handle = ?h, s_generation = h_dirty handle, s_base_manifest = None,
         s_base_size = 0, s_base_visible = 0, s_logical = length content, s_capacity = length content\<rparr>"
  let ?s = "s\<lparr>staging := staging s @ [st]\<rparr>"
  have ins: "insert_staging st s = (Inr (), ?s)" "find_staging ?s ?h = Some st"
    using insert_staging_run[of st s] fresh by (simp_all add: st_def unstaged_def)
  have "dirty_chunk ?s ?h no = dirty_chunk s ?h no" "dirty_bytes ?s ?h = dirty_bytes s ?h" "dirty_ok ?s ?h = dirty_ok s ?h" for no
    by (simp_all add: dirty_chunk_def dirty_bytes_def dirty_ok_def fun_eq_iff)
  with unstaged_clean[OF fresh] have clean: "dirty_chunk ?s ?h no = None" "dirty_bytes ?s ?h = 0"
      "dirty_ok ?s ?h (length content)" for no by simp_all
  have "effective ?s ?h st []"
    unfolding effective_def using clean by (simp add: ReadEffectiveChunk_beyond window_beyond st_def)
  from place_dirty_chunks[where k = 0 and st = st and s = ?s and h = ?h, OF _ order_refl] this clean
  obtain t where t: "for_each (enumerate 0 (chunks_of kContentChunkBytes content)) (\<lambda>(no, chunk). StoreDirtyChunk ?h no chunk) ?s = (Inr (), t)"
      "effective t ?h st content" "dirty_ok t ?h (length content)" "dirty_bytes t ?h = length content" "only_chunks ?h ?s t"
    by (auto simp: st_def)
  have "find_staging t ?h = Some st" using t(5) ins(2) by (auto simp: only_chunks_def find_staging_def)
  then have "staged t ?h st content" using t size by (simp add: staged_def st_def)
  moreover have "CreateStaging handle content s = (Inr (), t)"
    using size ins(1) t(1) by (simp add: CreateStaging_def op_simps st_def)
  moreover have "apart ?h s t" using t(5) by (auto simp: only_chunks_def apart_def st_def)
  ultimately show ?thesis by (intro exI[of _ t] exI[of _ st]) (simp add: st_def)
qed

lemma manifest_staged:
  assumes stored: "manifest_stored s mid content" "0 < mid" "length content \<le> kMaxStagedBytes"
    and st: "find_staging s h = Some st" "s_base_manifest st = Some mid" "s_base_size st = length content"
      "s_base_visible st = length content" "s_logical st = length content" "s_capacity st = 0"
    and clean: "h \<notin> sc_handle ` set (staging_chunks s)" "distinct (map chunk_key (staging_chunks s))"
  shows "staged s h st content"
proof -
  have "dirty_chunk s h no = None" "dirty_bytes s h = 0" "dirty_ok s h (length content)" for no
    using clean by (auto simp: dirty_chunk_None dirty_bytes_def dirty_ok_def filter_empty_conv image_iff)
  with manifest_effective[OF stored(1,2) st(2-4)] st stored(3) show ?thesis by (simp add: staged_def)
qed

lemma CreateStagingFromVersion_staged:
  assumes fresh: "unstaged s (h_id handle)"
    and read: "i_version node = 0 \<and> content = [] \<or>
      0 < i_version node \<and> ReadVersionContent s (i_id node) (i_version node) = Inr content \<and>
      i_size node = int (length content)"
  shows "\<exists>t st. CreateStagingFromVersion handle node s = (Inr (), t) \<and> staged t (h_id handle) st content \<and>
    s_generation st = h_dirty handle \<and> apart (h_id handle) s t \<and>
    (0 < s_base_visible st \<longrightarrow> (\<exists>storage. ResolveVersionStorage s (i_id node) (i_version node) = Inr storage \<and>
       base_manifest_id st = vs_manifest storage))"
proof (cases "i_version node = 0 \<or> i_size node = 0")
  case True
  with read have "content = []" by auto
  moreover obtain t st where "CreateStaging handle [] s = (Inr (), t)" "staged t (h_id handle) st []"
      "s_generation st = h_dirty handle" "s_base_visible st = 0" "apart (h_id handle) s t"
    using CreateStaging_staged[OF fresh, of "[]"] by auto
  ultimately show ?thesis using True
    by (intro exI[of _ t] exI[of _ st]) (simp add: CreateStagingFromVersion_def)
next
  case False
  let ?h = "h_id handle"
  from False read obtain storage where storage: "ResolveVersionStorage s (i_id node) (i_version node) = Inr storage"
      "manifest_stored s (vs_manifest storage) content" "vs_size storage = length content"
    by (auto simp: ReadVersionContent_ok)
  note bounds = ResolveVersionStorage_ok(1,4)[OF storage(1)]
  define st where "st = \<lparr>s_handle = ?h, s_generation = h_dirty handle, s_base_manifest = Some (vs_manifest storage),
    s_base_size = vs_size storage, s_base_visible = vs_size storage, s_logical = vs_size storage, s_capacity = 0\<rparr>"
  let ?t = "s\<lparr>staging := staging s @ [st]\<rparr>"
  have ins: "insert_staging st s = (Inr (), ?t)" "find_staging ?t ?h = Some st"
    using insert_staging_run[of st s] fresh by (simp_all add: st_def unstaged_def)
  have "manifest_stored ?t (vs_manifest storage) content"
    using storage(2) by (simp add: manifest_stored_def manifest_rows_def)
  then have "staged ?t ?h st content"
    using storage bounds fresh ins(2) by (intro manifest_staged) (simp_all add: st_def unstaged_def)
  moreover have "CreateStagingFromVersion handle node s = (Inr (), ?t)"
    using False read storage ins(1) by (auto simp: CreateStagingFromVersion_def op_simps st_def)
  moreover have "apart ?h s ?t" by (simp add: apart_def st_def)
  ultimately show ?thesis using storage(1) by (intro exI[of _ ?t] exI[of _ st]) (simp add: st_def base_manifest_id_def)
qed

section \<open>The interface of a staged file\<close>

text \<open>
  What a client of a staged file relies on: the content it holds, and what a write, a truncation and
  a read do to it or return of it.
\<close>

locale byte_file =
  fixes holds :: "'s \<Rightarrow> byte list \<Rightarrow> bool"
    and put_at :: "int \<Rightarrow> byte list \<Rightarrow> ('s, nat) oper"
    and cut_to :: "int \<Rightarrow> ('s, nat) oper"
    and get_range :: "'s \<Rightarrow> int \<Rightarrow> int \<Rightarrow> byte list result"
  assumes put_law: "holds s content \<Longrightarrow> 0 \<le> off \<Longrightarrow> off + int (length patch) \<le> int kMaxStagedBytes \<Longrightarrow> patch \<noteq> [] \<Longrightarrow>
      \<exists>g t. put_at off patch s = (Inr g, t) \<and> holds t (overwrite content (nat off) patch)"
    and cut_law: "holds s content \<Longrightarrow> 0 \<le> n \<Longrightarrow> n \<le> int kMaxStagedBytes \<Longrightarrow>
      \<exists>g t. cut_to n s = (Inr g, t) \<and> holds t (resize (nat n) content)"
    and get_law: "holds s content \<Longrightarrow> 0 \<le> off \<Longrightarrow> off \<le> int kMaxStagedBytes \<Longrightarrow> 0 \<le> len \<Longrightarrow>
      len \<le> int kMaxStagedBytes \<Longrightarrow> get_range s off len = Inr (take (nat len) (drop (nat off) content))"

text \<open>A sequence of edits, on the abstract file and through the interface.\<close>

datatype edit = Put int "byte list" | Cut int

fun edit_ok :: "edit \<Rightarrow> bool" where
  "edit_ok (Put off patch) \<longleftrightarrow> 0 \<le> off \<and> off + int (length patch) \<le> int kMaxStagedBytes \<and> patch \<noteq> []"
| "edit_ok (Cut n) \<longleftrightarrow> 0 \<le> n \<and> n \<le> int kMaxStagedBytes"

fun edited :: "edit \<Rightarrow> byte list \<Rightarrow> byte list" where
  "edited (Put off patch) content = overwrite content (nat off) patch"
| "edited (Cut n) content = resize (nat n) content"

fun run_edit :: "(int \<Rightarrow> byte list \<Rightarrow> ('s, nat) oper) \<Rightarrow> (int \<Rightarrow> ('s, nat) oper) \<Rightarrow> edit \<Rightarrow> ('s, unit) oper" where
  "run_edit put_at cut_to (Put off patch) = bind (put_at off patch) (\<lambda>_. ret ())"
| "run_edit put_at cut_to (Cut n) = bind (cut_to n) (\<lambda>_. ret ())"

context byte_file
begin

lemma edit_holds:
  "holds s content \<Longrightarrow> edit_ok e \<Longrightarrow> \<exists>t. run_edit put_at cut_to e s = (Inr (), t) \<and> holds t (edited e content)"
  using put_law cut_law by (cases e) (fastforce simp: op_simps)+

lemma edits_hold:
  "holds s content \<Longrightarrow> list_all edit_ok es \<Longrightarrow>
   \<exists>t. for_each es (run_edit put_at cut_to) s = (Inr (), t) \<and> holds t (fold edited es content)"
proof (induction es arbitrary: s content)
  case (Cons e es)
  from edit_holds[of s content e] Cons.prems
  obtain t where t: "run_edit put_at cut_to e s = (Inr (), t)" "holds t (edited e content)" by auto
  with Cons.IH[OF t(2)] Cons.prems show ?case by (auto simp: op_simps)
qed (simp add: op_simps)

lemma get_after_edits:
  assumes "holds s content" "list_all edit_ok es" "0 \<le> off" "off \<le> int kMaxStagedBytes" "0 \<le> len"
    "len \<le> int kMaxStagedBytes"
  shows "\<exists>t. for_each es (run_edit put_at cut_to) s = (Inr (), t) \<and>
    get_range t off len = Inr (take (nat len) (drop (nat off) (fold edited es content)))"
  using edits_hold[OF assms(1,2)] get_law assms(3-) by blast

end

text \<open>The operations as a handler calls them: on the current row of the handle.\<close>

definition stage_put :: "string \<Rightarrow> int \<Rightarrow> byte list \<Rightarrow> nat vexfs" where
  "stage_put h off patch = bind (query (\<lambda>s. FindHandle s h)) (\<lambda>handle. StageWrite handle off patch)"

definition stage_cut :: "string \<Rightarrow> int \<Rightarrow> nat vexfs" where
  "stage_cut h n = bind (query (\<lambda>s. FindHandle s h)) (\<lambda>handle. TruncateStaging handle n)"

definition stage_get :: "string \<Rightarrow> db \<Rightarrow> int \<Rightarrow> int \<Rightarrow> byte list result" where
  "stage_get h s off len = res_bind (FindHandle s h) (\<lambda>handle. ReadStagingRange s handle off len)"

definition handle_holds :: "string \<Rightarrow> db \<Rightarrow> byte list \<Rightarrow> bool" where
  "handle_holds h s content \<longleftrightarrow> h \<in> h_id ` set (handles s) \<and> overlay s h content"

lemma FindHandle_ok: "h \<in> h_id ` set (handles s) \<longleftrightarrow> (\<exists>handle. FindHandle s h = Inr handle \<and> h_id handle = h)"
proof
  assume "h \<in> h_id ` set (handles s)"
  then have "find (\<lambda>r. h_id r = h) (handles s) \<noteq> None" by (auto simp: find_None_iff)
  then show "\<exists>handle. FindHandle s h = Inr handle \<and> h_id handle = h"
    by (auto simp: FindHandle_def dest: find_SomeD)
qed (auto simp: FindHandle_def split: option.splits dest: find_SomeD)

lemma handles_set_generation: "h_id ` set (handles (set_generation h g s)) = h_id ` set (handles s)"
proof -
  have "map h_id (handles (set_generation h g s)) = map h_id (handles s)"
    by (simp add: set_generation_def update_handles_def)
  then show ?thesis by (metis set_map)
qed

text \<open>The staging operations leave the handles there.\<close>

definition handle_ids :: "string set \<Rightarrow> db \<Rightarrow> bool" where
  "handle_ids H s \<longleftrightarrow> H \<subseteq> h_id ` set (handles s)"

lemma handle_ids_steps:
  "preserves (handle_ids H) (StoreDirtyChunk h no d)" "preserves (handle_ids H) (modify (update_staging h f))"
  "preserves (handle_ids H) (modify (set_generation h g))" "preserves (handle_ids H) (modify (remove_dirty_chunks h first))"
  unfolding StoreDirtyChunk_def
  by (intro preserve_intros;
      simp add: handle_ids_def handles_set_generation set_dirty_chunk_def update_staging_def remove_dirty_chunks_def)+

lemma stage_loop_ids: "preserves (handle_ids H) (stage_loop h st n absolute patch delta)"
proof (induction h st n absolute patch delta rule: stage_loop.induct)
  case (1 h st n absolute patch delta)
  show ?case
  proof (cases "patch = []")
    case True
    then show ?thesis by (simp add: stage_loop.simps preserves_basic)
  next
    case False
    show ?thesis
      by (subst stage_loop.simps, unfold if_not_P[OF False] Let_def stage_chunk_def)
        (intro preserve_intros handle_ids_steps 1[OF False refl])
  qed
qed

lemma stage_ids:
  "preserves (handle_ids H) (StageWrite handle off patch)" "preserves (handle_ids H) (TruncateStaging handle n)"
  unfolding StageWrite_def TruncateStaging_def shrink_staging_def
  by (intro preserve_intros handle_ids_steps stage_loop_ids)+

lemma handle_kept: "preserves (handle_ids {h}) m \<Longrightarrow> m s = (r, t) \<Longrightarrow> h \<in> h_id ` set (handles s) \<Longrightarrow> h \<in> h_id ` set (handles t)"
  by (drule preservesD[of _ _ s]) (auto simp: handle_ids_def)

interpretation handle_file: byte_file "handle_holds h" "stage_put h" "stage_cut h" "stage_get h" for h
proof
  fix s content off and patch :: "byte list"
  assume "handle_holds h s content" and range: "0 \<le> off" "off + int (length patch) \<le> int kMaxStagedBytes" "patch \<noteq> []"
  then obtain handle st where h: "h \<in> h_id ` set (handles s)" "FindHandle s h = Inr handle" "h_id handle = h" "staged s h st content"
    by (auto simp: handle_holds_def FindHandle_ok overlay_def)
  from StageWrite_staged[of s handle st content patch off] h(3,4) range
  obtain t st' where t: "StageWrite handle off patch s = (Inr (h_dirty handle + 1), t)"
      "staged t h st' (overwrite content (nat off) patch)" by auto
  moreover have "h \<in> h_id ` set (handles t)" by (rule handle_kept[OF stage_ids(1) t(1) h(1)])
  ultimately show "\<exists>g t. stage_put h off patch s = (Inr g, t) \<and> handle_holds h t (overwrite content (nat off) patch)"
    using h(2) by (auto simp: stage_put_def op_simps handle_holds_def overlay_def)
next
  fix s content n
  assume "handle_holds h s content" and range: "0 \<le> n" "n \<le> int kMaxStagedBytes"
  then obtain handle st where h: "h \<in> h_id ` set (handles s)" "FindHandle s h = Inr handle" "h_id handle = h" "staged s h st content"
    by (auto simp: handle_holds_def FindHandle_ok overlay_def)
  from TruncateStaging_staged[of s handle st content n] h(3,4) range
  obtain g t st' where t: "TruncateStaging handle n s = (Inr g, t)" "staged t h st' (resize (nat n) content)" by auto
  moreover have "h \<in> h_id ` set (handles t)" by (rule handle_kept[OF stage_ids(2) t(1) h(1)])
  ultimately show "\<exists>g t. stage_cut h n s = (Inr g, t) \<and> handle_holds h t (resize (nat n) content)"
    using h(2) by (auto simp: stage_cut_def op_simps handle_holds_def overlay_def)
next
  fix s content off len
  assume "handle_holds h s content" and range: "0 \<le> off" "off \<le> int kMaxStagedBytes" "0 \<le> len" "len \<le> int kMaxStagedBytes"
  then obtain handle st where h: "FindHandle s h = Inr handle" "h_id handle = h" "staged s h st content"
    by (auto simp: handle_holds_def FindHandle_ok overlay_def)
  then show "stage_get h s off len = Inr (take (nat len) (drop (nat off) content))"
    using ReadStagingRange_staged[of s handle st content off len] range by (simp add: stage_get_def)
qed

section \<open>Properties\<close>

text \<open>
  C15: The staging area of an open handle behaves as a file of bytes: from a staging area that holds
  \<open>content\<close>, every sequence of writes and truncations within 128 MiB succeeds, and a read then returns
  the bytes of its range of the content that the same sequence gives on a list of bytes, where a write
  replaces what it covers and fills a gap with zeros and a truncation cuts or extends with zeros.
\<close>

theorem staged_edits_refine:
  assumes "handle_holds h s content" "list_all edit_ok es"
    and "0 \<le> off" "off \<le> int kMaxStagedBytes" "0 \<le> len" "len \<le> int kMaxStagedBytes"
  shows "\<exists>t. for_each es (run_edit (stage_put h) (stage_cut h)) s = (Inr (), t) \<and>
    stage_get h t off len = Inr (take (nat len) (drop (nat off) (fold edited es content)))"
  by (rule handle_file.get_after_edits[OF assms])

text \<open>
  C16: Handles are isolated: a write through one handle leaves what every other handle holds as it is.
\<close>

theorem staged_handles_isolated:
  assumes "handle_holds h s content" "overlay s h' content'" "h' \<noteq> h"
    and "0 \<le> off" "off + int (length patch) \<le> int kMaxStagedBytes"
  shows "\<exists>g t. stage_put h off patch s = (Inr g, t) \<and> overlay t h' content'"
proof (cases "patch = []")
  case True
  with assms show ?thesis by (auto simp: handle_holds_def FindHandle_ok stage_put_def StageWrite_def op_simps)
next
  case False
  from assms(1,2) obtain handle st st' where h: "FindHandle s h = Inr handle" "h_id handle = h" "staged s h st content"
      "staged s h' st' content'"
    by (auto simp: handle_holds_def FindHandle_ok overlay_def)
  from StageWrite_staged[of s handle st content patch off] h(2,3) assms(4,5) False
  obtain t st2 where t: "StageWrite handle off patch s = (Inr (h_dirty handle + 1), t)"
      "staged t h st2 (overwrite content (nat off) patch)" "apart h s t" by auto
  have "staged t h' st' content'" by (rule apart_staged[OF t(3) assms(3) staged_keys[OF t(2)] h(4)])
  with h(1) t(1) show ?thesis by (auto simp: stage_put_def op_simps overlay_def)
qed

section \<open>Witnesses\<close>

lemma opened_handles:
  assumes "h1 \<noteq> h2"
  obtains s where "handle_holds h1 s []" "handle_holds h2 s []"
proof -
  define r where "r h = new_handle h 1 1 ''rw'' True 0 1 None 0" for h
  define s0 where "s0 = empty_db\<lparr>handles := [r h1, r h2]\<rparr>"
  have id: "h_id (r h) = h" for h by (simp add: r_def new_handle_def)
  have "unstaged s0 h1" by (simp add: s0_def unstaged_def empty_db_def)
  from CreateStaging_staged[of s0 "r h1" "[]"] this id obtain s1 st1 where
    s1: "CreateStaging (r h1) [] s0 = (Inr (), s1)" "staged s1 h1 st1 []" "apart h1 s0 s1" by auto
  have s1': "staging s1 = [st1] \<and> staging_chunks s1 = [] \<and> handles s1 = [r h1, r h2] \<and> s_handle st1 = h1"
    using s1(1,2) id unfolding CreateStaging_def
    by (auto simp: op_simps insert_staging_def s0_def empty_db_def staged_def find_staging_def split: if_splits)
  then have "unstaged s1 h2" using assms by (simp add: unstaged_def)
  from CreateStaging_staged[of s1 "r h2" "[]"] this id obtain s2 st2 where
    s2: "CreateStaging (r h2) [] s1 = (Inr (), s2)" "staged s2 h2 st2 []" "apart h2 s1 s2" by auto
  have "handles s2 = [r h1, r h2]"
    using s2(1) s1' by (auto simp: CreateStaging_def op_simps insert_staging_def split: if_splits)
  moreover have "staged s2 h1 st1 []" using apart_staged[OF s2(3) assms staged_keys[OF s2(2)] s1(2)] .
  ultimately show ?thesis using that[of s2] s2(2) id by (auto simp: handle_holds_def overlay_def)
qed

theorem staged_edits_refine_witness:
  "\<exists>s t. handle_holds ''h'' s [] \<and>
     for_each [Put 2 [7], Cut 5] (run_edit (stage_put ''h'') (stage_cut ''h'')) s = (Inr (), t) \<and>
     stage_get ''h'' t 1 10 = Inr [0, 7, 0, 0]"
proof -
  obtain s where s: "handle_holds ''h'' s []" using opened_handles[of "''h''" "''g''"] by auto
  have ok: "list_all edit_ok [Put 2 [7], Cut 5]" by (simp add: kMaxStagedBytes_def)
  have "take 10 (drop 1 (fold edited [Put 2 [7], Cut 5] [])) = [0, 7, 0, 0 :: byte]"
    by (simp add: overwrite_def memcpy_at_def resize_def numeral_2_eq_2 numeral_3_eq_3 eval_nat_numeral)
  with staged_edits_refine[OF s ok, of 1 10] s show ?thesis by (auto simp: kMaxStagedBytes_def)
qed

theorem staged_handles_isolated_witness:
  "\<exists>s g t. handle_holds ''h'' s [] \<and> overlay s ''g'' [] \<and> stage_put ''h'' 0 [1, 2] s = (Inr g, t) \<and> overlay t ''g'' []"
proof -
  obtain s where s: "handle_holds ''h'' s []" "handle_holds ''g'' s []" using opened_handles[of "''h''" "''g''"] by auto
  then have "overlay s ''g'' []" by (simp add: handle_holds_def)
  with staged_handles_isolated[OF s(1) this, of 0 "[1, 2]"] s show ?thesis by (auto simp: kMaxStagedBytes_def)
qed

end
