(* ===== verification/Vex_Versions.thy ===== *)
theory Vex_Versions
  imports Vex_Overlay Vex_History
begin

text \<open>
  New versions of a file: what \<open>StoreVersion\<close>, \<open>StoreVersionFromVersion\<close> and \<open>StoreVersionFromStaging\<close>
  leave behind, and that in every execution each recorded version can be read.
\<close>

section \<open>A manifest from any staging area\<close>

text \<open>
  Whatever the rows of a staging area are: when the code returns, it has stored a content of the
  recorded size.
\<close>

lemma length_pad: "length d \<le> kContentChunkBytes \<Longrightarrow> n \<le> kContentChunkBytes \<Longrightarrow> length (take n (pad_chunk d)) = n"
  by simp

lemma staged_chunk_returned:
  assumes "staged_chunk s inode h st no n = Inr (d, cid, t)" "n \<le> kContentChunkBytes"
  shows "length d = n \<and> (cid \<noteq> 0 \<longrightarrow> (\<exists>c \<in> set (chunks s). ch_id c = cid \<and> ch_checksum c = t \<and> ch_content c = d \<and>
    ch_size c = length d \<and> ch_inode c = inode))"
proof (cases "dirty_chunk s h no")
  case (Some e)
  with assms show ?thesis by (auto simp: staged_chunk_def split: if_splits)
next
  case None
  let ?off = "no * kContentChunkBytes"
  show ?thesis
  proof (cases "s_base_visible st \<le> ?off")
    case True
    with None assms show ?thesis by (auto simp: staged_chunk_def Let_def)
  next
    case False
    define expected where "expected = expected_chunk_size (s_base_size st) ?off"
    define visible where "visible = min expected (s_base_visible st - ?off)"
    have small: "expected \<le> kContentChunkBytes" by (simp add: expected_def expected_chunk_size_def)
    from None False assms(1) obtain c where c: "base_chunk s st no = Some c" "ch_size c = expected"
        "length (ch_content c) = expected" "d = take n (pad_chunk (take visible (ch_content c)))"
        "cid \<noteq> 0 \<Longrightarrow> visible = expected \<and> expected = n \<and> cid = ch_id c" "t = ch_checksum c" "ch_inode c = inode"
      by (auto simp: staged_chunk_def Let_def expected_def[symmetric] visible_def[symmetric]
          split: option.splits if_splits)
    have "length d = n" using c(3,4) small assms(2) by simp
    moreover have "ch_content c = d" if "cid \<noteq> 0"
      using c(3,4) c(5)[OF that] small by (simp add: take_pad_chunk)
    ultimately show ?thesis using c base_chunk_member[OF c(1)] by auto
  qed
qed

lemma expected_chunk_size_le [simp]: "expected_chunk_size n off \<le> kContentChunkBytes"
  by (simp add: expected_chunk_size_def)

lemma store_staged_returned:
  "store_staged ws inode prev mid h st nos new acc s = (Inr acc', u) \<Longrightarrow> distinct (map ch_id (chunks s)) \<Longrightarrow>
   entries_below mid k s \<Longrightarrow> new_chunks_ok inode UNIV (chunks s) new \<Longrightarrow> nos = [k..<n] \<Longrightarrow>
   \<exists>ds. acc' = acc @ map bytes_mcc ds \<and> placed inode UNIV mid k ds s u \<and>
     map length ds = map (\<lambda>no. expected_chunk_size (s_logical st) (no * kContentChunkBytes)) nos"
proof (induction nos arbitrary: s k new acc)
  case Nil
  then show ?case by (intro exI[of _ "[]"]) (simp add: op_simps placed_Nil)
next
  case (Cons no nos)
  from Cons.prems(5) have no: "no = k" "nos = [Suc k..<n]" using upt_eq_Cons_conv[of k n no nos] by auto
  let ?n = "expected_chunk_size (s_logical st) (k * kContentChunkBytes)"
  from Cons.prems(1) no(1) obtain d cid base t new' s1 where
    chunk: "staged_chunk s inode h st k ?n = Inr (d, cid, base)" and t: "Sha256Hex d = Inr t"
    and ok: "\<not> (0 < cid \<and> t \<noteq> base)"
    and place: "place_chunk ws inode mid k d t
        (if cid \<noteq> 0 then Some cid else previous_chunk s prev k inode d t) new s = (Inr new', s1)"
    and rest: "store_staged ws inode prev mid h st nos new' (acc @ [bytes_mcc d]) s1 = (Inr acc', u)"
    by (auto simp: op_ok bytes_mcc_def split: prod.splits)
  define found where "found = (if cid \<noteq> 0 then Some cid else previous_chunk s prev k inode d t)"
  have d: "length d = ?n" "cid \<noteq> 0 \<Longrightarrow> \<exists>c \<in> set (chunks s). ch_id c = cid \<and> owned_chunk inode d c"
    using staged_chunk_returned[OF chunk] t ok by (auto simp: owned_chunk_def stored_chunk_def)
  have "\<exists>c \<in> set (chunks s). ch_id c = i \<and> owned_chunk inode d c" if "found = Some i" for i
    using that d(2) previous_chunk_stored[OF _ t, of s prev k inode i] by (auto simp: found_def split: if_splits)
  from place_chunk_run[where found = found and ws = ws, OF Cons.prems(2,3,4) UNIV_I t this]
    place[folded found_def]
  have step: "placed inode UNIV mid k [d] s s1" "new_chunks_ok inode UNIV (chunks s1) new'" by auto
  from Cons.IH[OF rest placed_ids[OF step(1)] placed_below[OF step(1) Cons.prems(3)] step(2) no(2)]
  obtain ds where ds: "acc' = (acc @ [bytes_mcc d]) @ map bytes_mcc ds" "placed inode UNIV mid (Suc k) ds s1 u"
      "map length ds = map (\<lambda>no. expected_chunk_size (s_logical st) (no * kContentChunkBytes)) nos" by blast
  with placed_Cons[OF step(1) ds(2)] d(1) no(1) show ?case by (intro exI[of _ "d # ds"]) simp
qed

lemma chunk_lengths:
  "map length (chunks_of kContentChunkBytes xs) =
     map (\<lambda>no. expected_chunk_size (length xs) (no * kContentChunkBytes)) [0..<chunk_count_of (length xs)]"
  by (rule nth_equalityI)
    (auto simp: chunk_count_of_length nth_chunks_of expected_chunk_size_def min.commute)

lemma StoreManifestFromStaging_returned:
  assumes wf: "content_wf s" and run: "StoreManifestFromStaging ws inode prev handle st s = (Inr r, u)"
  shows "\<exists>content. length content = s_logical st \<and> s_logical st \<le> kMaxStagedBytes \<and> manifest_added ws inode content r s u"
proof -
  let ?n = "s_logical st"
  let ?loop = "\<lambda>mid. store_staged ws inode prev mid (h_id handle) st [0..<chunk_count_of ?n] [] []"
  from run have size: "?n \<le> kMaxStagedBytes" and writer: "manifest_writer ws ?n ?loop s = (Inr r, u)"
    by (simp_all add: StoreManifestFromStaging_def manifest_writer_def require_ok bind_ok[of "gets _"] op_run_ok)
  have "\<exists>content. length content = ?n \<and> manifest_added ws inode content r s u"
  proof (rule writer_returned[OF wf size writer])
    fix mid s1 acc t
    assume "distinct (map ch_id (chunks s1))" "entries_below mid 0 s1" "?loop mid s1 = (Inr acc, t)"
    from store_staged_returned[OF this(3,1,2) _ refl]
    show "\<exists>ds. acc = map bytes_mcc ds \<and> placed inode UNIV mid 0 ds s1 t \<and>
        map length ds = map length (chunks_of kContentChunkBytes (replicate ?n (0::byte)))"
      using chunk_lengths[of "replicate ?n (0::byte)"] by (simp add: new_chunks_ok_def)
  qed
  with size show ?thesis by blast
qed

section \<open>Steps of a new version\<close>

text \<open>
  What a new version leaves alone: the names, the workspaces but for their log and their counters, the
  handles and the sessions.
\<close>

definition ws_view :: "workspace_row \<Rightarrow> workspace_row" where
  "ws_view w = w\<lparr>w_head := None, w_floor := None, w_live_files := 0, w_live_bytes := 0\<rparr>"

definition surroundings ::
  "db \<Rightarrow> dentry_row list \<times> workspace_row list \<times> handle_row list \<times> session_row list \<times> int" where
  "surroundings s = (dentries s, map ws_view (workspaces s), handles s, mount_sessions s, clock s)"

lemma ws_view_quota [simp]: "ws_view (quota_add i w) = ws_view w" "ws_view (quota_sub i w) = ws_view w"
  by (simp_all add: ws_view_def quota_add_def quota_sub_def)

lemma map_fold_view: "(\<And>x w. v (g x w) = v w) \<Longrightarrow> map v (fold (\<lambda>x. map (g x)) xs ws) = map v ws"
  by (induction xs arbitrary: ws) (simp_all add: comp_def)

lemma surroundings_update [simp]: "surroundings (update_inodes p f s) = surroundings s"
  by (simp add: surroundings_def update_inodes_def map_fold_view)

lemma surroundings_insert [simp]: "surroundings (insert_inode i s) = surroundings s"
  by (simp add: surroundings_def insert_inode_def comp_def)

lemma surroundings_commit [simp]:
  "surroundings (FlushHistoryChanges ws c s) = surroundings s" "surroundings (set_head ws c s) = surroundings s"
  by (simp_all add: surroundings_def FlushHistoryChanges_def Let_def set_head_def ws_view_def comp_def if_distrib cong: if_cong)

lemma surroundings_fields [simp]:
  "surroundings (s\<lparr>commits := a\<rparr>) = surroundings s" "surroundings (s\<lparr>content_fts := b\<rparr>) = surroundings s"
  "surroundings (s\<lparr>file_versions := c\<rparr>) = surroundings s" "surroundings (s\<lparr>manifests := d\<rparr>) = surroundings s"
  "surroundings (s\<lparr>chunks := e\<rparr>) = surroundings s" "surroundings (s\<lparr>manifest_chunks := f\<rparr>) = surroundings s"
  "surroundings (s\<lparr>grep_dirty := g\<rparr>) = surroundings s" "surroundings (s\<lparr>staging := h\<rparr>) = surroundings s"
  "surroundings (s\<lparr>staging_chunks := i\<rparr>) = surroundings s" "surroundings (s\<lparr>acl_entries := j\<rparr>) = surroundings s"
  "surroundings (s\<lparr>dirty_acl := k\<rparr>) = surroundings s"
  by (simp_all add: surroundings_def)

lemma commit_surroundings: "preserves (\<lambda>t. surroundings t = x) (CreateCommitInTransaction w message)"
  by (rule preservesI) (auto simp: CreateCommitInTransaction_run Let_def split: option.split)

lemma create_commit_surroundings: "preserves (\<lambda>t. surroundings t = x) (CreateCommit w message)"
  unfolding CreateCommit_def by (intro preserves_savepoint commit_surroundings)

lemma index_surroundings: "preserves (\<lambda>t. surroundings t = x) (UpdateGrepIndexFromVersion ws inode version)"
  unfolding UpdateGrepIndexFromVersion_def index_file_def
  by (auto intro!: preserve_intros simp: MarkGrepIndexDirty_def split: GrepIndexState.split)

lemma same_surroundings:
  "preserves (\<lambda>t. surroundings t = surroundings s) m \<Longrightarrow> m s = (r, t) \<Longrightarrow> surroundings t = surroundings s"
  using preservesD[of "\<lambda>t. surroundings t = surroundings s" m s r t] by simp

lemma manifest_surroundings: "manifest_added ws inode content r s t \<Longrightarrow> surroundings t = surroundings s"
  by (auto simp: manifest_added_def)

text \<open>The update of the inode row.\<close>

definition bump :: "inode_row \<Rightarrow> nat \<Rightarrow> int \<Rightarrow> inode_row \<Rightarrow> inode_row" where
  "bump node n now i = (if i_id i = i_id node \<and> i_version i = i_version node
     then i\<lparr>i_size := int n, i_version := i_version node + 1, i_updated := now, i_changed := now\<rparr> else i)"

lemma advance_ok:
  assumes "advance_version (i_id node) (i_version node) n (i_version node + 1) e s = (Inr u, t)"
  shows "inodes t = map (bump node n (now_ms s)) (inodes s)" "content_tables t = content_tables s"
    "surroundings t = surroundings s"
    "\<exists>i \<in> set (inodes s). i_id i = i_id node \<and> i_version i = i_version node"
proof -
  let ?p = "\<lambda>i. i_id i = i_id node \<and> i_version i = i_version node"
  have t: "t = update_inodes ?p (\<lambda>i. i\<lparr>i_size := int n, i_version := i_version node + 1, i_updated := now_ms s,
      i_changed := now_ms s\<rparr>) s" "length (filter ?p (inodes s)) = 1"
    using assms by (auto simp: advance_version_def op_simps split: if_splits)
  then show "inodes t = map (bump node n (now_ms s)) (inodes s)" "content_tables t = content_tables s"
    by (simp_all add: update_inodes_def bump_def content_tables_def)
  show "surroundings t = surroundings s" by (simp add: t(1))
  have "filter ?p (inodes s) \<noteq> []" using t(2) by auto
  then show "\<exists>i \<in> set (inodes s). ?p i" by (simp add: filter_empty_conv)
qed

lemma advance_run:
  assumes "distinct (map i_id (inodes s))" "i \<in> set (inodes s)" "i_id i = i_id node" "i_version i = i_version node"
  shows "\<exists>t. advance_version (i_id node) (i_version node) n v e s = (Inr (), t)"
proof -
  let ?p = "\<lambda>i. i_id i = i_id node \<and> i_version i = i_version node"
  have "filter ?p (inodes s) = filter ?p (filter (\<lambda>j. i_id j = i_id i) (inodes s))"
    using assms(3) by (auto intro: filter_cong)
  also have "\<dots> = [i]" using filter_key_unique[OF assms(1,2)] assms(3,4) by simp
  finally show ?thesis by (simp add: advance_version_def op_simps)
qed

text \<open>A commit touches neither inodes nor content.\<close>

definition file_tables :: "db \<Rightarrow> inode_row list \<times> manifest_row list \<times> chunk_row list \<times> manifest_chunk_row list \<times> version_row list" where
  "file_tables s = (inodes s, content_tables s)"

lemma file_tables_cong:
  "file_tables t = file_tables s \<longleftrightarrow> inodes t = inodes s \<and> content_tables t = content_tables s"
  by (simp add: file_tables_def)

lemma commit_file_tables: "preserves (\<lambda>t. file_tables t = x) (CreateCommitInTransaction w message)"
  by (rule preservesI)
    (auto simp: CreateCommitInTransaction_run set_head_def FlushHistoryChanges_def file_tables_def content_tables_def
      Let_def split: option.split)

lemma create_commit_file_tables: "preserves (\<lambda>t. file_tables t = x) (CreateCommit w message)"
  unfolding CreateCommit_def by (intro preserves_savepoint commit_file_tables)

lemma index_file_tables: "preserves (\<lambda>t. file_tables t = x) (UpdateGrepIndexFromVersion ws inode version)"
  unfolding UpdateGrepIndexFromVersion_def index_file_def
  by (auto intro!: preserve_intros simp: file_tables_def content_tables_def MarkGrepIndexDirty_def
      split: GrepIndexState.split)

lemma same_file_tables: "preserves (\<lambda>t. file_tables t = file_tables s) m \<Longrightarrow> m s = (r, t) \<Longrightarrow> file_tables t = file_tables s"
  using preservesD[of "\<lambda>t. file_tables t = file_tables s" m s r t] by simp

lemma insert_version_ok:
  "insert_version inode no c m n checksum source s = (Inr u, t) \<Longrightarrow>
   find_version s inode no = None \<and>
   t = s\<lparr>file_versions := file_versions s @
      [\<lparr>v_id = next_rowid (map v_id (file_versions s)), v_inode = inode, v_no = no, v_commit = c,
        v_manifest = m, v_size = int n, v_checksum = checksum, v_source = source,
        v_created = now_s_ms s\<rparr>]\<rparr>"
  by (auto simp: insert_version_def op_simps split: if_splits)

text \<open>The chunks of the manifest of a version belong to the inode of the version.\<close>

definition version_owned :: "db \<Rightarrow> version_row \<Rightarrow> bool" where
  "version_owned s v \<longleftrightarrow> (\<forall>m. v_manifest v = Some m \<longrightarrow> manifest_of s (v_inode v) m)"

lemma version_owned_extends: "content_extends s t \<Longrightarrow> version_owned s v \<Longrightarrow> version_owned t v"
  by (simp add: version_owned_def manifest_of_extends)

lemma version_owned_tables: "content_tables t = content_tables s \<Longrightarrow> version_owned t = version_owned s"
  by (simp add: version_owned_def manifest_of_def find_manifest_def manifest_rows_def content_tables_def fun_eq_iff)

text \<open>
  The columns of a version row that the table constrains: the row id is new, either the manifest or the source
  is set, and a manifest is new as well.
\<close>

definition fresh_version :: "db \<Rightarrow> version_row \<Rightarrow> bool" where
  "fresh_version s v \<longleftrightarrow> v_id v \<notin> v_id ` set (file_versions s) \<and> (v_manifest v = None \<longleftrightarrow> v_source v \<noteq> None) \<and>
     (\<forall>m. v_manifest v = Some m \<longrightarrow> find_manifest s m = None)"

lemma fresh_version_tables: "content_tables t = content_tables s \<Longrightarrow> fresh_version t = fresh_version s"
  by (simp add: fresh_version_def find_manifest_def content_tables_def fun_eq_iff)

text \<open>What a new version with the given content is.\<close>

definition version_step :: "inode_row \<Rightarrow> byte list \<Rightarrow> db \<Rightarrow> db \<Rightarrow> bool" where
  "version_step node content s t \<longleftrightarrow> content_wf t \<and> content_extends s t \<and> surroundings t = surroundings s \<and>
     ReadVersionContent t (i_id node) (i_version node + 1) = Inr content \<and>
     (\<exists>v. file_versions t = file_versions s @ [v] \<and> v_inode v = i_id node \<and> v_no v = i_version node + 1 \<and>
        v_size v = int (length content) \<and> version_owned t v \<and> fresh_version s v) \<and>
     (\<exists>i \<in> set (inodes s). i_id i = i_id node \<and> i_version i = i_version node) \<and>
     inodes t = map (bump node (length content) (now_ms s)) (inodes s)"

lemma content_step:
  "preserves (content_inv s) m \<Longrightarrow> content_wf s \<Longrightarrow> m s = (r, t) \<Longrightarrow> content_wf t \<and> content_extends s t"
  using preservesD[of "content_inv s" m s r t] content_inv_start by (auto simp: content_inv_def)

text \<open>The content operations of \<open>Vex_Laws\<close> hold for the three ways to add a version.\<close>

lemma store_content: "preserves (content_inv s0) (StoreVersion w node content message)"
  using table_invariant.store_any[OF content.tables[of s0 "{}"]] by (simp add: preserves_def)

lemma restore_content: "preserves (content_inv s0) (StoreVersionFromVersion w node version message)"
  using db_invariant.restore[OF table_invariant.as_db_invariant[OF content.tables[of s0 "{}"]]]
  by (simp add: preserves_def)

lemma publish_content:
  "keeps (content_inv s0) (StoreVersionFromStaging w node handle generation message owned)"
  using db_invariant.publish[OF table_invariant.as_db_invariant[OF content.tables[of s0 "{}"]]]
  by (simp add: keeps_def)

lemma find_version_snoc:
  "find_version s i n = None \<Longrightarrow> v_inode v = i \<Longrightarrow> v_no v = n \<Longrightarrow>
   find_version (s\<lparr>file_versions := file_versions s @ [v]\<rparr>) i n = Some v"
  by (simp add: find_version_def find_append)

lemma find_version_tables: "file_versions t = file_versions s \<Longrightarrow> find_version t = find_version s"
  by (simp add: find_version_def fun_eq_iff)

text \<open>
  A manifest of \<open>content\<close> was added, then a version row that refers to it, then the index was updated.
\<close>

lemma new_version_reads:
  assumes added: "manifest_added ws inode content r s s1" and wf: "content_wf s" and len: "length content \<le> kMaxStagedBytes"
    and ins: "insert_version inode no c (Some (fst r)) (length content) (snd r) None s1 = (Inr u, s2)"
    and t: "file_tables t = file_tables s2"
  shows "ReadVersionContent t inode no = Inr content"
    "\<exists>v. file_versions t = file_versions s @ [v] \<and> v_inode v = inode \<and> v_no v = no \<and>
      v_size v = int (length content) \<and> version_owned t v \<and> fresh_version s v"
    "inodes t = inodes s"
proof -
  define v where "v = \<lparr>v_id = next_rowid (map v_id (file_versions s1)), v_inode = inode, v_no = no, v_commit = c,
    v_manifest = Some (fst r), v_size = int (length content), v_checksum = snd r, v_source = None,
    v_created = now_s_ms s1\<rparr>"
  have s2: "find_version s1 inode no = None" "s2 = s1\<lparr>file_versions := file_versions s1 @ [v]\<rparr>"
    using insert_version_ok[OF ins] by (simp_all add: v_def)
  have s1: "file_versions s1 = file_versions s" "inodes s1 = inodes s" using added by (auto simp: manifest_added_def)
  have "ReadVersionContent s2 inode no = Inr content"
    by (rule added_manifest_reads[OF added wf len, where v = v])
      (use find_version_snoc[OF s2(1), of v] in
       \<open>simp_all add: s2(2) v_def find_manifest_def manifest_rows_def fun_eq_iff\<close>)
  then show "ReadVersionContent t inode no = Inr content"
    using content_tables_reads(2)[of t s2] t by (simp add: file_tables_cong)
  have "manifest_of s1 inode (fst r)"
    using added by (auto simp: manifest_added_def manifest_of_def find_manifest_def find_append split: option.split)
  then have "version_owned t v"
    using t s2(2) by (simp add: version_owned_tables[of t s2] file_tables_cong)
      (simp add: version_owned_def manifest_of_def find_manifest_def manifest_rows_def v_def)
  moreover have "find_manifest s (fst r) = None"
    using added by (simp add: manifest_added_def find_manifest_def find_None_iff) (metis imageI)
  then have "fresh_version s v" using s1(1) by (simp add: fresh_version_def v_def)
  ultimately show "\<exists>v. file_versions t = file_versions s @ [v] \<and> v_inode v = inode \<and> v_no v = no \<and>
      v_size v = int (length content) \<and> version_owned t v \<and> fresh_version s v"
    using t s1 s2(2) by (intro exI[of _ v]) (simp add: file_tables_cong content_tables_def v_def)
  show "inodes t = inodes s" using t s1 s2(2) by (simp add: file_tables_cong)
qed

lemma StoreVersion_step:
  assumes wf: "content_wf s" and len: "length content \<le> kMaxStagedBytes"
    and run: "StoreVersion w node content message s = (Inr v, t)"
  shows "v = i_version node + 1 \<and> (\<exists>content'. stored_as content content' \<and> version_step node content' s t)"
proof -
  let ?no = "i_version node + 1"
  from run obtain prev s1 c s2 r s3 s4 u where v: "v = ?no"
    and adv: "advance_version (i_id node) (i_version node) (length content) ?no
        ''version conflict: file changed before publish'' s = (Inr u, s1)"
    and com: "CreateCommit w message s1 = (Inr c, s2)"
    and man: "StoreManifest (ws_id w) (i_id node) prev content s2 = (Inr r, s3)"
    and ins: "insert_version (i_id node) ?no c (Some (fst r)) (length content) (snd r) None s3 = (Inr u, s4)"
    and idx: "UpdateGrepIndexFromVersion (ws_id w) (i_id node) ?no s4 = (Inr u, t)"
    by (auto simp: StoreVersion_def op_ok split: prod.splits)
  note s2 = same_file_tables[OF create_commit_file_tables com]
  note s1 = advance_ok[OF adv]
  have wf2: "content_wf s2" using wf s1(2) s2 content_tables_cong(1)[of s2 s] by (simp add: file_tables_cong)
  from StoreManifest_stored[OF wf2 len, of "ws_id w" "i_id node" prev] man
  obtain content' where content': "stored_as content content'" "manifest_added (ws_id w) (i_id node) content' r s2 s3" by auto
  have len': "length content' = length content" using content'(1) by (simp add: stored_as_def)
  have same: "surroundings t = surroundings s"
    using same_surroundings[OF index_surroundings idx] insert_version_ok[OF ins] manifest_surroundings[OF content'(2)]
      same_surroundings[OF create_commit_surroundings com] s1(3) by simp
  note reads = new_version_reads[OF content'(2) wf2 _ _ same_file_tables[OF index_file_tables idx], of ?no c u]
  have fresh: "fresh_version s2 = fresh_version s" by (rule fresh_version_tables) (use s1(2) s2 in \<open>simp add: file_tables_cong\<close>)
  have "version_step node content' s t"
    using content_step[OF store_content wf run] reads[unfolded fresh] len' len ins s1 s2 same
    by (auto simp: version_step_def file_tables_cong content_tables_def)
  with v content'(1) show ?thesis by blast
qed

text \<open>A version that refers to the canonical version of another reads as that one.\<close>

lemma restored_reads:
  assumes read: "ReadVersionContent s inode source = Inr content"
    and storage: "ResolveVersionStorage s inode source = Inr st"
    and free: "find_version s inode no = None"
    and v: "v_inode v = inode" "v_no v = no" "v_size v = int (vs_size st)" "v_checksum v = vs_checksum st"
      "v_source v = Some (vs_canonical st)"
    and t: "content_tables t = content_tables (s\<lparr>file_versions := file_versions s @ [v]\<rparr>)"
  shows "ReadVersionContent t inode no = Inr content \<and> length content = vs_size st"
proof -
  let ?s = "s\<lparr>file_versions := file_versions s @ [v]\<rparr>"
  have ext: "content_extends s ?s"
    by (auto simp: content_extends_def find_version_def find_manifest_def manifest_rows_def find_append)
  from storage obtain v0 r m where v0: "find_version s inode source = Some v0" "canonical_manifest s v0 = Some (r, m)"
      "\<not> reference_corrupt v0 r m"
      "st = \<lparr>vs_manifest = m_id m, vs_size = nat (v_size v0),
         vs_canonical = (case v_source v0 of None \<Rightarrow> v_no v0 | Some n \<Rightarrow> n),
         vs_chunk_count = m_chunk_count m, vs_checksum = v_checksum v0\<rparr>"
    unfolding ResolveVersionStorage_Inr by blast
  have key: "v_inode v0 = inode" "v_no v0 = source" using v0(1) by (auto simp: find_version_def dest: find_SomeD)
  have r: "canonical_row s v0 = Some r" "v_manifest r = Some (m_id m)" "find_manifest s (m_id m) = Some m"
    using v0(2) by (simp_all add: canonical_manifest_Some)
  have "find_version s inode (vs_canonical st) = Some r"
    using r(1) v0(1,4) key by (auto simp: canonical_row_def split: option.splits)
  then have "canonical_row ?s v = Some r"
    using ext v by (simp add: canonical_row_def content_extends_def)
  moreover have "find_manifest ?s (m_id m) = Some m" using r(3) by (simp add: find_manifest_def)
  ultimately have canonical: "canonical_manifest ?s v = Some (r, m)" using r(2) by (simp add: canonical_manifest_Some)
  have size: "v_size v = v_size v0" using v(3) v0(3,4) by (simp add: reference_corrupt_def)
  then have "\<not> reference_corrupt v r m" using v(4) v0(3,4) by (simp add: reference_corrupt_def)
  with find_version_snoc[OF free v(1,2)] canonical size v(4) v0(4) have
    "ResolveVersionStorage ?s inode no = Inr (st\<lparr>vs_canonical := vs_canonical st\<rparr>)"
    by (simp add: ResolveVersionStorage_def v(5))
  moreover from read storage have "vs_size st = length content" "manifest_stored s (vs_manifest st) content"
      "content_checksum content = Inr (vs_checksum st)"
    by (auto simp: ReadVersionContent_ok)
  ultimately have "ReadVersionContent ?s inode no = Inr content"
    by (simp add: ReadVersionContent_ok manifest_stored_def manifest_rows_def)
  then show ?thesis using content_tables_reads(2)[OF t] \<open>vs_size st = length content\<close> by simp
qed

lemma StoreVersionFromVersion_step:
  assumes wf: "content_wf s" and read: "ReadVersionContent s (i_id node) source = Inr content"
    and run: "StoreVersionFromVersion w node source message s = (Inr v, t)"
  shows "v = i_version node + 1 \<and> version_step node content s t"
proof -
  let ?no = "i_version node + 1"
  from run obtain st s1 c s2 s4 u where v: "v = ?no"
    and storage: "ResolveVersionStorage s (i_id node) source = Inr st"
    and adv: "advance_version (i_id node) (i_version node) (vs_size st) ?no
        ''version conflict: file changed before restore'' s = (Inr u, s1)"
    and com: "CreateCommit w message s1 = (Inr c, s2)"
    and ins: "insert_version (i_id node) ?no c None (vs_size st) (vs_checksum st) (Some (vs_canonical st)) s2 = (Inr u, s4)"
    and idx: "UpdateGrepIndexFromVersion (ws_id w) (i_id node) ?no s4 = (Inr u, t)"
    by (auto simp: StoreVersionFromVersion_def op_ok)
  note s2 = same_file_tables[OF create_commit_file_tables com]
  note s1 = advance_ok[OF adv]
  have same: "content_tables s2 = content_tables s" using s1(2) s2 by (simp add: file_tables_cong)
  define r where "r = \<lparr>v_id = next_rowid (map v_id (file_versions s2)), v_inode = i_id node, v_no = ?no, v_commit = c,
    v_manifest = None, v_size = int (vs_size st), v_checksum = vs_checksum st, v_source = Some (vs_canonical st),
    v_created = now_s_ms s2\<rparr>"
  have s4: "find_version s2 (i_id node) ?no = None" "s4 = s2\<lparr>file_versions := file_versions s2 @ [r]\<rparr>"
    using insert_version_ok[OF ins] by (simp_all add: r_def)
  note t = same_file_tables[OF index_file_tables idx]
  have "ReadVersionContent t (i_id node) ?no = Inr content \<and> length content = vs_size st"
  proof (rule restored_reads[where s = s2 and v = r])
    show "ReadVersionContent s2 (i_id node) source = Inr content" "ResolveVersionStorage s2 (i_id node) source = Inr st"
      using read storage content_tables_reads[OF same] by simp_all
    show "content_tables t = content_tables (s2\<lparr>file_versions := file_versions s2 @ [r]\<rparr>)"
      using t s4(2) by (simp add: file_tables_cong)
  qed (use s4(1) in \<open>simp_all add: r_def\<close>)
  moreover have "fresh_version s r"
    using same by (simp add: fresh_version_def r_def content_tables_def)
  moreover have "file_versions t = file_versions s @ [r]" "inodes t = inodes s1"
    using t s4(2) same s2 by (simp_all add: file_tables_cong content_tables_def)
  ultimately have "version_step node content s t"
    using content_step[OF restore_content wf run] s1 same_surroundings[OF index_surroundings idx] s4(2)
      same_surroundings[OF create_commit_surroundings com] by (auto simp: version_step_def version_owned_def r_def [symmetric]) (simp_all add: r_def)
  with v show ?thesis by simp
qed

text \<open>Publishing from a staging area: whatever the area holds, a content of its size is stored.\<close>

lemma rebase_file_tables: "file_tables (rebase_staging h mid s) = file_tables s"
  by (simp add: rebase_staging_def update_staging_def remove_dirty_chunks_def file_tables_def content_tables_def)

lemma StoreVersionFromStaging_parts:
  assumes "StoreVersionFromStaging w node handle generation message owned s = (Inr v, t)"
  obtains st prev s1 c s2 r s3 s4 s5 where "v = i_version node + 1" "find_staging s (h_id handle) = Some st"
    "advance_version (i_id node) (i_version node) (s_logical st) (i_version node + 1)
        ''version conflict: file changed before publish'' s = (Inr (), s1)"
    "(if owned then CreateCommitInTransaction w message else CreateCommit w message) s1 = (Inr c, s2)"
    "StoreManifestFromStaging (ws_id w) (i_id node) prev handle st s2 = (Inr r, s3)"
    "insert_version (i_id node) (i_version node + 1) c (Some (fst r)) (s_logical st) (snd r) None s3 = (Inr (), s4)"
    "UpdateGrepIndexFromVersion (ws_id w) (i_id node) (i_version node + 1) s4 = (Inr (), s5)"
    "t = rebase_staging (h_id handle) (fst r) s5"
  using assms by (auto simp: StoreVersionFromStaging_def op_ok FindStaging_def split: prod.splits option.splits)

lemma StoreVersionFromStaging_step:
  assumes wf: "content_wf s"
    and run: "StoreVersionFromStaging w node handle generation message owned s = (Inr v, t)"
    and stored: "\<And>st prev s2 r s3. find_staging s (h_id handle) = Some st \<Longrightarrow> content_wf s2 \<Longrightarrow>
      content_tables s2 = content_tables s \<Longrightarrow> staging s2 = staging s \<Longrightarrow> staging_chunks s2 = staging_chunks s \<Longrightarrow>
      StoreManifestFromStaging (ws_id w) (i_id node) prev handle st s2 = (Inr r, s3) \<Longrightarrow>
      \<exists>content. length content = s_logical st \<and> length content \<le> kMaxStagedBytes \<and> P content \<and>
        manifest_added (ws_id w) (i_id node) content r s2 s3"
  shows "v = i_version node + 1 \<and> (\<exists>content. P content \<and> version_step node content s t)"
  using run
proof (rule StoreVersionFromStaging_parts)
  let ?no = "i_version node + 1"
  fix st prev s1 c s2 r s3 s4 s5
  assume v: "v = ?no" and st: "find_staging s (h_id handle) = Some st"
    and adv: "advance_version (i_id node) (i_version node) (s_logical st) ?no
        ''version conflict: file changed before publish'' s = (Inr (), s1)"
    and com: "(if owned then CreateCommitInTransaction w message else CreateCommit w message) s1 = (Inr c, s2)"
    and man: "StoreManifestFromStaging (ws_id w) (i_id node) prev handle st s2 = (Inr r, s3)"
    and ins: "insert_version (i_id node) ?no c (Some (fst r)) (s_logical st) (snd r) None s3 = (Inr (), s4)"
    and idx: "UpdateGrepIndexFromVersion (ws_id w) (i_id node) ?no s4 = (Inr (), s5)"
    and t: "t = rebase_staging (h_id handle) (fst r) s5"
  note s1 = advance_ok[OF adv]
  have s2: "file_tables s2 = file_tables s1"
    using com same_file_tables[OF commit_file_tables] same_file_tables[OF create_commit_file_tables]
    by (auto split: if_splits)
  have wf2: "content_wf s2" using wf s1(2) s2 content_tables_cong(1)[of s2 s] by (simp add: file_tables_cong)
  have "staging s1 = staging s \<and> staging_chunks s1 = staging_chunks s"
    using adv by (auto simp: advance_version_def op_simps update_inodes_def split: if_splits)
  moreover have "staging s2 = staging s1 \<and> staging_chunks s2 = staging_chunks s1"
    using com by (auto simp: CreateCommit_def CreateCommitInTransaction_run op_ok set_head_def FlushHistoryChanges_def
        Let_def split: if_splits option.splits)
  ultimately obtain content where content: "length content = s_logical st" "length content \<le> kMaxStagedBytes" "P content"
      "manifest_added (ws_id w) (i_id node) content r s2 s3"
    using stored[OF st wf2 _ _ _ man] s1(2) s2 by (auto simp: file_tables_cong)
  have t5: "file_tables t = file_tables s4"
    using same_file_tables[OF index_file_tables idx] by (simp add: t rebase_file_tables)
  have s2': "surroundings s2 = surroundings s1"
    using com same_surroundings[OF commit_surroundings] same_surroundings[OF create_commit_surroundings]
    by (auto split: if_splits)
  have same: "surroundings t = surroundings s"
    using same_surroundings[OF index_surroundings idx] insert_version_ok[OF ins] manifest_surroundings[OF content(4)]
      s2' s1(3) by (simp add: t rebase_staging_def update_staging_def remove_dirty_chunks_def)
  note reads = new_version_reads[OF content(4) wf2 content(2) _ t5, of ?no c "()"]
  have "content_wf t \<and> content_extends s t"
    using keepsD[OF publish_content _ run, of s] content_inv_start[OF wf] by (simp add: content_inv_def)
  moreover have fresh: "fresh_version s2 = fresh_version s"
    by (rule fresh_version_tables) (use s1(2) s2 in \<open>simp add: file_tables_cong\<close>)
  ultimately have "version_step node content s t"
    using reads[unfolded fresh] content(1) ins s1 s2 same by (auto simp: version_step_def file_tables_cong content_tables_def)
  with v content(3) show ?thesis by blast
qed

section \<open>Every version can be read\<close>

text \<open>
  Every recorded version is readable with its recorded size, belongs to an inode that has reached that
  version, and the size of a file is that of its current version. Every manifest belongs to one version.
\<close>

definition version_rows :: "version_row list \<Rightarrow> bool" where
  "version_rows vs \<longleftrightarrow> distinct (map v_id vs) \<and>
     (\<forall>v \<in> set vs. 0 < v_no v \<and> (v_manifest v = None \<longleftrightarrow> v_source v \<noteq> None)) \<and>
     (\<forall>v \<in> set vs. \<forall>u \<in> set vs. v_manifest v = v_manifest u \<longrightarrow> v_manifest v = None \<or> v = u)"

lemma version_rows_snoc:
  assumes "version_rows vs" "v_id v \<notin> v_id ` set vs" "0 < v_no v" "v_manifest v = None \<longleftrightarrow> v_source v \<noteq> None"
    and other: "\<And>u. u \<in> set vs \<Longrightarrow> v_manifest v \<noteq> None \<Longrightarrow> v_manifest u \<noteq> v_manifest v"
  shows "version_rows (vs @ [v])"
proof -
  have "v_manifest a = None \<or> a = b" if "a \<in> set (vs @ [v])" "b \<in> set (vs @ [v])" "v_manifest a = v_manifest b" for a b
    using that other[of a] other[of b] assms(1) unfolding version_rows_def by (metis Un_iff empty_iff insert_iff list.set set_append)
  then show ?thesis using assms(1-4) by (simp add: version_rows_def)
qed

definition versions_inv :: "db \<Rightarrow> bool" where
  "versions_inv s \<longleftrightarrow> version_rows (file_versions s) \<and> content_wf s \<and> distinct (map i_id (inodes s)) \<and>
     distinct (map (\<lambda>v. (v_inode v, v_no v)) (file_versions s)) \<and>
     (\<forall>v \<in> set (file_versions s).
        (\<exists>c. ReadVersionContent s (v_inode v) (v_no v) = Inr c) \<and>
        (\<exists>i \<in> set (inodes s). i_id i = v_inode v \<and> v_no v \<le> i_version i) \<and> version_owned s v) \<and>
     (\<forall>i \<in> set (inodes s). i_kind i \<noteq> KDirectory \<longrightarrow>
        (if i_version i = 0 then i_size i = 0
         else \<exists>c. ReadVersionContent s (i_id i) (i_version i) = Inr c \<and> i_size i = int (length c)))"

lemma versions_inode_unique:
  "versions_inv s \<Longrightarrow> i \<in> set (inodes s) \<Longrightarrow> j \<in> set (inodes s) \<Longrightarrow> i_id i = i_id j \<Longrightarrow> i = j"
proof -
  assume "versions_inv s"
  then have "inj_on i_id (set (inodes s))" by (simp add: versions_inv_def distinct_map)
  then show "i \<in> set (inodes s) \<Longrightarrow> j \<in> set (inodes s) \<Longrightarrow> i_id i = i_id j \<Longrightarrow> i = j" by (simp add: inj_onD)
qed

lemma versions_inv_tables: "file_tables t = file_tables s \<Longrightarrow> versions_inv s \<Longrightarrow> versions_inv t"
  using content_tables_reads(2)[of t s] content_tables_cong(1)[of t s]
    version_owned_tables[of t s]
  by (simp add: versions_inv_def file_tables_cong content_tables_def)

lemma versions_untouched:
  "(\<And>s. file_tables (snd (m s)) = file_tables s) \<Longrightarrow> preserves versions_inv m"
  by (rule preservesI) (rule versions_inv_tables)

lemma version_step_inv:
  assumes inv: "versions_inv s" and step: "version_step node content s t"
  shows "versions_inv t"
proof -
  let ?b = "bump node (length content) (now_ms s)" and ?no = "i_version node + 1"
  have t: "content_wf t" "content_extends s t" "ReadVersionContent t (i_id node) ?no = Inr content"
      "inodes t = map ?b (inodes s)"
    using step by (auto simp: version_step_def)
  obtain v i where v: "file_versions t = file_versions s @ [v]" "v_inode v = i_id node" "v_no v = ?no" "version_owned t v"
      "fresh_version s v"
    and i: "i \<in> set (inodes s)" "i_id i = i_id node" "i_version i = i_version node"
    using step by (auto simp: version_step_def)
  have b: "i_id (?b j) = i_id j" "i_kind (?b j) = i_kind j" "i_version j \<le> i_version (?b j)" for j
    by (auto simp: bump_def)
  have ids: "map i_id (inodes t) = map i_id (inodes s)" using b(1) by (simp add: t(4))
  note kept = ReadVersionContent_extends[OF t(2)]
  have "v_no x \<noteq> ?no" if x: "x \<in> set (file_versions s)" "v_inode x = i_id node" for x
  proof -
    from inv x obtain j where j: "j \<in> set (inodes s)" "i_id j = i_id node" "v_no x \<le> i_version j"
      unfolding versions_inv_def by metis
    have "j = i" by (rule versions_inode_unique[OF inv j(1) i(1)]) (simp add: i j)
    with i(3) j(3) show ?thesis by simp
  qed
  then have "(i_id node, ?no) \<notin> (\<lambda>v. (v_inode v, v_no v)) ` set (file_versions s)" by force
  moreover have "distinct (map (\<lambda>v. (v_inode v, v_no v)) (file_versions s))" using inv by (simp add: versions_inv_def)
  ultimately have keys: "distinct (map (\<lambda>v. (v_inode v, v_no v)) (file_versions t))" by (simp add: v)
  have "\<exists>j \<in> set (inodes t). i_id j = v_inode x \<and> v_no x \<le> i_version j"
    if "j \<in> set (inodes s)" "i_id j = v_inode x" "v_no x \<le> i_version j" for x :: version_row and j
    using that b[of j] by (intro bexI[of _ "?b j"]) (auto simp: t(4))
  moreover have "\<exists>j \<in> set (inodes t). i_id j = v_inode v \<and> v_no v \<le> i_version j"
    using i v by (intro bexI[of _ "?b i"]) (auto simp: t(4) bump_def)
  ultimately have versions: "(\<exists>c. ReadVersionContent t (v_inode x) (v_no x) = Inr c) \<and>
      (\<exists>j \<in> set (inodes t). i_id j = v_inode x \<and> v_no x \<le> i_version j) \<and> version_owned t x" if "x \<in> set (file_versions t)" for x
    using that inv v t(3) kept version_owned_extends[OF t(2)] unfolding versions_inv_def by (auto 4 3)
  have current: "if i_version k = 0 then i_size k = 0
      else \<exists>c. ReadVersionContent t (i_id k) (i_version k) = Inr c \<and> i_size k = int (length c)"
    if "k \<in> set (inodes t)" "i_kind k \<noteq> KDirectory" for k
  proof -
    from that(1) obtain j where j: "j \<in> set (inodes s)" "k = ?b j" by (auto simp: t(4))
    show ?thesis
    proof (cases "i_id j = i_id node \<and> i_version j = i_version node")
      case True
      with j(2) t(3) show ?thesis by (auto simp: bump_def)
    next
      case False
      with j(2) have "k = j" by (auto simp: bump_def)
      with inv j(1) that(2) kept show ?thesis by (auto simp: versions_inv_def split: if_splits)
    qed
  qed
  have "version_rows (file_versions t)"
  proof -
    have rows: "version_rows (file_versions s)" "\<And>u. u \<in> set (file_versions s) \<Longrightarrow> version_owned s u"
      using inv by (simp_all add: versions_inv_def)
    have "v_manifest u \<noteq> v_manifest v" if "u \<in> set (file_versions s)" "v_manifest v \<noteq> None" for u
      using rows(2)[OF that(1)] v(5) that(2) by (auto simp: version_owned_def manifest_of_def fresh_version_def)
    moreover have "v_id v \<notin> v_id ` set (file_versions s)" "0 < v_no v" "v_manifest v = None \<longleftrightarrow> v_source v \<noteq> None"
      using v(3,5) by (simp_all add: fresh_version_def)
    ultimately show ?thesis unfolding v(1) by (intro version_rows_snoc rows(1))
  qed
  with t(1) ids inv keys versions current show ?thesis unfolding versions_inv_def by auto
qed

lemma versions_content_wf: "versions_inv s \<Longrightarrow> content_wf s"
  by (simp add: versions_inv_def)

text \<open>An operation that raises leaves no trace, and one that returns adds a version.\<close>

lemma version_op_kept:
  assumes "atomic m" "\<And>s r t. versions_inv s \<Longrightarrow> m s = (Inr r, t) \<Longrightarrow> versions_inv t"
  shows "preserves versions_inv m"
proof (rule preservesI)
  fix s assume s: "versions_inv s"
  show "versions_inv (snd (m s))"
  proof (cases "m s")
    case (Pair r t)
    with s assms(2)[OF s] atomicD[OF assms(1), of s] show ?thesis by (cases r) auto
  qed
qed

lemma store_kept: "length content \<le> kMaxStagedBytes \<Longrightarrow> preserves versions_inv (StoreVersion w node content message)"
proof (rule version_op_kept)
  show "atomic (StoreVersion w node content message)" by (simp add: StoreVersion_def)
qed (blast dest: StoreVersion_step[OF versions_content_wf] intro: version_step_inv)

lemma restore_kept: "preserves versions_inv (StoreVersionFromVersion w node version message)"
proof (rule version_op_kept)
  show "atomic (StoreVersionFromVersion w node version message)" by (simp add: StoreVersionFromVersion_def)
  fix s r t assume inv: "versions_inv s" and run: "StoreVersionFromVersion w node version message s = (Inr r, t)"
  then obtain st where "ResolveVersionStorage s (i_id node) version = Inr st"
    by (auto simp: StoreVersionFromVersion_def op_ok)
  then obtain v where "find_version s (i_id node) version = Some v" by (auto simp: ResolveVersionStorage_Inr)
  then have "v \<in> set (file_versions s)" "v_inode v = i_id node" "v_no v = version"
    by (auto simp: find_version_def dest: find_SomeD)
  with inv obtain c where "ReadVersionContent s (i_id node) version = Inr c" unfolding versions_inv_def by metis
  with StoreVersionFromVersion_step[OF versions_content_wf[OF inv] this run] show "versions_inv t"
    using version_step_inv[OF inv] by blast
qed

lemma publish_kept: "keeps versions_inv (StoreVersionFromStaging w node handle generation message owned)"
proof (rule keepsI)
  fix s v t assume inv: "versions_inv s" and run: "StoreVersionFromStaging w node handle generation message owned s = (Inr v, t)"
  have "v = i_version node + 1 \<and> (\<exists>content. True \<and> version_step node content s t)"
    by (rule StoreVersionFromStaging_step[OF versions_content_wf[OF inv] run])
      (metis StoreManifestFromStaging_returned)
  with version_step_inv[OF inv] show "versions_inv t" by blast
qed

text \<open>Appending reads the current version, so its length is known from the size of the file.\<close>

lemma ReadNode_length:
  assumes "versions_inv s" "node \<in> set (inodes s)" "ReadNode s node = Inr c"
  shows "int (length c) = i_size node"
  using assms by (force simp: ReadNode_def versions_inv_def split: if_splits)

lemma append_kept: "preserves versions_inv (AppendFunction a b c)"
proof (rule version_op_kept)
  show "atomic (AppendFunction a b c)"
    unfolding AppendFunction_def workspace_arg_def text_arg_def inode_arg_def blob_arg_def
    by (intro atomic_bind_read) (auto simp: read_only_def op_simps split: sum.split)
  fix s r t assume inv: "versions_inv s" and run: "AppendFunction a b c s = (Inr r, t)"
  then obtain w suffix inode node content where "NodeById s inode True = Inr node" and node: "ReadNode s node = Inr content"
      "\<not> (i_size node < 0 \<or> int kMaxStagedBytes < i_size node \<or> int kMaxStagedBytes - i_size node < int (length suffix))"
    and store: "StoreVersion w node (content @ suffix) ''append file'' s = (Inr r, t)"
    by (auto simp: AppendFunction_def workspace_arg_def text_arg_def inode_arg_def blob_arg_def op_ok)
  then have mem: "node \<in> set (inodes s)" by (auto simp: NodeById_def split: option.splits dest: find_SomeD)
  have "length (content @ suffix) \<le> kMaxStagedBytes" using ReadNode_length[OF inv mem node(1)] node(2) by simp
  from preservesD[OF store_kept[OF this] inv store] show "versions_inv t" .
qed

lemma versions_create: "preserves versions_inv (CreateInode ws k mode)"
proof (rule preservesI)
  fix s assume inv: "versions_inv s"
  show "versions_inv (snd (CreateInode ws k mode s))"
  proof (cases "CheckQuotaForNewInode s ws k")
    case (Inl e)
    with inv show ?thesis by (simp add: CreateInode_def op_simps)
  next
    case (Inr u)
    let ?t = "snd (CreateInode ws k mode s)"
    have "content_tables ?t = content_tables s"
      using Inr by (simp add: CreateInode_def op_simps insert_inode_def content_tables_def)
    note same = content_tables_reads(2)[OF this] content_tables_cong(1)[OF this] version_owned_tables[OF this]
    have "\<exists>i. inodes ?t = inodes s @ [i] \<and> i_id i = next_rowid (map i_id (inodes s)) \<and> i_size i = 0 \<and>
        (i_kind i \<noteq> KDirectory \<longrightarrow> i_version i = 0) \<and> file_versions ?t = file_versions s"
      using Inr by (simp add: CreateInode_def op_simps insert_inode_def)
    with inv same show ?thesis by (auto simp: versions_inv_def)
  qed
qed

lemma versions_update:
  assumes "\<And>i. p i \<Longrightarrow> same_file i (f i)" "versions_inv s"
  shows "versions_inv (update_inodes p f s)"
proof -
  let ?t = "update_inodes p f s" and ?g = "\<lambda>i. if p i then f i else i"
  have t: "inodes ?t = map ?g (inodes s)" "content_tables ?t = content_tables s" "file_versions ?t = file_versions s"
    by (simp_all add: update_inodes_def content_tables_def)
  have g: "i_id (?g i) = i_id i" "i_kind (?g i) = i_kind i" "i_version i \<le> i_version (?g i)"
      "i_size (?g i) = i_size i" "i_kind i \<noteq> KDirectory \<Longrightarrow> i_version (?g i) = i_version i" for i
    using assms(1)[of i] by (auto simp: same_file_def)
  have ids: "map i_id (inodes ?t) = map i_id (inodes s)" using g(1) by (simp add: t(1))
  have "\<exists>j \<in> set (inodes ?t). i_id j = v_inode x \<and> v_no x \<le> i_version j"
    if "j \<in> set (inodes s)" "i_id j = v_inode x" "v_no x \<le> i_version j" for x :: version_row and j
    using that g(1,3)[of j] by (intro bexI[of _ "?g j"]) (auto simp: t(1))
  then have versions: "\<exists>j \<in> set (inodes ?t). i_id j = v_inode x \<and> v_no x \<le> i_version j"
    if "x \<in> set (file_versions s)" for x
    using that assms(2) unfolding versions_inv_def by (elim conjE) fast
  have current: "if i_version k = 0 then i_size k = 0
      else \<exists>c. ReadVersionContent s (i_id k) (i_version k) = Inr c \<and> i_size k = int (length c)"
    if "k \<in> set (inodes ?t)" "i_kind k \<noteq> KDirectory" for k
  proof -
    from that(1) obtain j where j: "j \<in> set (inodes s)" "k = ?g j" by (auto simp: t(1))
    then have "i_kind j \<noteq> KDirectory" using that(2) g(2)[of j] by simp
    with assms(2) j(1) have "if i_version j = 0 then i_size j = 0
        else \<exists>c. ReadVersionContent s (i_id j) (i_version j) = Inr c \<and> i_size j = int (length c)"
      by (simp add: versions_inv_def)
    then show ?thesis unfolding j(2) using g(1,4)[of j] g(5)[OF \<open>i_kind j \<noteq> KDirectory\<close>] by simp
  qed
  show ?thesis
    using assms(2) content_tables_reads(2)[OF t(2)] content_tables_cong(1)[OF t(2)] version_owned_tables[OF t(2)] ids versions current
    by (simp add: versions_inv_def t(3))
qed

interpretation versions: db_invariant versions_inv "\<lambda>_. True"
proof
  show "versions_inv s \<Longrightarrow> core t = core s \<Longrightarrow> versions_inv t" for s t
    by (rule versions_inv_tables) (auto simp: file_tables_def core_def content_tables_def)
  show "preserves versions_inv (insert_dentry d)" for d
    by (rule versions_untouched) (auto simp: insert_dentry_def op_simps file_tables_def content_tables_def)
  show "preserves versions_inv (move_dentry ws parent name parent' name')" for ws parent name parent' name'
    by (rule versions_untouched)
      (auto simp: move_dentry_def op_simps file_tables_def content_tables_def Let_def split: option.split)
  show "preserves versions_inv (insert_workspace name)" for name
    by (rule versions_untouched) (auto simp: insert_workspace_def op_simps file_tables_def content_tables_def)
  show "preserves versions_inv (CreateCommitInTransaction w message)" for w message
    using commit_file_tables[unfolded preserves_def, rule_format, OF refl] by (rule versions_untouched)
  show "versions_inv s \<Longrightarrow> versions_inv (delete_dentries q s)" for q s
    by (erule versions_inv_tables[rotated]) (simp add: delete_dentries_def file_tables_def content_tables_def)
  show "versions_inv s \<Longrightarrow> versions_inv (set_root ws r s)" for ws r s
    by (erule versions_inv_tables[rotated]) (simp add: set_root_def file_tables_def content_tables_def)
qed (rule versions_create versions_update store_kept append_kept restore_kept publish_kept; assumption)+

interpretation versions_always: global_invariant versions_inv
  by (rule global_invariantI) (rule versions.db_invariant_axioms)

lemma versions_inv_empty [simp]: "versions_inv empty_db"
  by (simp add: versions_inv_def version_rows_def) (simp add: empty_db_def)

end
