(* ===== verification/Vex_Writing.thy ===== *)
theory Vex_Writing
  imports Vex_Versions
begin

text \<open>
  Writing files by path: when \<open>StoreVersion\<close>, \<open>StoreVersionFromVersion\<close> and \<open>WritePath\<close> succeed, and
  what a path resolves to and reads as after \<open>vex_fs_write\<close>, \<open>vex_fs_append\<close> and
  \<open>vex_fs_restore_version\<close>.
\<close>

section \<open>A new version succeeds\<close>

lemma find_workspace_row_iff: "find_workspace_row s ws \<noteq> None \<longleftrightarrow> ws \<in> workspace_ids s"
  by (auto simp: find_workspace_row_def find_None_iff)

lemma view_ids:
  assumes "surroundings t = surroundings s"
  shows "workspace_ids t = workspace_ids s"
proof -
  have ids: "w_id ` set ws = w_id ` set (map ws_view ws)" for ws by (simp add: image_image ws_view_def)
  have "map ws_view (workspaces t) = map ws_view (workspaces s)" using assms by (simp add: surroundings_def)
  then show ?thesis by (simp only: ids[of "workspaces t"] ids[of "workspaces s"])
qed

lemma quota_workspace: "CheckQuotaForContentSize s ws inode n = Inr () \<Longrightarrow> ws \<in> workspace_ids s"
  unfolding find_workspace_row_iff[symmetric]
  by (cases "find_workspace_row s ws") (simp_all add: CheckQuotaForContentSize_def ReadQuotaPolicy_def split: if_splits)

lemma commit_runs: "ws_id w \<in> workspace_ids s \<Longrightarrow> \<exists>c t. CreateCommit w message s = (Inr c, t)"
  unfolding find_workspace_row_iff[symmetric]
  by (auto simp: CreateCommit_def CreateCommitInTransaction_run savepoint_run Let_def)

lemma index_runs:
  "ReadVersionContent s inode version = Inr c \<Longrightarrow> \<exists>t. UpdateGrepIndexFromVersion ws inode version s = (Inr (), t)"
  using content_tables_reads(2)[of "s\<lparr>content_fts := filter (\<lambda>f. f_inode f \<noteq> inode) (content_fts s)\<rparr>" s]
  by (auto simp: UpdateGrepIndexFromVersion_def index_file_def op_simps content_tables_def split: GrepIndexState.split)

lemma insert_version_runs:
  "find_version s inode no = None \<Longrightarrow> \<exists>t. insert_version inode no c m n checksum source s = (Inr (), t)"
  by (simp add: insert_version_def op_simps)

text \<open>The row of a file at its current version.\<close>

definition current_node :: "db \<Rightarrow> inode_row \<Rightarrow> bool" where
  "current_node s node \<longleftrightarrow>
     (\<exists>i \<in> set (inodes s). i_id i = i_id node \<and> i_version i = i_version node \<and> i_kind i \<noteq> KDirectory)"

lemma current_read:
  assumes "versions_inv s" "current_node s node" "0 < i_version node"
  shows "\<exists>c. ReadVersionContent s (i_id node) (i_version node) = Inr c"
proof -
  obtain i where i: "i \<in> set (inodes s)" "i_id i = i_id node" "i_version i = i_version node" "i_kind i \<noteq> KDirectory"
    using assms(2) by (auto simp: current_node_def)
  then have "\<exists>c. ReadVersionContent s (i_id i) (i_version i) = Inr c"
    using assms(1,3) unfolding versions_inv_def by (metis less_numeral_extra(3))
  with i show ?thesis by simp
qed

lemma previous_ok:
  assumes "versions_inv s" "current_node s node"
  shows "\<exists>p. previous_manifest_of s node = Inr p"
  using current_read[OF assms] by (auto simp: previous_manifest_of_def ReadVersionContent_ok)

lemma next_version_free:
  assumes "versions_inv s" "current_node s node" "i_version node < no"
  shows "find_version s (i_id node) no = None"
proof (rule ccontr)
  assume "find_version s (i_id node) no \<noteq> None"
  then obtain v where "v \<in> set (file_versions s)" "v_inode v = i_id node" "v_no v = no"
    by (auto simp: find_version_def dest: find_SomeD)
  with assms(1) obtain i where i: "i \<in> set (inodes s)" "i_id i = i_id node" "no \<le> i_version i"
    unfolding versions_inv_def by metis
  obtain j where j: "j \<in> set (inodes s)" "i_id j = i_id node" "i_version j = i_version node"
    using assms(2) by (auto simp: current_node_def)
  have "i = j" by (rule versions_inode_unique[OF assms(1) i(1) j(1)]) (simp add: i j)
  with i(3) j(3) assms(3) show False by simp
qed

text \<open>The steps that the three ways to add a version share.\<close>

lemma advance_current:
  assumes "versions_inv s" "current_node s node" "ws_id w \<in> workspace_ids s"
  obtains s1 c s2 where "advance_version (i_id node) (i_version node) n (i_version node + 1) e s = (Inr (), s1)"
    "CreateCommit w message s1 = (Inr c, s2)" "content_tables s2 = content_tables s"
proof -
  obtain i where i: "i \<in> set (inodes s)" "i_id i = i_id node" "i_version i = i_version node"
    using assms(2) by (auto simp: current_node_def)
  have "distinct (map i_id (inodes s))" using assms(1) by (simp add: versions_inv_def)
  from advance_run[OF this i, of n "i_version node + 1" e]
  obtain s1 where s1: "advance_version (i_id node) (i_version node) n (i_version node + 1) e s = (Inr (), s1)" by blast
  note same = advance_ok[OF s1]
  from commit_runs[of w s1 message] view_ids[OF same(3)] assms(3)
  obtain c s2 where s2: "CreateCommit w message s1 = (Inr c, s2)" by auto
  have "content_tables s2 = content_tables s"
    using same_file_tables[OF create_commit_file_tables s2] same(2) by (simp add: file_tables_cong)
  with s1 s2 that show thesis by blast
qed

lemma StoreVersion_runs:
  assumes inv: "versions_inv s" and node: "current_node s node" and len: "length content \<le> kMaxStagedBytes"
    and quota: "CheckQuotaForContentSize s (ws_id w) (i_id node) (int (length content)) = Inr ()"
  shows "\<exists>t. StoreVersion w node content message s = (Inr (i_version node + 1), t)"
proof -
  let ?no = "i_version node + 1"
  obtain prev where prev: "previous_manifest_of s node = Inr prev" using previous_ok[OF inv node] by blast
  obtain s1 c s2 where adv: "advance_version (i_id node) (i_version node) (length content) ?no
        ''version conflict: file changed before publish'' s = (Inr (), s1)"
      and com: "CreateCommit w message s1 = (Inr c, s2)" and same: "content_tables s2 = content_tables s"
    using advance_current[OF inv node quota_workspace[OF quota]] by blast
  have wf: "content_wf s2" using versions_content_wf[OF inv] content_tables_cong(1)[OF same] by simp
  from StoreManifest_stored[OF wf len, of "ws_id w" "i_id node" prev]
  obtain content' r s3 where man: "StoreManifest (ws_id w) (i_id node) prev content s2 = (Inr r, s3)"
      and added: "stored_as content content'" "manifest_added (ws_id w) (i_id node) content' r s2 s3" by blast
  have len': "length content' = length content" using added(1) by (simp add: stored_as_def)
  have "find_version s3 (i_id node) ?no = find_version s (i_id node) ?no"
    using added(2) same by (auto simp: manifest_added_def find_version_def content_tables_def)
  then have "find_version s3 (i_id node) ?no = None" using next_version_free[OF inv node, of ?no] by simp
  from insert_version_runs[OF this] obtain s4 where
    ins: "insert_version (i_id node) ?no c (Some (fst r)) (length content) (snd r) None s3 = (Inr (), s4)" by metis
  have "ReadVersionContent s4 (i_id node) ?no = Inr content'"
    using new_version_reads(1)[OF added(2) wf _ _ refl, of ?no c "()" s4] ins len len' by simp
  from index_runs[OF this] obtain t where idx: "UpdateGrepIndexFromVersion (ws_id w) (i_id node) ?no s4 = (Inr (), t)"
    by blast
  show ?thesis
    using prev quota adv com man ins idx by (cases r) (simp add: StoreVersion_def op_simps)
qed

lemma StoreVersionFromVersion_runs:
  assumes inv: "versions_inv s" and node: "current_node s node"
    and source: "ResolveVersionStorage s (i_id node) source = Inr st"
    and quota: "CheckQuotaForContentSize s (ws_id w) (i_id node) (int (vs_size st)) = Inr ()"
  shows "\<exists>t. StoreVersionFromVersion w node source message s = (Inr (i_version node + 1), t)"
proof -
  let ?no = "i_version node + 1"
  obtain s1 c s2 where adv: "advance_version (i_id node) (i_version node) (vs_size st) ?no
        ''version conflict: file changed before restore'' s = (Inr (), s1)"
      and com: "CreateCommit w message s1 = (Inr c, s2)" and same: "content_tables s2 = content_tables s"
    using advance_current[OF inv node quota_workspace[OF quota]] by blast
  have free: "find_version s2 (i_id node) ?no = None"
    using next_version_free[OF inv node, of ?no] same by (simp add: find_version_def content_tables_def)
  from insert_version_runs[OF this] obtain s4 where
    ins: "insert_version (i_id node) ?no c None (vs_size st) (vs_checksum st) (Some (vs_canonical st)) s2 = (Inr (), s4)"
    by metis
  from source obtain v where v: "v \<in> set (file_versions s)" "v_inode v = i_id node" "v_no v = source"
    by (auto simp: ResolveVersionStorage_Inr find_version_def dest: find_SomeD)
  with inv obtain content where read: "ReadVersionContent s (i_id node) source = Inr content"
    unfolding versions_inv_def by metis
  have "ReadVersionContent s4 (i_id node) ?no = Inr content \<and> length content = vs_size st"
    by (rule restored_reads[where s = s2, OF _ _ free])
      (use read source content_tables_reads[OF same] insert_version_ok[OF ins] in \<open>simp_all\<close>)
  then obtain t where idx: "UpdateGrepIndexFromVersion (ws_id w) (i_id node) ?no s4 = (Inr (), t)"
    using index_runs by blast
  show ?thesis using source quota adv com ins idx by (simp add: StoreVersionFromVersion_def op_simps)
qed

section \<open>Trees that grow\<close>

text \<open>
  Rows are added to the tree, and the rows that are there change in nothing that path resolution
  looks at.
\<close>

definition tree_extends :: "(inode_row \<Rightarrow> inode_row) \<Rightarrow> db \<Rightarrow> db \<Rightarrow> bool" where
  "tree_extends g s t \<longleftrightarrow> (\<exists>a. dentries t = dentries s @ a) \<and> (\<exists>b. inodes t = map g (inodes s) @ b) \<and>
     (\<forall>i. i_id (g i) = i_id i \<and> i_workspace (g i) = i_workspace i \<and> i_kind (g i) = i_kind i \<and>
          i_deleted (g i) = i_deleted i)"

lemma tree_extendsD:
  assumes "tree_extends g s t"
  shows "i_id (g i) = i_id i" "i_kind (g i) = i_kind i"
  using assms by (simp_all add: tree_extends_def)

lemma tree_extends_trans: "tree_extends g s t \<Longrightarrow> tree_extends h t u \<Longrightarrow> tree_extends (h \<circ> g) s u"
  by (auto simp: tree_extends_def)

lemma find_map_option: "find p (map g xs) = map_option g (find (p \<circ> g) xs)"
  by (induction xs) simp_all

lemma tree_extends_find:
  assumes "tree_extends g s t" "find p (inodes s) = Some i" "\<And>j. p (g j) = p j"
  shows "find p (inodes t) = Some (g i)"
proof -
  have "p \<circ> g = p" using assms(3) by (simp add: fun_eq_iff)
  with assms(1,2) show ?thesis by (auto simp: tree_extends_def find_append find_map_option)
qed

lemma live_inode_extends: "tree_extends g s t \<Longrightarrow> live_inode s i = Some r \<Longrightarrow> live_inode t i = Some (g r)"
  unfolding live_inode_def using tree_extends_find[of g s t] by (simp add: tree_extends_def)

lemma FindChild_extends:
  assumes "tree_extends g s t" "FindChild s ws parent name = Some c"
  shows "FindChild t ws parent name = Some (g c)"
  using assms live_inode_extends[OF assms(1)]
  by (auto simp: FindChild_def find_dentry_def tree_extends_def find_append split: option.splits)

lemma RootNode_extends:
  assumes "tree_extends g s t" "RootNode s w = Inr root" "ws_id w' = ws_id w" "ws_root w' = ws_root w"
  shows "RootNode t w' = Inr (g root)"
  using assms tree_extends_find[OF assms(1), of "\<lambda>i. i_id i = ws_root w \<and> i_workspace i = ws_id w \<and> i_deleted i = None"]
  by (auto simp: RootNode_def tree_extends_def split: option.splits)

lemma resolve_from_extends:
  "tree_extends g s t \<Longrightarrow> resolve_from s ws current parts = Some node \<Longrightarrow>
   resolve_from t ws (g current) parts = Some (g node)"
  by (induction s ws current parts rule: resolve_from.induct)
    (auto simp: tree_extendsD FindChild_extends split: if_splits option.splits)

lemma Resolve_Inr:
  "Resolve s w parts = Inr node \<longleftrightarrow> (\<exists>root. RootNode s w = Inr root \<and> resolve_from s (ws_id w) root parts = Some node)"
  by (cases "RootNode s w") (auto simp: Resolve_def TryResolve_def split: option.splits)

lemma Resolve_extends:
  assumes "tree_extends g s t" "Resolve s w parts = Inr node" "ws_id w' = ws_id w" "ws_root w' = ws_root w"
  shows "Resolve t w' parts = Inr (g node)"
  using assms(2) RootNode_extends[OF assms(1) _ assms(3,4)] resolve_from_extends[OF assms(1)] assms(3)
  by (auto simp: Resolve_Inr)

lemma resolve_from_snoc:
  "resolve_from s ws current (parts @ [name]) =
     (case resolve_from s ws current parts of
        None \<Rightarrow> None
      | Some parent \<Rightarrow> if i_kind parent \<noteq> KDirectory then None else FindChild s ws (i_id parent) name)"
  by (induction s ws current parts rule: resolve_from.induct) (auto split: option.splits)

text \<open>The parent of a path, then its last name.\<close>

lemma ResolveParent_Inr:
  "ResolveParent s w parts = Inr (parent, name) \<longleftrightarrow>
     parts \<noteq> [] \<and> name = last parts \<and> Resolve s w (butlast parts) = Inr parent \<and> i_kind parent = KDirectory"
  by (cases "Resolve s w (butlast parts)") (auto simp: ResolveParent_def)

lemma Resolve_parent_child:
  assumes "parts \<noteq> []"
  shows "Resolve s w parts = Inr node \<longleftrightarrow>
    (\<exists>parent. ResolveParent s w parts = Inr (parent, last parts) \<and>
       FindChild s (ws_id w) (i_id parent) (last parts) = Some node)"
proof -
  have "parts = butlast parts @ [last parts]" using assms by simp
  then have "resolve_from s (ws_id w) root parts = Some node \<longleftrightarrow>
      (\<exists>parent. resolve_from s (ws_id w) root (butlast parts) = Some parent \<and> i_kind parent = KDirectory \<and>
         FindChild s (ws_id w) (i_id parent) (last parts) = Some node)" for root
    using resolve_from_snoc[of s "ws_id w" root "butlast parts" "last parts"] by (auto split: option.splits if_splits)
  then show ?thesis using assms by (auto simp: ResolveParent_Inr Resolve_Inr)
qed

text \<open>Workspaces keep their identity.\<close>

lemma FindWorkspace_same:
  assumes "surroundings t = surroundings s" "FindWorkspace s name = Inr w"
  shows "\<exists>w'. FindWorkspace t name = Inr w' \<and> ws_id w' = ws_id w \<and> ws_root w' = ws_root w"
proof -
  let ?p = "\<lambda>w. w_name w = name \<and> w_state w = Active"
  have "map_option ws_view (find ?p ws) = find ?p (map ws_view ws)" for ws
    by (induction ws) (auto simp: ws_view_def)
  moreover have "map ws_view (workspaces t) = map ws_view (workspaces s)" using assms(1) by (simp add: surroundings_def)
  ultimately have "map_option ws_view (find ?p (workspaces t)) = map_option ws_view (find ?p (workspaces s))" by simp
  then consider "find ?p (workspaces t) = None" "find ?p (workspaces s) = None"
    | x y where "find ?p (workspaces t) = Some x" "find ?p (workspaces s) = Some y" "ws_view x = ws_view y"
    by (cases "find ?p (workspaces t)"; cases "find ?p (workspaces s)") auto
  then show ?thesis
  proof cases
    case (2 x y)
    have "w_id (ws_view z) = w_id z" "w_root (ws_view z) = w_root z" for z by (simp_all add: ws_view_def)
    with 2(3) have "w_id x = w_id y" "w_root x = w_root y" by metis+
    with assms(2) 2(1,2) show ?thesis by (auto simp: FindWorkspace_def)
  qed (use assms(2) in \<open>simp add: FindWorkspace_def\<close>)
qed

lemma version_step_extends:
  assumes "version_step node content s t"
  shows "tree_extends (bump node (length content) (now_ms s)) s t"
  using assms by (auto simp: version_step_def tree_extends_def surroundings_def bump_def)

section \<open>Writing by path\<close>

text \<open>A new child: the parent is touched, everything else stays, and the name leads to the new inode.\<close>

definition touch :: "nat \<Rightarrow> nat \<Rightarrow> int \<Rightarrow> inode_row \<Rightarrow> inode_row" where
  "touch ws inode now i = (if i_id i = inode \<and> i_workspace i = ws \<and> i_kind i = KDirectory \<and> i_deleted i = None
     then i\<lparr>i_version := i_version i + 1, i_updated := now, i_changed := now\<rparr> else i)"

lemma inodes_TouchDirectory: "inodes (TouchDirectory ws inode s) = map (touch ws inode (now_ms s)) (inodes s)"
  by (simp add: TouchDirectory_def update_inodes_def touch_def [abs_def])

lemma inherit_acl_frame:
  "dentries (inherit_acl ws parent inode s) = dentries s" "inodes (inherit_acl ws parent inode s) = inodes s"
  "content_tables (inherit_acl ws parent inode s) = content_tables s"
  "surroundings (inherit_acl ws parent inode s) = surroundings s" "now_ms (inherit_acl ws parent inode s) = now_ms s"
proof -
  have "dentries (fold (\<lambda>a. insert_acl_or_ignore (a\<lparr>a_inode := inode\<rparr>)) as s) = dentries s \<and>
      inodes (fold (\<lambda>a. insert_acl_or_ignore (a\<lparr>a_inode := inode\<rparr>)) as s) = inodes s \<and>
      content_tables (fold (\<lambda>a. insert_acl_or_ignore (a\<lparr>a_inode := inode\<rparr>)) as s) = content_tables s \<and>
      surroundings (fold (\<lambda>a. insert_acl_or_ignore (a\<lparr>a_inode := inode\<rparr>)) as s) = surroundings s \<and>
      now_ms (fold (\<lambda>a. insert_acl_or_ignore (a\<lparr>a_inode := inode\<rparr>)) as s) = now_ms s" for as
    by (induction as arbitrary: s) (simp_all add: insert_acl_or_ignore_def content_tables_def now_ms_def)
  then show "dentries (inherit_acl ws parent inode s) = dentries s" "inodes (inherit_acl ws parent inode s) = inodes s"
    "content_tables (inherit_acl ws parent inode s) = content_tables s"
    "surroundings (inherit_acl ws parent inode s) = surroundings s" "now_ms (inherit_acl ws parent inode s) = now_ms s"
    by (simp_all add: inherit_acl_def)
qed

text \<open>The names, workspaces, handles and sessions but for the directory entries.\<close>

lemma create_child_run:
  assumes quota: "CheckQuotaForNewInode s ws k = Inr ()" and free: "find_dentry s ws parent name = None"
  defines "n \<equiv> next_rowid (map i_id (inodes s))"
  shows "\<exists>i t. create_child ws parent name k mode s = (Inr (new_node n k mode), t) \<and>
    i_id i = n \<and> i_workspace i = ws \<and> i_kind i = k \<and> i_size i = 0 \<and> i_version i = (if k = KDirectory then 1 else 0) \<and>
    i_deleted i = None \<and>
    inodes t = map (touch ws parent (now_ms s)) (inodes s @ [i]) \<and>
    dentries t = dentries s @ [\<lparr>d_workspace = ws, d_parent = parent, d_name = name, d_inode = n\<rparr>] \<and>
    content_tables t = content_tables s \<and> map ws_view (workspaces t) = map ws_view (workspaces s) \<and>
    handles t = handles s \<and> mount_sessions t = mount_sessions s \<and> clock t = clock s"
proof -
  define i where "i = \<lparr>i_id = n, i_workspace = ws, i_kind = k, i_mode = mode, i_owner = ''local'',
          i_uid = process_uid s, i_gid = process_gid s, i_size = 0, i_version = (if k = KDirectory then 1 else 0),
          i_created = now_s_ms s, i_accessed = now_s_ms s, i_updated = now_s_ms s,
          i_changed = now_s_ms s, i_deleted = None\<rparr>"
  define d where "d = \<lparr>d_workspace = ws, d_parent = parent, d_name = name, d_inode = n\<rparr>"
  define s1 where "s1 = insert_inode i s"
  define s2 where "s2 = s1\<lparr>dentries := dentries s1 @ [d], dirty_dentries := upsert_dirty d (dirty_dentries s1)\<rparr>"
  define t where "t = TouchDirectory ws parent (inherit_acl ws parent n s2)"
  have "dentry_key d \<notin> dentry_key ` set (dentries s1)"
    using free by (auto simp: s1_def insert_inode_def d_def find_dentry_def find_None_iff dentry_key_def)
  then have "insert_dentry d s1 = (Inr (), s2)" by (simp add: insert_dentry_def op_simps s2_def)
  then have "AddDentry ws parent name n s1 = (Inr (), t)" by (simp add: AddDentry_def op_simps t_def d_def)
  moreover have "CreateInode ws k mode s = (Inr n, s1)"
    using quota by (simp add: CreateInode_def op_simps n_def s1_def i_def)
  ultimately have "create_child ws parent name k mode s = (Inr (new_node n k mode), t)"
    by (simp add: create_child_def op_simps)
  moreover have "inodes t = map (touch ws parent (now_ms s)) (inodes s @ [i])"
    by (simp add: t_def inodes_TouchDirectory inherit_acl_frame s2_def s1_def insert_inode_def)
      (simp add: now_ms_def)
  moreover have "dentries t = dentries s @ [d]" "content_tables t = content_tables s"
    by (simp_all add: t_def TouchDirectory_def update_inodes_def inherit_acl_frame s2_def s1_def insert_inode_def content_tables_def)
      (simp_all add: inherit_acl_frame[unfolded content_tables_def, simplified])
  moreover have "surroundings t = surroundings (s2)" by (simp add: t_def TouchDirectory_def inherit_acl_frame)
  then have "map ws_view (workspaces t) = map ws_view (workspaces s) \<and>
    handles t = handles s \<and> mount_sessions t = mount_sessions s \<and> clock t = clock s"
    by (simp add: surroundings_def s2_def s1_def insert_inode_def comp_def)
  ultimately show ?thesis by (intro exI[of _ i] exI[of _ t]) (simp add: i_def d_def)
qed

lemma touch_fields [simp]:
  "i_id (touch ws inode now i) = i_id i" "i_workspace (touch ws inode now i) = i_workspace i"
  "i_kind (touch ws inode now i) = i_kind i" "i_deleted (touch ws inode now i) = i_deleted i"
  "i_kind i \<noteq> KDirectory \<Longrightarrow> touch ws inode now i = i"
  by (simp_all add: touch_def)

lemma create_child_extends:
  assumes run: "create_child ws parent name k mode s = (Inr node, t)"
  shows "tree_extends (touch ws parent (now_ms s)) s t"
    "\<exists>i \<in> set (inodes t). FindChild t ws parent name = Some i \<and> i_id i = i_id node \<and> i_workspace i = ws \<and> i_kind i = k \<and>
       i_kind node = k \<and> i_version node = 0 \<and> i_size i = 0 \<and> (k \<noteq> KDirectory \<longrightarrow> i_version i = 0)"
    "map ws_view (workspaces t) = map ws_view (workspaces s) \<and> handles t = handles s \<and>
     mount_sessions t = mount_sessions s \<and> clock t = clock s"
    "content_tables t = content_tables s"
proof -
  have quota: "CheckQuotaForNewInode s ws k = Inr ()" and free: "find_dentry s ws parent name = None"
    using run by (auto simp: create_child_def CreateInode_def AddDentry_def insert_dentry_def op_ok insert_inode_def
        find_dentry_def find_None_iff dentry_key_def image_iff)
  let ?n = "next_rowid (map i_id (inodes s))" and ?f = "touch ws parent (now_ms s)"
  from create_child_run[OF quota free, of mode] run obtain i where i: "i_id i = ?n" "i_workspace i = ws" "i_kind i = k"
      "i_size i = 0" "i_version i = (if k = KDirectory then 1 else 0)" "i_deleted i = None" "node = new_node ?n k mode"
    and t: "inodes t = map ?f (inodes s @ [i])"
      "dentries t = dentries s @ [\<lparr>d_workspace = ws, d_parent = parent, d_name = name, d_inode = ?n\<rparr>]"
      "content_tables t = content_tables s" "map ws_view (workspaces t) = map ws_view (workspaces s)"
      "handles t = handles s" "mount_sessions t = mount_sessions s" "clock t = clock s"
    by auto
  show "tree_extends ?f s t" using t(1,2) by (auto simp: tree_extends_def)
  have "find_dentry t ws parent name = Some \<lparr>d_workspace = ws, d_parent = parent, d_name = name, d_inode = ?n\<rparr>"
    using free t(2) by (simp add: find_dentry_def find_append dentry_key_def)
  moreover have "find (\<lambda>j. i_id j = ?n \<and> i_deleted j = None) (map ?f (inodes s)) = None"
    using next_rowid_fresh_image[of i_id "inodes s"] by (auto simp: find_None_iff image_iff)
  then have "live_inode t ?n = Some (?f i)"
    using i by (simp add: live_inode_def t(1) find_append)
  ultimately have "FindChild t ws parent name = Some (?f i)" by (simp add: FindChild_def)
  moreover have "?f i \<in> set (inodes t)" by (simp add: t(1))
  moreover have "i_size (?f i) = 0" using i(4) by (simp add: touch_def)
  ultimately show "\<exists>i \<in> set (inodes t). FindChild t ws parent name = Some i \<and> i_id i = i_id node \<and> i_workspace i = ws \<and> i_kind i = k \<and>
       i_kind node = k \<and> i_version node = 0 \<and> i_size i = 0 \<and> (k \<noteq> KDirectory \<longrightarrow> i_version i = 0)"
    using i by (intro bexI[of _ "?f i"]) (auto simp: new_node_def touch_def)
  show "map ws_view (workspaces t) = map ws_view (workspaces s) \<and> handles t = handles s \<and>
     mount_sessions t = mount_sessions s \<and> clock t = clock s" "content_tables t = content_tables s"
    using t by simp_all
qed

lemma versions_create_child: "preserves versions_inv (create_child ws parent name k mode)"
  unfolding create_child_def by (intro preserve_intros versions_create versions.add_dentry)

lemma FindChild_member: "FindChild s ws parent name = Some i \<Longrightarrow> i \<in> set (inodes s)"
  by (auto simp: FindChild_def live_inode_def split: option.splits dest: find_SomeD)

text \<open>The names and what surrounds them, but for directory entries.\<close>

definition around :: "db \<Rightarrow> workspace_row list \<times> handle_row list \<times> session_row list \<times> int" where
  "around s = (map ws_view (workspaces s), handles s, mount_sessions s, clock s)"

lemma around_surroundings: "surroundings t = surroundings s \<Longrightarrow> around t = around s"
  by (simp add: around_def surroundings_def)

text \<open>The file that a write goes to: the one that is there, or a new one.\<close>

definition write_target :: "Workspace \<Rightarrow> string list \<Rightarrow> db \<Rightarrow> inode_row \<Rightarrow> inode_row \<Rightarrow> db \<Rightarrow> bool" where
  "write_target w parts s node i s1 \<longleftrightarrow> parts \<noteq> [] \<and> versions_inv s1 \<and> (\<exists>g. tree_extends g s s1) \<and>
     around s1 = around s \<and> content_tables s1 = content_tables s \<and>
     i \<in> set (inodes s1) \<and> Resolve s1 w parts = Inr i \<and> i_id i = i_id node \<and> i_version i = i_version node \<and>
     i_kind i = KFile \<and> i_kind node = KFile"

lemma write_target_existing:
  assumes "versions_inv s" "parts \<noteq> []" "Resolve s w parts = Inr i" "i_kind i = KFile"
  shows "write_target w parts s i i s"
proof -
  have "i \<in> set (inodes s)" using assms(2,3) FindChild_member by (auto simp: Resolve_parent_child)
  moreover have "tree_extends (\<lambda>i. i) s s" by (simp add: tree_extends_def)
  ultimately show ?thesis using assms by (auto simp: write_target_def)
qed

lemma write_target_new:
  assumes inv: "versions_inv s" and parent: "ResolveParent s w parts = Inr (parent, name)"
    and run: "create_child (ws_id w) (i_id parent) name KFile mode s = (Inr node, s1)"
  shows "\<exists>i. write_target w parts s node i s1"
proof -
  note ext = create_child_extends[OF run]
  obtain i where i: "i \<in> set (inodes s1)" "FindChild s1 (ws_id w) (i_id parent) name = Some i" "i_id i = i_id node"
      "i_kind i = KFile" "i_kind node = KFile" "i_version i = i_version node"
    using ext(2) by auto
  have p: "parts \<noteq> []" "name = last parts" "Resolve s w (butlast parts) = Inr parent" "i_kind parent = KDirectory"
    using parent by (simp_all add: ResolveParent_Inr)
  have "ResolveParent s1 w parts = Inr (touch (ws_id w) (i_id parent) (now_ms s) parent, name)"
    using Resolve_extends[OF ext(1) p(3) refl refl] p by (simp add: ResolveParent_Inr)
  with i(2) p(1,2) have "Resolve s1 w parts = Inr i" by (auto simp: Resolve_parent_child)
  with i p(1) ext preservesD[OF versions_create_child inv run] show ?thesis
    by (auto simp: write_target_def around_def)
qed

lemma WritePath_target:
  assumes inv: "versions_inv s" and run: "WritePath w parts content message s = (Inr v, t)"
  shows "\<exists>node i s1. write_target w parts s node i s1 \<and> StoreVersion w node content message s1 = (Inr v, t)"
proof -
  from run obtain parent name node s1 where parent: "ResolveParent s w parts = Inr (parent, name)"
    and node: "(case FindChild s (ws_id w) (i_id parent) name of
              None \<Rightarrow> create_child (ws_id w) (i_id parent) name KFile 420 | Some node \<Rightarrow> ret node) s = (Inr node, s1)"
    and regular: "i_kind node = KFile" and store: "StoreVersion w node content message s1 = (Inr v, t)"
    by (auto simp: WritePath_def op_ok split: prod.splits)
  have p: "parts \<noteq> []" "name = last parts" using parent by (simp_all add: ResolveParent_Inr)
  show ?thesis
  proof (cases "FindChild s (ws_id w) (i_id parent) name")
    case None
    with node have "create_child (ws_id w) (i_id parent) name KFile 420 s = (Inr node, s1)" by simp
    from write_target_new[OF inv parent this] store show ?thesis by blast
  next
    case (Some i)
    with node have eq: "node = i" "s1 = s" by (auto simp: op_ok)
    with Some parent p have "Resolve s w parts = Inr i" by (auto simp: Resolve_parent_child)
    with write_target_existing[OF inv p(1)] regular store eq show ?thesis by blast
  qed
qed

text \<open>What the path leads to afterwards.\<close>

definition file_reads :: "db \<Rightarrow> Workspace \<Rightarrow> string list \<Rightarrow> nat \<Rightarrow> byte list \<Rightarrow> bool" where
  "file_reads t w parts v content \<longleftrightarrow> (\<exists>j. Resolve t w parts = Inr j \<and> i_kind j = KFile \<and> i_version j = v \<and> 0 < v \<and>
     i_size j = int (length content) \<and> ReadVersionContent t (i_id j) v = Inr content)"

lemma target_step:
  assumes target: "write_target w parts s node i s1" and step: "version_step node content s1 t"
    and w: "ws_id w' = ws_id w" "ws_root w' = ws_root w"
  shows "file_reads t w' parts (i_version node + 1) content \<and> versions_inv t \<and> around t = around s"
proof -
  let ?b = "bump node (length content) (now_ms s1)"
  have i: "Resolve s1 w parts = Inr i" "i_id i = i_id node" "i_version i = i_version node" "i_kind i = KFile" "versions_inv s1"
    using target by (simp_all add: write_target_def)
  have "Resolve t w' parts = Inr (?b i)" by (rule Resolve_extends[OF version_step_extends[OF step] i(1) w])
  moreover have "i_id (?b i) = i_id node" "i_version (?b i) = i_version node + 1" "i_kind (?b i) = KFile"
      "i_size (?b i) = int (length content)"
    using i by (simp_all add: bump_def)
  moreover have "ReadVersionContent t (i_id node) (i_version node + 1) = Inr content" "around t = around s1"
    using step around_surroundings[of t s1] by (auto simp: version_step_def)
  ultimately show ?thesis
    using version_step_inv[OF i(5) step] target by (auto simp: file_reads_def write_target_def)
qed

lemma WritePath_written:
  assumes inv: "versions_inv s" and len: "length content \<le> kMaxStagedBytes"
    and run: "WritePath w parts content message s = (Inr v, t)"
    and w: "ws_id w' = ws_id w" "ws_root w' = ws_root w"
  shows "\<exists>content'. stored_as content content' \<and> file_reads t w' parts v content' \<and> around t = around s"
proof -
  obtain node i s1 where target: "write_target w parts s node i s1"
      and store: "StoreVersion w node content message s1 = (Inr v, t)"
    using WritePath_target[OF inv run] by blast
  then have "content_wf s1" by (simp add: write_target_def versions_content_wf)
  from StoreVersion_step[OF this len store] obtain content' where
    "v = i_version node + 1" "stored_as content content'" "version_step node content' s1 t" by blast
  with target_step[OF target _ w] show ?thesis by blast
qed

text \<open>A read by path, unless the file is being written through an active mount.\<close>

lemma ReadFunction_reads:
  assumes "FindWorkspace t name = Inr w" "PathParts path = Inr parts" "file_reads t w parts v content"
    and "\<And>j. Resolve t w parts = Inr j \<Longrightarrow> FindActiveMountStaging t (ws_id w) (i_id j) = None"
  shows "ReadFunction (SqlText name) (SqlText path) t = (Inr content, t)"
  using assms(1,2,3) assms(4)
  by (auto simp: ReadFunction_def workspace_arg_def parts_arg_def text_arg_def RequiredText_def op_simps file_reads_def
      ReadNode_def)

lemma active_staging_around: "around t = around s \<Longrightarrow> FindActiveMountStaging t = FindActiveMountStaging s"
  by (simp add: around_def FindActiveMountStaging_def now_ms_def fun_eq_iff)

lemma FindWorkspace_around:
  assumes "around t = around s" "FindWorkspace s name = Inr w"
  shows "\<exists>w'. FindWorkspace t name = Inr w' \<and> ws_id w' = ws_id w \<and> ws_root w' = ws_root w"
proof -
  have "surroundings (t\<lparr>dentries := []\<rparr>) = surroundings (s\<lparr>dentries := []\<rparr>)"
    using assms(1) by (simp add: around_def surroundings_def)
  from FindWorkspace_same[OF this, of name w] assms(2) show ?thesis by (simp add: FindWorkspace_def)
qed

section \<open>Writes that succeed\<close>

lemma WritePath_existing_runs:
  assumes inv: "versions_inv s" and parts: "parts \<noteq> []" "Resolve s w parts = Inr node" "i_kind node = KFile"
    and len: "length content \<le> kMaxStagedBytes"
    and quota: "CheckQuotaForContentSize s (ws_id w) (i_id node) (int (length content)) = Inr ()"
  shows "\<exists>t content'. WritePath w parts content message s = (Inr (i_version node + 1), t) \<and>
    stored_as content content' \<and> version_step node content' s t"
proof -
  obtain parent where parent: "ResolveParent s w parts = Inr (parent, last parts)"
      "FindChild s (ws_id w) (i_id parent) (last parts) = Some node"
    using parts by (auto simp: Resolve_parent_child)
  have "current_node s node"
    using FindChild_member[OF parent(2)] parts(3) by (auto simp: current_node_def)
  from StoreVersion_runs[OF inv this len quota, of message]
  obtain t where t: "StoreVersion w node content message s = (Inr (i_version node + 1), t)" by blast
  with parent parts(3) have "WritePath w parts content message s = (Inr (i_version node + 1), t)"
    by (simp add: WritePath_def op_simps)
  with StoreVersion_step[OF versions_content_wf[OF inv] len t] show ?thesis by blast
qed

lemma WritePath_new_runs:
  assumes inv: "versions_inv s" and parent: "ResolveParent s w parts = Inr (parent, name)"
    and none: "FindChild s (ws_id w) (i_id parent) name = None"
    and child: "create_child (ws_id w) (i_id parent) name KFile 420 s = (Inr node, s1)"
    and len: "length content \<le> kMaxStagedBytes"
    and quota: "CheckQuotaForContentSize s1 (ws_id w) (i_id node) (int (length content)) = Inr ()"
  shows "\<exists>t. WritePath w parts content message s = (Inr 1, t)"
proof -
  note ext = create_child_extends(2)[OF child]
  have "current_node s1 node" "i_version node = 0" "i_kind node = KFile"
    using ext by (auto simp: current_node_def)
  with StoreVersion_runs[OF preservesD[OF versions_create_child inv child] _ len quota, of message] parent none child
  show ?thesis by (auto simp: WritePath_def op_simps)
qed

text \<open>The arguments of a call as texts and a blob.\<close>

lemma WriteFunction_path:
  "FindWorkspace s name = Inr w \<Longrightarrow> PathParts path = Inr parts \<Longrightarrow> length content \<le> kMaxStagedBytes \<Longrightarrow>
   WriteFunction (SqlText name) (SqlText path) (SqlBlob content) s = WritePath w parts content ''write file'' s"
  by (simp add: WriteFunction_def workspace_arg_def parts_arg_def text_arg_def blob_arg_def RequiredText_def
      RequiredBlob_def op_simps)

lemma WriteFunction_ok:
  "WriteFunction (SqlText name) (SqlText path) (SqlBlob content) s = (Inr v, t) \<longleftrightarrow>
     (\<exists>w parts. FindWorkspace s name = Inr w \<and> PathParts path = Inr parts \<and> length content \<le> kMaxStagedBytes \<and>
        WritePath w parts content ''write file'' s = (Inr v, t))"
  by (auto simp: WriteFunction_def workspace_arg_def parts_arg_def text_arg_def blob_arg_def RequiredText_def
      RequiredBlob_def op_ok)

text \<open>
  A workspace that has just been created, and a file in it: the concrete states of the witnesses.
\<close>

definition fresh_ws :: db where
  "fresh_ws = snd (call_op (Workspace_Create (SqlText ''w'')) empty_db)"

lemma fresh_execution: "execution empty_db fresh_ws"
  unfolding fresh_ws_def by (rule execution.call[OF execution.start])

definition first_rows :: "db \<Rightarrow> bool" where
  "first_rows s \<longleftrightarrow>
     map (\<lambda>w. (w_id w, w_name w, w_state w, w_root w, w_head w)) (workspaces s) = [(1, ''w'', Active, Some 1, Some 1)] \<and>
     map (\<lambda>w. (w_max_bytes w, w_max_files w, w_max_file_bytes w)) (workspaces s) = [(None, None, None)] \<and>
     map (\<lambda>i. (i_id i, i_workspace i, i_kind i, i_deleted i)) (inodes s) = [(1, 1, KDirectory, None)] \<and>
     dentries s = [] \<and> handles s = []"

lemma fresh_rows: "first_rows fresh_ws"
  unfolding fresh_ws_def call_op.simps snd_discard by code_simp

lemma first_path: "PathParts ''/a'' = Inr [''a'']"
  by code_simp

lemma fresh_facts:
  "FindWorkspace fresh_ws ''w'' = Inr \<lparr>ws_id = 1, ws_root = 1, ws_head = 1\<rparr>" "handles fresh_ws = []"
  "dentries fresh_ws = []"
  "map w_id (workspaces fresh_ws) = [1]" "map w_max_bytes (workspaces fresh_ws) = [None]"
  "map w_max_files (workspaces fresh_ws) = [None]" "map w_max_file_bytes (workspaces fresh_ws) = [None]"
  "map (\<lambda>i. (i_id i, i_workspace i, i_kind i, i_deleted i)) (inodes fresh_ws) = [(1, 1, KDirectory, None)]"
  using fresh_rows by (auto simp: first_rows_def FindWorkspace_def map_eq_Cons_conv)

lemma quota_unlimited:
  "find_workspace_row s ws = Some w \<Longrightarrow> w_max_bytes w = None \<Longrightarrow> w_max_file_bytes w = None \<Longrightarrow> 0 \<le> n \<Longrightarrow>
   CheckQuotaForContentSize s ws inode n = Inr ()"
  by (simp add: CheckQuotaForContentSize_def ReadQuotaPolicy_def quota_value_def Let_def)

lemma unlimited_view:
  assumes "map ws_view (workspaces t) = map ws_view (workspaces s)"
    and "map w_id (workspaces s) = [ws]" "map w_max_bytes (workspaces s) = [None]" "map w_max_file_bytes (workspaces s) = [None]"
    and "0 \<le> n"
  shows "CheckQuotaForContentSize t ws inode n = Inr ()"
proof -
  obtain y where y: "workspaces s = [y]" "w_id y = ws" "w_max_bytes y = None" "w_max_file_bytes y = None"
    using assms(2-4) by (cases "workspaces s") auto
  with assms(1) obtain x where x: "workspaces t = [x]" "ws_view x = ws_view y" by (cases "workspaces t") auto
  have "w_id (ws_view z) = w_id z" "w_max_bytes (ws_view z) = w_max_bytes z" "w_max_file_bytes (ws_view z) = w_max_file_bytes z" for z
    by (simp_all add: ws_view_def)
  with x(2) y have "w_id x = ws" "w_max_bytes x = None" "w_max_file_bytes x = None" by metis+
  with x(1) assms(5) show ?thesis by (intro quota_unlimited[of _ _ x]) (simp_all add: find_workspace_row_def)
qed

text \<open>The first file of the workspace, with its content stored as version 1.\<close>

definition first_file :: "byte list \<Rightarrow> db \<Rightarrow> inode_row \<Rightarrow> bool" where
  "first_file content t node \<longleftrightarrow> execution empty_db t \<and>
     WriteFunction (SqlText ''w'') (SqlText ''/a'') (SqlBlob content) fresh_ws = (Inr 1, t) \<and>
     (\<exists>c. FindWorkspace t ''w'' = Inr \<lparr>ws_id = 1, ws_root = 1, ws_head = c\<rparr> \<and>
        Resolve t \<lparr>ws_id = 1, ws_root = 1, ws_head = c\<rparr> [''a''] = Inr node) \<and>
     node \<in> set (inodes t) \<and> i_kind node = KFile \<and> i_workspace node = 1 \<and> i_version node = 1 \<and>
     i_size node = int (length content) \<and> 0 < i_id node \<and> handles t = [] \<and> around t = around fresh_ws \<and>
     (\<forall>inode n. 0 \<le> n \<longrightarrow> CheckQuotaForContentSize t 1 inode n = Inr ()) \<and>
     (length content \<le> kContentChunkBytes \<longrightarrow> ReadVersionContent t (i_id node) 1 = Inr content)"

lemma one_chunk: "length content \<le> kContentChunkBytes \<Longrightarrow> no_collision (chunks_of kContentChunkBytes content)"
proof -
  assume "length content \<le> kContentChunkBytes"
  then have "length (chunks_of kContentChunkBytes content) \<le> 1"
    unfolding chunk_count_of_length[symmetric] chunk_count_le by simp
  then show ?thesis by (cases "chunks_of kContentChunkBytes content") (auto simp: no_collision_def)
qed

lemma fresh_child:
  "\<exists>node i s1. create_child 1 1 ''a'' KFile 420 fresh_ws = (Inr node, s1) \<and>
     write_target \<lparr>ws_id = 1, ws_root = 1, ws_head = c\<rparr> [''a''] fresh_ws node i s1 \<and> i_workspace i = 1 \<and> i_version node = 0 \<and> 0 < i_id node \<and>
     ResolveParent fresh_ws \<lparr>ws_id = 1, ws_root = 1, ws_head = c\<rparr> [''a''] = Inr (hd (inodes fresh_ws), ''a'') \<and>
     i_id (hd (inodes fresh_ws)) = 1 \<and> FindChild fresh_ws 1 1 ''a'' = None"
proof -
  let ?w = "\<lparr>ws_id = 1, ws_root = 1, ws_head = c\<rparr>"
  obtain r where r: "inodes fresh_ws = [r]" "i_id r = 1" "i_workspace r = 1" "i_kind r = KDirectory" "i_deleted r = None"
    using fresh_facts(8) by (cases "inodes fresh_ws") auto
  have parent: "ResolveParent fresh_ws ?w [''a''] = Inr (r, ''a'')"
    by (simp add: ResolveParent_Inr Resolve_Inr RootNode_def r)
  have none: "FindChild fresh_ws 1 1 ''a'' = None" "find_dentry fresh_ws 1 1 ''a'' = None"
    using fresh_facts by (simp_all add: FindChild_def find_dentry_def)
  obtain y where y: "workspaces fresh_ws = [y]" "w_id y = 1" "w_max_files y = None"
    using fresh_facts by (cases "workspaces fresh_ws") auto
  have "CheckQuotaForNewInode fresh_ws 1 KFile = Inr ()"
    using y by (simp add: CheckQuotaForNewInode_def find_workspace_row_def)
  from create_child_run[OF this none(2), of 420] obtain node s1 where
    child: "create_child 1 1 ''a'' KFile 420 fresh_ws = (Inr node, s1)" and id: "0 < i_id node"
    by (auto simp: new_node_def)
  have inv: "versions_inv fresh_ws" using versions_always.execution_kept[OF fresh_execution] by simp
  from write_target_new[OF inv parent, of 420 node s1] child r(2)
  obtain i where i: "write_target ?w [''a''] fresh_ws node i s1" by auto
  then obtain p where p: "ResolveParent s1 ?w [''a''] = Inr (p, ''a'')" "FindChild s1 1 (i_id p) ''a'' = Some i"
    by (auto simp: write_target_def Resolve_parent_child)
  have "i_id p = 1"
    using p(1) by (auto simp: ResolveParent_Inr Resolve_Inr RootNode_def split: option.splits dest: find_SomeD)
  with p(2) create_child_extends(2)[OF child] have "i_workspace i = 1" "i_version node = 0" by auto
  with child i id parent none r show ?thesis by (intro exI[of _ node] exI[of _ i] exI[of _ s1]) simp
qed

lemma first_file_exists:
  assumes "length content \<le> kMaxStagedBytes"
  shows "\<exists>t node. first_file content t node"
proof -
  let ?w = "\<lparr>ws_id = 1, ws_root = 1, ws_head = 1\<rparr>"
  obtain node i s1 where child: "create_child 1 1 ''a'' KFile 420 fresh_ws = (Inr node, s1)"
      "write_target ?w [''a''] fresh_ws node i s1" "i_workspace i = 1" "i_version node = 0"
      "0 < i_id node" "ResolveParent fresh_ws ?w [''a''] = Inr (hd (inodes fresh_ws), ''a'')" "i_id (hd (inodes fresh_ws)) = 1"
      "FindChild fresh_ws 1 1 ''a'' = None"
    using fresh_child[of 1] by blast
  have s1: "versions_inv s1" "around s1 = around fresh_ws" "current_node s1 node" "i_kind node = KFile"
    using child(2) by (auto simp: write_target_def current_node_def)
  have room: "CheckQuotaForContentSize u 1 inode n = Inr ()" if "around u = around fresh_ws" "0 \<le> n" for u inode n
    by (rule unlimited_view[where s = fresh_ws]) (use that fresh_facts in \<open>simp_all add: around_def\<close>)
  from StoreVersion_runs[OF s1(1,3) assms, of ?w "''write file''"] room[OF s1(2)] child(4)
  obtain t where store: "StoreVersion ?w node content ''write file'' s1 = (Inr 1, t)" by auto
  then have "WritePath ?w [''a''] content ''write file'' fresh_ws = (Inr 1, t)"
    using child s1(4) by (simp add: WritePath_def op_simps)
  then have run: "WriteFunction (SqlText ''w'') (SqlText ''/a'') (SqlBlob content) fresh_ws = (Inr 1, t)"
    using fresh_facts(1) first_path assms by (simp add: WriteFunction_path)
  then have "t = snd (call_op (Write (SqlText ''w'') (SqlText ''/a'') (SqlBlob content)) fresh_ws)" by simp
  then have exec: "execution empty_db t" using execution.call[OF fresh_execution] by metis
  from StoreVersion_step[OF versions_content_wf[OF s1(1)] assms store]
  obtain content' where content': "stored_as content content'" "version_step node content' s1 t" by blast
  note step = target_step[OF child(2) content'(2)]
  have around: "around t = around fresh_ws" using step[of ?w] by simp
  obtain w where w: "FindWorkspace t ''w'' = Inr w" "ws_id w = 1" "ws_root w = 1"
    using FindWorkspace_around[OF around fresh_facts(1)] by auto
  then have w': "w = \<lparr>ws_id = 1, ws_root = 1, ws_head = ws_head w\<rparr>" by simp
  let ?n = "bump node (length content') (now_ms s1) i"
  have i: "Resolve s1 ?w [''a''] = Inr i" "i_id i = i_id node" "i_version i = i_version node" "i_kind i = KFile" "i \<in> set (inodes s1)"
    using child(2) by (simp_all add: write_target_def)
  have res: "Resolve t w [''a''] = Inr ?n"
    by (rule Resolve_extends[OF version_step_extends[OF content'(2)] i(1)]) (simp_all add: w)
  have n: "i_id ?n = i_id node" "i_kind ?n = KFile" "i_workspace ?n = 1" "i_version ?n = 1" "i_size ?n = int (length content')"
      "?n \<in> set (inodes t)"
    using i child(3,4) content'(2) by (auto simp: bump_def version_step_def)
  have "ReadVersionContent t (i_id node) 1 = Inr content'" using content'(2) child(4) by (simp add: version_step_def)
  then have "first_file content t ?n"
    unfolding first_file_def using exec run w(1) res n child(5) content'(1) around room fresh_facts(2) one_chunk
    by (subst (asm) w', subst (asm) w') (auto simp: stored_as_def around_def)
  then show ?thesis by blast
qed

lemma three_bytes: "\<exists>t node. first_file [1, 2, 3] t node"
  by (rule first_file_exists) (simp add: kMaxStagedBytes_def)

lemma append_runs:
  assumes "first_file [1, 2, 3] t node"
  shows "\<exists>u. AppendFunction (SqlText ''w'') (SqlInt (int (i_id node))) (SqlBlob [4]) t = (Inr 2, u)"
proof -
  from assms obtain c where t: "execution empty_db t" "FindWorkspace t ''w'' = Inr \<lparr>ws_id = 1, ws_root = 1, ws_head = c\<rparr>"
      "node \<in> set (inodes t)" "i_kind node = KFile" "i_workspace node = 1" "i_version node = 1" "i_size node = 3"
      "ReadVersionContent t (i_id node) 1 = Inr [1, 2, 3]" "CheckQuotaForContentSize t 1 (i_id node) 4 = Inr ()"
    by (auto simp: first_file_def kContentChunkBytes_def)
  have inv: "versions_inv t" using versions_always.execution_kept[OF t(1)] by simp
  have id: "0 < i_id node" using assms by (simp add: first_file_def)
  have node: "NodeById t (i_id node) True = Inr node"
  proof -
    have "find (\<lambda>i. i_id i = i_id node \<and> (True \<or> i_deleted i = None)) (inodes t) = Some node"
      using inv t(3) by (intro find_unique[where key = i_id]) (auto simp: versions_inv_def)
    then show ?thesis by (simp add: NodeById_def)
  qed
  have "current_node t node" using t(3,4) by (auto simp: current_node_def)
  from StoreVersion_runs[OF inv this, of "[1, 2, 3, 4]" "\<lparr>ws_id = 1, ws_root = 1, ws_head = c\<rparr>" "''append file''"] t(6,9)
  obtain u where "StoreVersion \<lparr>ws_id = 1, ws_root = 1, ws_head = c\<rparr> node [1, 2, 3, 4] ''append file'' t = (Inr 2, u)"
    by (auto simp: kMaxStagedBytes_def)
  with t node id show ?thesis
    by (auto simp: AppendFunction_def workspace_arg_def text_arg_def inode_arg_def blob_arg_def RequiredText_def RequiredBlob_def
        RequiredPositiveInteger_def RequireWorkspaceInode_def ReadNode_def op_simps kMaxStagedBytes_def)
qed

lemma second_version:
  "\<exists>t u node w. WriteFunction (SqlText ''w'') (SqlText ''/a'') (SqlBlob [1, 2, 3]) fresh_ws = (Inr 1, t) \<and>
     WriteFunction (SqlText ''w'') (SqlText ''/a'') (SqlBlob [4]) t = (Inr 2, u) \<and>
     execution empty_db u \<and> FindWorkspace u ''w'' = Inr w \<and> ws_id w = 1 \<and> Resolve u w [''a''] = Inr node \<and>
     i_kind node = KFile \<and> i_version node = 2 \<and> ReadVersionContent u (i_id node) 1 = Inr [1, 2, 3] \<and>
     (\<forall>inode n. 0 \<le> n \<longrightarrow> CheckQuotaForContentSize u 1 inode n = Inr ())"
proof -
  obtain t node where t: "first_file [1, 2, 3] t node" using three_bytes by blast
  then obtain c where w: "FindWorkspace t ''w'' = Inr \<lparr>ws_id = 1, ws_root = 1, ws_head = c\<rparr>"
      "Resolve t \<lparr>ws_id = 1, ws_root = 1, ws_head = c\<rparr> [''a''] = Inr node"
    by (auto simp: first_file_def)
  have f: "execution empty_db t" "i_kind node = KFile" "i_version node = 1"
      "WriteFunction (SqlText ''w'') (SqlText ''/a'') (SqlBlob [1, 2, 3]) fresh_ws = (Inr 1, t)"
      "ReadVersionContent t (i_id node) 1 = Inr [1, 2, 3]" "CheckQuotaForContentSize t 1 (i_id node) 1 = Inr ()"
    using t by (simp_all add: first_file_def kContentChunkBytes_def)
  have inv: "versions_inv t" using versions_always.execution_kept[OF f(1)] by simp
  from WritePath_existing_runs[OF inv _ w(2) f(2), of "[4]" "''write file''"] f(3,6)
  obtain u content' where u: "WritePath \<lparr>ws_id = 1, ws_root = 1, ws_head = c\<rparr> [''a''] [4] ''write file'' t = (Inr 2, u)"
      "version_step node content' t u"
    by (auto simp: kMaxStagedBytes_def)
  have run: "WriteFunction (SqlText ''w'') (SqlText ''/a'') (SqlBlob [4]) t = (Inr 2, u)"
    using w(1) u(1) first_path by (simp add: WriteFunction_path kMaxStagedBytes_def)
  then have "u = snd (call_op (Write (SqlText ''w'') (SqlText ''/a'') (SqlBlob [4])) t)" by simp
  then have exec: "execution empty_db u" using execution.call[OF f(1)] by metis
  have same: "surroundings u = surroundings t" using u(2) by (simp add: version_step_def)
  obtain w' where w': "FindWorkspace u ''w'' = Inr w'" "ws_id w' = 1" "ws_root w' = 1"
    using FindWorkspace_same[OF same w(1)] by auto
  have "Resolve u w' [''a''] = Inr (bump node (length content') (now_ms t) node)"
    by (rule Resolve_extends[OF version_step_extends[OF u(2)] w(2)]) (simp_all add: w')
  moreover have "ReadVersionContent u (i_id node) 1 = Inr [1, 2, 3]"
    by (rule ReadVersionContent_extends[OF _ f(5)]) (use u(2) in \<open>simp add: version_step_def\<close>)
  moreover have "CheckQuotaForContentSize u 1 inode n = Inr ()" if "0 \<le> n" for inode n
  proof (rule unlimited_view[where s = fresh_ws])
    show "map ws_view (workspaces u) = map ws_view (workspaces fresh_ws)"
      using around_surroundings[OF same] t by (simp add: around_def first_file_def)
  qed (use that fresh_facts in simp_all)
  ultimately show ?thesis
    using f(3,4) run exec w' f(2)
    by (intro exI[of _ t] exI[of _ u] exI[of _ "bump node (length content') (now_ms t) node"] exI[of _ w']) (simp add: bump_def)
qed

section \<open>Properties\<close>

text \<open>
  C17: Whatever sequence of calls has led to the database: every recorded version of every file can be
  read, its checksum and its recorded size match what is read, no version is ahead of its inode, and the
  size of every file is the size of its current version.
\<close>

theorem every_version_readable:
  assumes "execution empty_db s"
  shows "(\<forall>v \<in> set (file_versions s). \<exists>c. ReadVersionContent s (v_inode v) (v_no v) = Inr c \<and>
            content_checksum c = Inr (v_checksum v) \<and> int (length c) = v_size v) \<and>
    (\<forall>v \<in> set (file_versions s). \<exists>i \<in> set (inodes s). i_id i = v_inode v \<and> v_no v \<le> i_version i) \<and>
    (\<forall>i \<in> set (inodes s). i_kind i \<noteq> KDirectory \<longrightarrow> 0 < i_version i \<longrightarrow>
       (\<exists>c. ReadVersionContent s (i_id i) (i_version i) = Inr c \<and> i_size i = int (length c)))"
proof -
  have inv: "versions_inv s" using versions_always.execution_kept[OF assms] by simp
  have "content_checksum c = Inr (v_checksum v) \<and> int (length c) = v_size v"
    if v: "v \<in> set (file_versions s)" and c: "ReadVersionContent s (v_inode v) (v_no v) = Inr c" for v c
  proof -
    from c obtain st where st: "ResolveVersionStorage s (v_inode v) (v_no v) = Inr st" "vs_size st = length c"
        "content_checksum c = Inr (vs_checksum st)"
      by (auto simp: ReadVersionContent_ok)
    have "find_version s (v_inode v) (v_no v) = Some v"
      using v inv unfolding versions_inv_def find_version_def by (intro find_unique[where key = "\<lambda>v. (v_inode v, v_no v)"]) auto
    with st show ?thesis by (auto simp: ResolveVersionStorage_Inr reference_corrupt_def)
  qed
  moreover have "\<exists>c. ReadVersionContent s (v_inode v) (v_no v) = Inr c"
      "\<exists>i \<in> set (inodes s). i_id i = v_inode v \<and> v_no v \<le> i_version i" if "v \<in> set (file_versions s)" for v
    using inv that by (simp_all add: versions_inv_def)
  moreover have "\<exists>c. ReadVersionContent s (i_id i) (i_version i) = Inr c \<and> i_size i = int (length c)"
    if "i \<in> set (inodes s)" "i_kind i \<noteq> KDirectory" "0 < i_version i" for i
    using inv that by (simp add: versions_inv_def)
  ultimately show ?thesis by blast
qed

theorem every_version_readable_witness:
  "\<exists>t node. first_file [1, 2, 3] t node \<and>
     (\<exists>c. ReadVersionContent t (i_id node) (i_version node) = Inr c \<and> i_size node = int (length c))"
proof -
  obtain t node where t: "first_file [1, 2, 3] t node" using three_bytes by blast
  then have "execution empty_db t" "node \<in> set (inodes t)" "i_kind node = KFile" "i_version node = 1"
    by (simp_all add: first_file_def)
  then have "i_kind node \<noteq> KDirectory" "0 < i_version node" by simp_all
  with every_version_readable[OF \<open>execution empty_db t\<close>] \<open>node \<in> set (inodes t)\<close>
  have "\<exists>c. ReadVersionContent t (i_id node) (i_version node) = Inr c \<and> i_size node = int (length c)"
    by blast
  with t show ?thesis by blast
qed

text \<open>
  C18: A file written by path is the file read by path: after \<open>vex_fs_write\<close> has returned version \<open>v\<close>,
  the path leads to a regular file at version \<open>v\<close> whose size is that of the content, and
  \<open>vex_fs_read\<close> of the same path returns the content, whether the file was there before or not, unless an
  active mount holds unpublished bytes of the file. The content is the written one unless two of its
  chunks of equal size have the same SHA-256, in which case the second is stored as the first.
\<close>

theorem write_then_read:
  assumes "execution empty_db s"
    and "WriteFunction (SqlText name) (SqlText path) (SqlBlob content) s = (Inr v, t)"
  shows "\<exists>w parts node content'. FindWorkspace t name = Inr w \<and> PathParts path = Inr parts \<and>
    Resolve t w parts = Inr node \<and> i_kind node = KFile \<and> i_version node = v \<and> i_size node = int (length content) \<and>
    length content' = length content \<and> content_checksum content' = content_checksum content \<and>
    (no_collision (chunks_of kContentChunkBytes content) \<longrightarrow> content' = content) \<and>
    (FindActiveMountStaging t (ws_id w) (i_id node) = None \<longrightarrow>
       ReadFunction (SqlText name) (SqlText path) t = (Inr content', t))"
proof -
  have inv: "versions_inv s" using versions_always.execution_kept[OF assms(1)] by simp
  from assms(2) obtain w parts where w: "FindWorkspace s name = Inr w" "PathParts path = Inr parts"
      "length content \<le> kMaxStagedBytes" "WritePath w parts content ''write file'' s = (Inr v, t)"
    by (auto simp: WriteFunction_ok)
  from WritePath_written[OF inv w(3,4) refl refl] have "around t = around s" by blast
  from FindWorkspace_around[OF this w(1)]
  obtain w' where w': "FindWorkspace t name = Inr w'" "ws_id w' = ws_id w" "ws_root w' = ws_root w" by blast
  from WritePath_written[OF inv w(3,4) w'(2,3)]
  obtain content' where content': "stored_as content content'" "file_reads t w' parts v content'" by blast
  from content'(2) obtain node where node: "Resolve t w' parts = Inr node" "i_kind node = KFile" "i_version node = v"
      "i_size node = int (length content')"
    by (auto simp: file_reads_def)
  have "ReadFunction (SqlText name) (SqlText path) t = (Inr content', t)"
    if "FindActiveMountStaging t (ws_id w') (i_id node) = None"
    by (rule ReadFunction_reads[OF w'(1) w(2) content'(2)]) (use node(1) that in simp)
  with w' w(2) node content'(1) show ?thesis
    by (intro exI[of _ w'] exI[of _ parts] exI[of _ node] exI[of _ content']) (simp add: stored_as_def)
qed

theorem write_then_read_witness:
  "\<exists>t. WriteFunction (SqlText ''w'') (SqlText ''/a'') (SqlBlob [1, 2, 3]) fresh_ws = (Inr 1, t) \<and>
     ReadFunction (SqlText ''w'') (SqlText ''/a'') t = (Inr [1, 2, 3], t)"
proof -
  obtain t node where t: "first_file [1, 2, 3] t node" using three_bytes by blast
  then have run: "WriteFunction (SqlText ''w'') (SqlText ''/a'') (SqlBlob [1, 2, 3]) fresh_ws = (Inr 1, t)"
      and "handles t = []"
    by (simp_all add: first_file_def)
  then have "FindActiveMountStaging t ws i = None" for ws i by (simp add: FindActiveMountStaging_def)
  with write_then_read[OF fresh_execution run] one_chunk[of "[1, 2, 3]"]
  have "ReadFunction (SqlText ''w'') (SqlText ''/a'') t = (Inr [1, 2, 3], t)" by (auto simp: kContentChunkBytes_def)
  with run show ?thesis by blast
qed

text \<open>
  C19: A write that passes its checks succeeds: when the path leads to a regular file, the content is no
  larger than 128 MiB and the quota of the workspace has room for it, \<open>vex_fs_write\<close> returns the next
  version number, and every version of every file that could be read before reads the same afterwards.
\<close>

theorem overwrite_succeeds:
  assumes "execution empty_db s" "FindWorkspace s name = Inr w" "PathParts path = Inr parts" "parts \<noteq> []"
    and "Resolve s w parts = Inr node" "i_kind node = KFile" "length content \<le> kMaxStagedBytes"
    and "CheckQuotaForContentSize s (ws_id w) (i_id node) (int (length content)) = Inr ()"
  shows "\<exists>t. WriteFunction (SqlText name) (SqlText path) (SqlBlob content) s = (Inr (i_version node + 1), t) \<and>
    (\<forall>i n c. ReadVersionContent s i n = Inr c \<longrightarrow> ReadVersionContent t i n = Inr c)"
proof -
  have inv: "versions_inv s" using versions_always.execution_kept[OF assms(1)] by simp
  from WritePath_existing_runs[OF inv assms(4-8), of "''write file''"]
  obtain t content' where "WritePath w parts content ''write file'' s = (Inr (i_version node + 1), t)"
      and step: "version_step node content' s t" by blast
  moreover have "content_extends s t" using step by (simp add: version_step_def)
  ultimately show ?thesis
    using assms(2,3,7) ReadVersionContent_extends by (auto simp: WriteFunction_path)
qed

theorem overwrite_succeeds_witness:
  "\<exists>t u. WriteFunction (SqlText ''w'') (SqlText ''/a'') (SqlBlob [1, 2, 3]) fresh_ws = (Inr 1, t) \<and>
     WriteFunction (SqlText ''w'') (SqlText ''/a'') (SqlBlob [4]) t = (Inr 2, u)"
proof -
  obtain t node where t: "first_file [1, 2, 3] t node" using three_bytes by blast
  then obtain c where "FindWorkspace t ''w'' = Inr \<lparr>ws_id = 1, ws_root = 1, ws_head = c\<rparr>"
      "Resolve t \<lparr>ws_id = 1, ws_root = 1, ws_head = c\<rparr> [''a''] = Inr node"
    by (auto simp: first_file_def)
  from overwrite_succeeds[OF _ this(1) first_path _ this(2), of "[4]"] t show ?thesis
    by (auto simp: first_file_def kMaxStagedBytes_def)
qed

text \<open>
  C20: Restoring an old version makes it current again: when the caller names the current version and
  the quota has room, \<open>vex_fs_restore_version\<close> adds one version whose content is exactly that of the
  restored one, the path leads to it, and the version that was current stays in the history.
\<close>

theorem restore_reproduces:
  assumes "execution empty_db s" "FindWorkspace s name = Inr w" "PathParts path = Inr parts" "parts \<noteq> []"
    and "Resolve s w parts = Inr node" "i_kind node = KFile" "0 < i_version node"
    and "0 < old" "old \<noteq> i_version node" "ReadVersionContent s (i_id node) old = Inr content"
    and "CheckQuotaForContentSize s (ws_id w) (i_id node) (int (length content)) = Inr ()"
  shows "\<exists>t node' current. RestoreVersionFunction (SqlText name) (SqlText path) (SqlInt (int old)) (SqlInt (int (i_version node))) s =
      (Inr (i_version node + 1), t) \<and>
    Resolve t w parts = Inr node' \<and> i_id node' = i_id node \<and> i_version node' = i_version node + 1 \<and>
    i_size node' = int (length content) \<and>
    ReadVersionContent t (i_id node) (i_version node + 1) = Inr content \<and>
    ReadVersionContent s (i_id node) (i_version node) = Inr current \<and>
    ReadVersionContent t (i_id node) (i_version node) = Inr current"
proof -
  have inv: "versions_inv s" using versions_always.execution_kept[OF assms(1)] by simp
  note target = write_target_existing[OF inv assms(4-6)]
  have cur: "current_node s node" using target by (auto simp: write_target_def current_node_def)
  obtain st where st: "ResolveVersionStorage s (i_id node) old = Inr st" "vs_size st = length content"
    using assms(10) by (auto simp: ReadVersionContent_ok)
  from StoreVersionFromVersion_runs[OF inv cur st(1)] st(2) assms(11)
  obtain t where t: "StoreVersionFromVersion w node old (''restore version '' @ to_string old) s = (Inr (i_version node + 1), t)"
    by auto
  from StoreVersionFromVersion_step[OF versions_content_wf[OF inv] assms(10) t]
  have step: "version_step node content s t" by simp
  have "RestoreVersionFunction (SqlText name) (SqlText path) (SqlInt (int old)) (SqlInt (int (i_version node))) s =
      (Inr (i_version node + 1), t)"
    using assms(2,3,5,7,8,9) t
    by (simp add: RestoreVersionFunction_def workspace_arg_def parts_arg_def text_arg_def inode_arg_def RequiredText_def
        RequiredPositiveInteger_def op_simps)
  moreover have "ReadVersionContent t (i_id node) (i_version node + 1) = Inr content" "content_extends s t"
    using step by (simp_all add: version_step_def)
  moreover obtain current where "ReadVersionContent s (i_id node) (i_version node) = Inr current"
    using current_read[OF inv cur assms(7)] by blast
  moreover have "Resolve t w parts = Inr (bump node (length content) (now_ms s) node)"
    by (rule Resolve_extends[OF version_step_extends[OF step] assms(5) refl refl])
  ultimately show ?thesis
    by (intro exI[of _ t] exI[of _ "bump node (length content) (now_ms s) node"] exI[of _ current])
      (simp add: bump_def ReadVersionContent_extends)
qed

theorem restore_reproduces_witness:
  "\<exists>t u (node :: inode_row) v. WriteFunction (SqlText ''w'') (SqlText ''/a'') (SqlBlob [1, 2, 3]) fresh_ws = (Inr 1, t) \<and>
     WriteFunction (SqlText ''w'') (SqlText ''/a'') (SqlBlob [4]) t = (Inr 2, u) \<and>
     RestoreVersionFunction (SqlText ''w'') (SqlText ''/a'') (SqlInt 1) (SqlInt 2) u = (Inr 3, v) \<and>
     ReadVersionContent v (i_id node) 3 = Inr [1, 2, 3]"
proof -
  obtain t u node w where t: "WriteFunction (SqlText ''w'') (SqlText ''/a'') (SqlBlob [1, 2, 3]) fresh_ws = (Inr 1, t)"
      "WriteFunction (SqlText ''w'') (SqlText ''/a'') (SqlBlob [4]) t = (Inr 2, u)"
    and u: "execution empty_db u" "FindWorkspace u ''w'' = Inr w" "ws_id w = 1" "Resolve u w [''a''] = Inr node"
      "i_kind node = KFile" "i_version node = 2" "ReadVersionContent u (i_id node) 1 = Inr [1, 2, 3]"
      "\<And>inode n. 0 \<le> n \<Longrightarrow> CheckQuotaForContentSize u 1 inode n = Inr ()"
    using second_version by blast
  from restore_reproduces[OF u(1,2) first_path _ u(4), of 1 "[1, 2, 3]"] u(3,5-8)
  obtain v where "RestoreVersionFunction (SqlText ''w'') (SqlText ''/a'') (SqlInt 1) (SqlInt 2) u = (Inr 3, v)"
      "ReadVersionContent v (i_id node) 3 = Inr [1, 2, 3]" by auto
  with t show ?thesis by blast
qed

text \<open>
  C21: Appending adds to what is there: when \<open>vex_fs_append\<close> returns version \<open>v\<close>, the file had the
  content of version \<open>v - 1\<close> (nothing for a file without versions), and version \<open>v\<close> is that content
  followed by the appended bytes, up to chunks with equal SHA-256.
\<close>

theorem append_extends:
  assumes "execution empty_db s"
    and "AppendFunction (SqlText name) (SqlInt (int inode)) (SqlBlob tail) s = (Inr v, t)"
  shows "\<exists>content content'. (if v = 1 then content = [] else ReadVersionContent s inode (v - 1) = Inr content) \<and>
    ReadVersionContent t inode v = Inr content' \<and> length content' = length content + length tail \<and>
    (no_collision (chunks_of kContentChunkBytes (content @ tail)) \<longrightarrow> content' = content @ tail)"
proof -
  have inv: "versions_inv s" using versions_always.execution_kept[OF assms(1)] by simp
  from assms(2) obtain w node content where node: "NodeById s inode True = Inr node" and read: "ReadNode s node = Inr content"
    and size: "\<not> (i_size node < 0 \<or> int kMaxStagedBytes < i_size node \<or> int kMaxStagedBytes - i_size node < int (length tail))"
    and store: "StoreVersion w node (content @ tail) ''append file'' s = (Inr v, t)"
    by (auto simp: AppendFunction_def workspace_arg_def text_arg_def inode_arg_def blob_arg_def op_ok RequiredBlob_def
        RequiredPositiveInteger_def split: if_splits)
  have mem: "node \<in> set (inodes s)" "i_id node = inode"
    using node by (auto simp: NodeById_def split: option.splits dest: find_SomeD)
  have "length (content @ tail) \<le> kMaxStagedBytes" using ReadNode_length[OF inv mem(1) read] size by simp
  from StoreVersion_step[OF versions_content_wf[OF inv] this store]
  obtain content' where v: "v = i_version node + 1" "stored_as (content @ tail) content'" "version_step node content' s t" by blast
  have "if v = 1 then content = [] else ReadVersionContent s inode (v - 1) = Inr content"
    using read v(1) mem(2) by (auto simp: ReadNode_def split: if_splits)
  with v mem(2) show ?thesis by (intro exI[of _ content] exI[of _ content']) (simp add: version_step_def stored_as_def)
qed

theorem append_extends_witness:
  "\<exists>t u node. first_file [1, 2, 3] t node \<and>
     AppendFunction (SqlText ''w'') (SqlInt (int (i_id node))) (SqlBlob [4]) t = (Inr 2, u) \<and>
     ReadVersionContent u (i_id node) 2 = Inr [1, 2, 3, 4]"
proof -
  obtain t node where t: "first_file [1, 2, 3] t node" using three_bytes by blast
  then obtain u where u: "AppendFunction (SqlText ''w'') (SqlInt (int (i_id node))) (SqlBlob [4]) t = (Inr 2, u)"
    using append_runs by blast
  have f: "execution empty_db t" "ReadVersionContent t (i_id node) 1 = Inr [1, 2, 3]"
    using t by (simp_all add: first_file_def kContentChunkBytes_def)
  from append_extends[OF f(1) u] f(2) one_chunk[of "[1, 2, 3, 4]"]
  have "ReadVersionContent u (i_id node) 2 = Inr [1, 2, 3, 4]" by (auto simp: kContentChunkBytes_def)
  with t u show ?thesis by blast
qed

end
