(* ===== verification/Vex_Publish.thy ===== *)
theory Vex_Publish
  imports Vex_Writing
begin

text \<open>
  Publishing through a handle: when \<open>PublishHandle\<close> succeeds and what it stores, that a handle which has
  missed a version cannot overwrite it, and that a failed call leaves no trace.
\<close>

section \<open>Publishing succeeds\<close>

lemma staged_same:
  assumes "content_tables t = content_tables s" "staging t = staging s" "staging_chunks t = staging_chunks s"
  shows "staged t = staged s" "base_owned t = base_owned s"
proof -
  have tables: "chunks t = chunks s" "manifest_chunks t = manifest_chunks s" "manifests t = manifests s"
    using assms(1) by (simp_all add: content_tables_def)
  have dirty: "dirty_chunk t h = dirty_chunk s h" "dirty_bytes t h = dirty_bytes s h" "dirty_ok t h = dirty_ok s h"
      "find_staging t h = find_staging s h" for h
    using assms(2,3) by (simp_all add: dirty_chunk_def dirty_bytes_def dirty_ok_def find_staging_def fun_eq_iff)
  have "ReadEffectiveChunk t h st no = ReadEffectiveChunk s h st no" for h st no
    by (rule ReadEffectiveChunk_cong) (simp_all add: dirty base_chunk_same[OF tables(1,2)])
  with dirty show "staged t = staged s" by (simp add: fun_eq_iff staged_def effective_def)
  show "base_owned t = base_owned s"
    using tables by (simp add: fun_eq_iff base_owned_def manifest_of_def find_manifest_def manifest_rows_def)
qed

lemma commit_in_transaction_runs:
  "ws_id w \<in> workspace_ids s \<Longrightarrow> \<exists>c t. CreateCommitInTransaction w message s = (Inr c, t)"
  unfolding find_workspace_row_iff[symmetric] by (auto simp: CreateCommitInTransaction_run Let_def)

text \<open>What the metadata steps leave alone.\<close>

definition overlays :: "db \<Rightarrow> staging_row list \<times> staging_chunk_row list" where
  "overlays s = (staging s, staging_chunks s)"

lemma advance_overlays: "advance_version inode v n v' e s = (Inr u, t) \<Longrightarrow> overlays t = overlays s"
  by (auto simp: advance_version_def op_simps update_inodes_def overlays_def split: if_splits)

lemma commit_overlays:
  "(if owned then CreateCommitInTransaction w message else CreateCommit w message) s = (Inr c, t) \<Longrightarrow> overlays t = overlays s"
  by (auto simp: CreateCommit_def CreateCommitInTransaction_run op_ok set_head_def FlushHistoryChanges_def overlays_def
      Let_def split: if_splits option.splits)

lemma index_overlays: "UpdateGrepIndexFromVersion ws inode version s = (Inr u, t) \<Longrightarrow> overlays t = overlays s"
proof -
  have "preserves (\<lambda>t. overlays t = overlays s) (UpdateGrepIndexFromVersion ws inode version)"
    unfolding UpdateGrepIndexFromVersion_def index_file_def
    by (auto intro!: preserve_intros simp: MarkGrepIndexDirty_def overlays_def split: GrepIndexState.split)
  then show "UpdateGrepIndexFromVersion ws inode version s = (Inr u, t) \<Longrightarrow> overlays t = overlays s"
    using preservesD[of "\<lambda>t. overlays t = overlays s"] by blast
qed

lemma advance_current_owned:
  assumes "versions_inv s" "current_node s node" "ws_id w \<in> workspace_ids s"
  obtains s1 c s2 where "advance_version (i_id node) (i_version node) n (i_version node + 1) e s = (Inr (), s1)"
    "(if owned then CreateCommitInTransaction w message else CreateCommit w message) s1 = (Inr c, s2)"
    "content_tables s2 = content_tables s" "overlays s2 = overlays s"
proof -
  obtain s1 c s2 where s1: "advance_version (i_id node) (i_version node) n (i_version node + 1) e s = (Inr (), s1)"
      and com: "CreateCommit w message s1 = (Inr c, s2)" and same: "content_tables s2 = content_tables s"
    by (rule advance_current[OF assms])
  have "(if owned then CreateCommitInTransaction w message else CreateCommit w message) s1 = (Inr c, s2)"
    using com by (simp add: CreateCommit_def savepoint_ok)
  moreover from this have "overlays s2 = overlays s" using commit_overlays advance_overlays[OF s1] by metis
  ultimately show thesis using that s1 same by blast
qed

lemma rebased_staged:
  assumes stored: "manifest_stored s mid content" "0 < mid" "length content \<le> kMaxStagedBytes"
    and st: "find_staging s h = Some st" "s_logical st = length content" and keys: "distinct (map chunk_key (staging_chunks s))"
  shows "\<exists>st'. staged (rebase_staging h mid s) h st' content \<and> s_base_manifest st' = Some mid \<and> s_generation st' = s_generation st"
proof -
  let ?f = "\<lambda>r. r\<lparr>s_base_manifest := Some mid, s_base_size := s_logical r, s_base_visible := s_logical r, s_capacity := 0\<rparr>"
  let ?t = "rebase_staging h mid s"
  have find: "find_staging ?t h = Some (?f st)"
    using find_staging_update[OF st(1), of ?f] by (simp add: rebase_staging_def remove_dirty_chunks_def find_staging_def)
  have "staged ?t h (?f st) content"
  proof (rule manifest_staged[where mid = mid])
    show "manifest_stored ?t mid content"
      using stored(1) by (simp add: manifest_stored_def manifest_rows_def rebase_staging_def remove_dirty_chunks_def update_staging_def)
    show "distinct (map chunk_key (staging_chunks ?t))"
      using keys by (simp add: rebase_staging_def remove_dirty_chunks_def update_staging_def distinct_map_filter)
    show "h \<notin> sc_handle ` set (staging_chunks ?t)"
      by (auto simp: rebase_staging_def remove_dirty_chunks_def update_staging_def)
  qed (use stored st find in simp_all)
  then show ?thesis by (intro exI[of _ "?f st"]) simp
qed

lemma StoreVersionFromStaging_runs:
  assumes inv: "versions_inv s" and node: "current_node s node" and st: "staged s (h_id handle) st content"
    and owned: "base_owned s (i_id node) st" and gen: "s_generation st = generation"
    and quota: "CheckQuotaForContentSize s (ws_id w) (i_id node) (int (length content)) = Inr ()"
  shows "\<exists>t content' st'. StoreVersionFromStaging w node handle generation message own s = (Inr (i_version node + 1), t) \<and>
    stored_as content content' \<and> version_step node content' s t \<and> staged t (h_id handle) st' content'"
proof -
  let ?no = "i_version node + 1"
  have row: "find_staging s (h_id handle) = Some st" "s_logical st = length content" "length content \<le> kMaxStagedBytes"
    using st by (simp_all add: staged_def)
  obtain prev where prev: "previous_manifest_of s node = Inr prev" using previous_ok[OF inv node] by blast
  obtain s1 c s2 where adv: "advance_version (i_id node) (i_version node) (length content) ?no
        ''version conflict: file changed before publish'' s = (Inr (), s1)"
      and com: "(if own then CreateCommitInTransaction w message else CreateCommit w message) s1 = (Inr c, s2)"
      and same: "content_tables s2 = content_tables s" "overlays s2 = overlays s"
    by (rule advance_current_owned[OF inv node quota_workspace[OF quota]])
  have wf: "content_wf s2" using versions_content_wf[OF inv] content_tables_cong(1)[OF same(1)] by simp
  have st2: "staged s2 (h_id handle) st content" "base_owned s2 (i_id node) st"
    using staged_same[OF same(1)] same(2) st owned by (simp_all add: overlays_def)
  from StoreManifestFromStaging_stored[OF st2 wf, of "ws_id w" prev]
  obtain content' r s3 where man: "StoreManifestFromStaging (ws_id w) (i_id node) prev handle st s2 = (Inr r, s3)"
      and added: "stored_as content content'" "manifest_added (ws_id w) (i_id node) content' r s2 s3" by blast
  have len: "length content' = length content" using added(1) by (simp add: stored_as_def)
  have "find_version s3 (i_id node) ?no = find_version s (i_id node) ?no"
    using added(2) same by (auto simp: manifest_added_def find_version_def content_tables_def)
  then have "find_version s3 (i_id node) ?no = None" using next_version_free[OF inv node, of ?no] by simp
  from insert_version_runs[OF this] obtain s4 where
    ins: "insert_version (i_id node) ?no c (Some (fst r)) (length content) (snd r) None s3 = (Inr (), s4)" by metis
  have read: "ReadVersionContent s4 (i_id node) ?no = Inr content'"
    using new_version_reads(1)[OF added(2) wf _ _ refl, of ?no c "()" s4] ins len row(3) by simp
  from index_runs[OF read] obtain s5 where idx: "UpdateGrepIndexFromVersion (ws_id w) (i_id node) ?no s4 = (Inr (), s5)"
    by blast
  let ?t = "rebase_staging (h_id handle) (fst r) s5"
  have run: "StoreVersionFromStaging w node handle generation message own s = (Inr ?no, ?t)"
    using row gen prev quota adv com man ins idx
    by (cases r) (simp add: StoreVersionFromStaging_def op_simps FindStaging_def)
  have tables: "content_tables s5 = content_tables s4" "overlays s5 = overlays s4"
    using same_file_tables[OF index_file_tables idx] index_overlays[OF idx] by (simp_all add: file_tables_cong)
  have "\<exists>c. stored_as content c \<and> version_step node c s ?t"
  proof -
    have "?no = i_version node + 1 \<and> (\<exists>c. stored_as content c \<and> version_step node c s ?t)"
    proof (rule StoreVersionFromStaging_step[OF versions_content_wf[OF inv] run])
      fix st' prev' u q u'
      assume st': "find_staging s (h_id handle) = Some st'" and u: "content_wf u" "content_tables u = content_tables s"
          "staging u = staging s" "staging_chunks u = staging_chunks s"
          "StoreManifestFromStaging (ws_id w) (i_id node) prev' handle st' u = (Inr q, u')"
      have "st' = st" using st' row(1) by simp
      moreover have "staged u (h_id handle) st content" "base_owned u (i_id node) st"
        using staged_same[OF u(2-4)] st owned by simp_all
      from StoreManifestFromStaging_stored[OF this u(1), of "ws_id w" prev'] u(5) calculation
      obtain c where "stored_as content c" "manifest_added (ws_id w) (i_id node) c q u u'" by auto
      ultimately show "\<exists>c. length c = s_logical st' \<and> length c \<le> kMaxStagedBytes \<and> stored_as content c \<and>
          manifest_added (ws_id w) (i_id node) c q u u'"
        using row(2,3) by (auto simp: stored_as_def)
    qed
    then show ?thesis by simp
  qed
  then obtain c where c: "stored_as content c" "version_step node c s ?t" by blast
  have "ReadVersionContent ?t (i_id node) ?no = Inr content'"
    using read content_tables_reads(2)[of ?t s4] tables(1) rebase_file_tables[of "h_id handle" "fst r" s5]
    by (simp add: file_tables_cong)
  with c(2) have "c = content'" by (simp add: version_step_def)
  moreover have "\<exists>st'. staged ?t (h_id handle) st' content'"
  proof -
    have s3: "staging s3 = staging s2" "staging_chunks s3 = staging_chunks s2" "manifest_stored s3 (fst r) content'" "0 < fst r"
      using added(2) by (auto simp: manifest_added_def)
    have s4: "manifests s4 = manifests s3" "chunks s4 = chunks s3" "manifest_chunks s4 = manifest_chunks s3"
        "staging s4 = staging s3" "staging_chunks s4 = staging_chunks s3"
      using insert_version_ok[OF ins] by simp_all
    have "manifest_stored s5 (fst r) content'"
      using s3(3) s4 tables(1) by (simp add: manifest_stored_def manifest_rows_def content_tables_def)
    moreover have "find_staging s5 (h_id handle) = Some st" "staging_chunks s5 = staging_chunks s"
      using row(1) tables(2) s3 s4 same(2) by (simp_all add: overlays_def find_staging_def)
    ultimately show ?thesis
      using rebased_staged[of s5 "fst r" content' "h_id handle" st] s3(4) row len staged_keys[OF st] by auto
  qed
  ultimately show ?thesis using run c by blast
qed

lemma WorkspaceById_runs: "ws \<in> workspace_ids s \<Longrightarrow> \<exists>w. WorkspaceById s ws = Inr w \<and> ws_id w = ws"
  unfolding find_workspace_row_iff[symmetric]
  by (auto simp: WorkspaceById_def find_workspace_row_def dest: find_SomeD)

lemma NodeById_member: "NodeById s inode b = Inr node \<Longrightarrow> node \<in> set (inodes s) \<and> i_id node = inode"
  by (auto simp: NodeById_def split: option.splits dest: find_SomeD)

text \<open>A handle with unpublished bytes over the current version of its file.\<close>

definition ready_handle :: "db \<Rightarrow> handle_row \<Rightarrow> inode_row \<Rightarrow> byte list \<Rightarrow> bool" where
  "ready_handle s handle node content \<longleftrightarrow> FindHandle s (h_id handle) = Inr handle \<and> h_state handle \<noteq> HClosed \<and>
     h_published handle < h_dirty handle \<and> NodeById s (h_inode handle) True = Inr node \<and> i_kind node = KFile \<and>
     i_version node = h_expected handle \<and>
     (\<exists>st. staged s (h_id handle) st content \<and> s_generation st = h_dirty handle \<and> base_owned s (h_inode handle) st)"

lemma PublishHandleInTransaction_runs:
  assumes inv: "versions_inv s" and ready: "ready_handle s handle node content"
    and quota: "CheckQuotaForContentSize s (h_workspace handle) (h_inode handle) (int (length content)) = Inr ()"
  shows "\<exists>t content'. PublishHandleInTransaction handle (int (h_dirty handle)) own s = (Inr (h_expected handle + 1), t) \<and>
    stored_as content content' \<and> versions_inv t \<and> content_extends s t \<and>
    ReadVersionContent t (h_inode handle) (h_expected handle + 1) = Inr content' \<and>
    NodeById t (h_inode handle) True = Inr (bump node (length content') (now_ms s) node) \<and>
    overlay t (h_id handle) content' \<and>
    FindHandle t (h_id handle) = Inr (handle\<lparr>h_expected := h_expected handle + 1, h_published := h_dirty handle,
      h_updated := now_s_ms s\<rparr>) \<and>
    (\<forall>h. h \<noteq> h_id handle \<longrightarrow> FindHandle t h = FindHandle s h)"
proof -
  from ready obtain st where h: "FindHandle s (h_id handle) = Inr handle" "h_state handle \<noteq> HClosed"
      "h_published handle < h_dirty handle" "NodeById s (h_inode handle) True = Inr node" "i_kind node = KFile"
      "i_version node = h_expected handle" and st: "staged s (h_id handle) st content" "s_generation st = h_dirty handle"
      "base_owned s (h_inode handle) st"
    by (auto simp: ready_handle_def)
  have node: "node \<in> set (inodes s)" "i_id node = h_inode handle" using NodeById_member[OF h(4)] by simp_all
  then have cur: "current_node s node" using h(5) by (auto simp: current_node_def)
  obtain w where w: "WorkspaceById s (h_workspace handle) = Inr w" "ws_id w = h_workspace handle"
    using WorkspaceById_runs[OF quota_workspace[OF quota]] by blast
  from StoreVersionFromStaging_runs[OF inv cur st(1) _ st(2), of w "''handle publish''" own] st(3) node(2) quota w(2)
  obtain t content' st' where t: "StoreVersionFromStaging w node handle (h_dirty handle) ''handle publish'' own s =
        (Inr (i_version node + 1), t)"
      "stored_as content content'" "version_step node content' s t" "staged t (h_id handle) st' content'" by auto
  let ?f = "\<lambda>r. r\<lparr>h_expected := h_expected handle + 1, h_published := h_dirty handle, h_updated := now_s_ms t\<rparr>"
  define u where "u = update_handles (\<lambda>r. h_id r = h_id handle) ?f t"
  have run: "PublishHandleInTransaction handle (int (h_dirty handle)) own s = (Inr (h_expected handle + 1), u)"
    using h w t(1) by (simp add: PublishHandleInTransaction_def op_simps u_def)
  have same: "handles t = handles s" "clock t = clock s"
    using t(3) by (auto simp: version_step_def surroundings_def)
  have u: "content_tables u = content_tables t" "inodes u = inodes t" "overlays u = overlays t"
      "handles u = map (\<lambda>r. if h_id r = h_id handle then ?f r else r) (handles s)"
    using same by (simp_all add: u_def update_handles_def content_tables_def overlays_def)
  have "find (\<lambda>r. h_id r = h) (handles u) = map_option (\<lambda>r. if h_id r = h_id handle then ?f r else r)
      (find (\<lambda>r. h_id r = h) (handles s))" for h
    unfolding u(4) by (rule find_map_same) simp
  then have handles: "FindHandle u (h_id handle) = Inr (?f handle)" "h \<noteq> h_id handle \<Longrightarrow> FindHandle u h = FindHandle s h" for h
    using h(1) by (auto simp: FindHandle_def split: option.splits dest: find_SomeD)
  have "file_tables u = file_tables t" using u by (simp add: file_tables_cong)
  then have "versions_inv u" using versions_inv_tables version_step_inv[OF inv t(3)] by blast
  moreover have "ReadVersionContent u (h_inode handle) (h_expected handle + 1) = Inr content'" "content_extends s u"
    using t(3) node(2) h(6) content_tables_reads(2)[OF u(1)] u(1)
    by (auto simp: version_step_def content_extends_def find_version_def find_manifest_def manifest_rows_def content_tables_def)
  moreover have "NodeById u (h_inode handle) True = Inr (bump node (length content') (now_ms s) node)"
  proof -
    have "find (\<lambda>i. i_id i = h_inode handle \<and> (True \<or> i_deleted i = None)) (inodes u) =
        map_option (bump node (length content') (now_ms s)) (find (\<lambda>i. i_id i = h_inode handle \<and> (True \<or> i_deleted i = None)) (inodes s))"
      using t(3) unfolding u(2) version_step_def by (subst find_map_same[symmetric]) (auto simp: bump_def)
    with h(4) show ?thesis by (simp add: NodeById_def split: option.splits)
  qed
  moreover have "staged u (h_id handle) st' content'"
    using staged_same(1)[OF u(1)] u(3) t(4) by (simp add: overlays_def)
  ultimately show ?thesis
    using run t(2) handles same(2) by (intro exI[of _ u] exI[of _ content']) (auto simp: overlay_def now_s_ms_def)
qed

section \<open>Opening and staging\<close>

lemma stage_loop_preserves:
  assumes step: "\<And>h no d. preserves I (StoreDirtyChunk h no d)"
  shows "preserves I (stage_loop h st n absolute patch delta)"
proof (induction h st n absolute patch delta rule: stage_loop.induct)
  case (1 h st n absolute patch delta)
  show ?case
  proof (cases "patch = []")
    case True
    then show ?thesis by (simp add: stage_loop.simps preserves_basic)
  next
    case False
    show ?thesis
      by (subst stage_loop.simps, unfold if_not_P[OF False] Let_def stage_chunk_def)
        (intro preserve_intros step 1[OF False refl])
  qed
qed

lemma StageWrite_frame:
  assumes run: "StageWrite handle off patch s = (Inr g, t)" and patch: "patch \<noteq> []"
  shows "core t = core s \<and> handles t = handles (set_generation (h_id handle) g s) \<and> clock t = clock s \<and>
    mount_sessions t = mount_sessions s \<and> requests t = requests s"
proof -
  let ?v = "\<lambda>t. (core t, handles t, clock t, mount_sessions t, requests t)"
  from run patch obtain st n d s1 f where s1: "stage_loop (h_id handle) st n (nat off) patch 0 s = (Inr d, s1)"
    and t: "t = set_generation (h_id handle) g (update_staging (h_id handle) f s1)"
    by (auto simp: StageWrite_def op_ok Let_def)
  have "preserves (\<lambda>t. ?v t = ?v s) (StoreDirtyChunk h no c)" for h no c
    unfolding StoreDirtyChunk_def by (intro preserve_intros) (auto simp: set_dirty_chunk_def)
  from preservesD[OF stage_loop_preserves[OF this] _ s1] have "?v s1 = ?v s" by blast
  then show ?thesis by (simp add: t set_generation_def update_handles_def update_staging_def now_s_ms_def)
qed

lemma CreateStagingFromVersion_frame:
  assumes "CreateStagingFromVersion handle node s = (Inr u, t)"
  shows "core t = core s \<and> handles t = handles s \<and> clock t = clock s \<and> mount_sessions t = mount_sessions s \<and> requests t = requests s"
proof -
  let ?v = "\<lambda>t. (core t, handles t, clock t, mount_sessions t, requests t)"
  have chunk: "preserves (\<lambda>t. ?v t = ?v s) (StoreDirtyChunk h no c)" for h no c
    unfolding StoreDirtyChunk_def by (intro preserve_intros) (auto simp: set_dirty_chunk_def)
  have "preserves (\<lambda>t. ?v t = ?v s) (insert_staging st)" for st
    unfolding insert_staging_def by (intro preserve_intros) auto
  then have "preserves (\<lambda>t. ?v t = ?v s) (CreateStagingFromVersion handle node)"
    unfolding CreateStagingFromVersion_def CreateStaging_def by (intro preserve_intros chunk)
  from preservesD[OF this _ assms] show ?thesis by blast
qed

lemma core_file_tables: "core t = core s \<Longrightarrow> file_tables t = file_tables s"
  by (simp add: core_def file_tables_def content_tables_def)

text \<open>The manifest of a version belongs to its inode.\<close>

lemma storage_owned:
  assumes inv: "versions_inv s" and st: "ResolveVersionStorage s inode version = Inr st"
  shows "manifest_of s inode (vs_manifest st)"
proof -
  obtain v r m where v: "find_version s inode version = Some v" "canonical_manifest s v = Some (r, m)" "vs_manifest st = m_id m"
    using st by (auto simp: ResolveVersionStorage_Inr)
  have key: "v_inode v = inode" using v(1) by (auto simp: find_version_def dest: find_SomeD)
  have r: "canonical_row s v = Some r" "v_manifest r = Some (m_id m)" using v(2) by (simp_all add: canonical_manifest_Some)
  have "r \<in> set (file_versions s)" "v_inode r = inode"
    using r(1) v(1) key by (auto simp: canonical_row_def find_version_def split: option.splits dest: find_SomeD)
  moreover have "version_owned s r" using inv calculation(1) by (simp add: versions_inv_def)
  ultimately show ?thesis using r(2) v(3) by (simp add: version_owned_def)
qed

text \<open>The content of a regular file at its current version.\<close>

lemma ReadNode_runs:
  assumes "versions_inv s" "node \<in> set (inodes s)" "i_kind node = KFile"
  shows "\<exists>content. ReadNode s node = Inr content \<and> int (length content) = i_size node"
proof (cases "i_version node = 0")
  case True
  with assms show ?thesis by (auto simp: ReadNode_def versions_inv_def)
next
  case False
  have "current_node s node" using assms by (auto simp: current_node_def)
  with current_read[OF assms(1)] False obtain c where "ReadNode s node = Inr c" using assms(3) by (auto simp: ReadNode_def)
  with ReadNode_length[OF assms(1,2)] show ?thesis by blast
qed

lemma open_staging_runs:
  assumes inv: "versions_inv s" and node: "node \<in> set (inodes s)" "i_kind node = KFile" and fresh: "unstaged s (h_id handle)"
  shows "\<exists>t st content. CreateStagingFromVersion handle node s = (Inr (), t) \<and> ReadNode s node = Inr content \<and>
    staged t (h_id handle) st content \<and> s_generation st = h_dirty handle \<and> base_owned t (i_id node) st \<and> apart (h_id handle) s t"
proof -
  obtain content where content: "ReadNode s node = Inr content" "int (length content) = i_size node"
    using ReadNode_runs[OF inv node] by blast
  then have read: "i_version node = 0 \<and> content = [] \<or> 0 < i_version node \<and>
      ReadVersionContent s (i_id node) (i_version node) = Inr content \<and> i_size node = int (length content)"
    using node(2) by (auto simp: ReadNode_def split: if_splits)
  from CreateStagingFromVersion_staged[OF fresh read] obtain t st where
    t: "CreateStagingFromVersion handle node s = (Inr (), t)" "staged t (h_id handle) st content" "s_generation st = h_dirty handle"
      "apart (h_id handle) s t" "0 < s_base_visible st \<longrightarrow> (\<exists>storage. ResolveVersionStorage s (i_id node) (i_version node) = Inr storage \<and>
       base_manifest_id st = vs_manifest storage)" by (elim exE conjE) (rule that)
  have "core t = core s" using CreateStagingFromVersion_frame[OF t(1)] by simp
  then have "versions_inv t" "content_tables t = content_tables s"
    using core_file_tables[of t s] versions_inv_tables[OF _ inv] by (simp_all add: file_tables_cong)
  then have "base_owned t (i_id node) st"
    using t(5) storage_owned[of t] content_tables_reads(1)[of t s] by (auto simp: base_owned_def)
  with t content show ?thesis by blast
qed

lemma Resolve_member: "Resolve s w parts = Inr node \<Longrightarrow> node \<in> set (inodes s)"
proof -
  assume "Resolve s w parts = Inr node"
  then obtain root where root: "RootNode s w = Inr root" "resolve_from s (ws_id w) root parts = Some node"
    by (auto simp: Resolve_Inr)
  have "root \<in> set (inodes s)" using root(1) by (auto simp: RootNode_def split: option.splits dest: find_SomeD)
  then show "node \<in> set (inodes s)"
    using root(2) FindChild_member
    by (induction s "ws_id w" root parts rule: resolve_from.induct) (auto split: if_splits option.splits)
qed

lemma no_request:
  "FindRequest s [] operation fp = Inr CMissing" "store_request [] operation fp n x = ret ()"
  by (simp_all add: FindRequest_def store_request_def)

lemma HandleOpen_runs:
  assumes inv: "versions_inv s" and w: "FindWorkspace s name = Inr w" "PathParts path = Inr parts"
    and node: "Resolve s w parts = Inr node" "i_kind node = KFile"
    and flags: "CHR ''r'' \<in> set flags \<or> CHR ''w'' \<in> set flags" "CHR ''c'' \<notin> set flags" "CHR ''t'' \<notin> set flags"
    and fresh: "h \<notin> h_id ` set (handles s)" "unstaged s h"
  shows "\<exists>t st content. HandleOpenFunction h (SqlText name) (SqlText path) (SqlText flags) (SqlText []) None s = (Inr h, t) \<and>
    ReadNode s node = Inr content \<and> staged t h st content \<and> s_generation st = 0 \<and> base_owned t (i_id node) st \<and>
    handles t = handles s @ [new_handle h (ws_id w) (i_id node) flags (CHR ''w'' \<in> set flags) (i_version node) 0 None (now_s_ms s)] \<and>
    core t = core s \<and> clock t = clock s \<and> apart h s t"
proof -
  define handle where "handle = new_handle h (ws_id w) (i_id node) flags (CHR ''w'' \<in> set flags) (i_version node) 0 None (now_s_ms s)"
  define s1 where "s1 = s\<lparr>handles := handles s @ [handle]\<rparr>"
  have id: "h_id handle = h" "h_dirty handle = 0" by (simp_all add: handle_def new_handle_def)
  have found: "TryResolve s w parts = Inr (Some node)" using node(1) by (auto simp: Resolve_Inr TryResolve_def)
  have ins: "insert_handle handle s = (Inr (), s1)" using fresh(1) id by (simp add: insert_handle_def op_simps s1_def)
  have "core s1 = core s" by (simp add: s1_def)
  then have inv1: "versions_inv s1" using versions_inv_tables[OF core_file_tables inv] by blast
  have "unstaged s1 (h_id handle)" "node \<in> set (inodes s1)"
    using fresh(2) id Resolve_member[OF node(1)] by (simp_all add: unstaged_def s1_def)
  from open_staging_runs[OF inv1 this(2) node(2) this(1)] obtain t st content where
    t: "CreateStagingFromVersion handle node s1 = (Inr (), t)" "ReadNode s1 node = Inr content" "staged t h st content"
      "s_generation st = 0" "base_owned t (i_id node) st" "apart h s1 t"
    unfolding id by blast
  have run: "HandleOpenFunction h (SqlText name) (SqlText path) (SqlText flags) (SqlText []) None s = (Inr h, t)"
    unfolding HandleOpenFunction_def replay_text_def text_arg_def optional_text_def RequiredText_def Let_def StoreRequestText_def
    using w found flags node(2) ins t(1)
    by (simp add: op_simps no_request handle_def[symmetric])
  note frame = CreateStagingFromVersion_frame[OF t(1)]
  have "ReadNode s node = Inr content"
    using t(2) content_tables_reads(2)[of s1 s] by (simp add: ReadNode_def s1_def content_tables_def split: if_splits)
  moreover have "handles t = handles s @ [handle]" "core t = core s" "clock t = clock s"
    using frame by (simp_all add: s1_def)
  moreover have "apart h s t" using t(6) by (simp add: apart_def s1_def)
  ultimately show ?thesis using run t(3-5) unfolding handle_def by blast
qed

text \<open>A write through an open handle makes it ready to be published.\<close>

lemma quota_core:
  assumes "core t = core s"
  shows "CheckQuotaForContentSize t = CheckQuotaForContentSize s"
proof -
  have same: "find_workspace_row t = find_workspace_row s" "quota_inode t = quota_inode s"
    using assms by (simp_all add: core_def find_workspace_row_def quota_inode_def fun_eq_iff)
  show ?thesis by (intro ext) (unfold CheckQuotaForContentSize_def ReadQuotaPolicy_def same, rule refl)
qed

lemma NodeById_core: "core t = core s \<Longrightarrow> NodeById t = NodeById s"
  by (simp add: core_def NodeById_def fun_eq_iff)

lemma FindHandle_generation:
  "FindHandle s h = Inr handle \<Longrightarrow> handles t = handles (set_generation h g s) \<Longrightarrow>
   FindHandle t h = Inr (handle\<lparr>h_dirty := g, h_updated := now_s_ms s\<rparr>)"
  "h' \<noteq> h \<Longrightarrow> handles t = handles (set_generation h g s) \<Longrightarrow> FindHandle t h' = FindHandle s h'"
proof -
  let ?f = "\<lambda>r. if h_id r = h then r\<lparr>h_dirty := g, h_updated := now_s_ms s\<rparr> else r"
  have "find (\<lambda>r. h_id r = k) (map ?f (handles s)) = map_option ?f (find (\<lambda>r. h_id r = k) (handles s))" for k
    by (rule find_map_same) simp
  moreover assume "handles t = handles (set_generation h g s)"
  ultimately have "find (\<lambda>r. h_id r = k) (handles t) = map_option ?f (find (\<lambda>r. h_id r = k) (handles s))" for k
    by (simp add: set_generation_def update_handles_def)
  then show "FindHandle s h = Inr handle \<Longrightarrow> FindHandle t h = Inr (handle\<lparr>h_dirty := g, h_updated := now_s_ms s\<rparr>)"
    "h' \<noteq> h \<Longrightarrow> FindHandle t h' = FindHandle s h'"
    by (auto simp: FindHandle_def split: option.splits dest: find_SomeD)
qed

lemma stage_ready:
  assumes h: "FindHandle s h = Inr handle" "h_id handle = h" "h_state handle = HOpen" "h_writable handle"
      "h_published handle \<le> h_dirty handle"
    and st: "staged s h st content" "base_owned s (h_inode handle) st"
    and node: "NodeById s (h_inode handle) True = Inr node" "i_kind node = KFile" "i_version node = h_expected handle"
    and patch: "patch \<noteq> []" "0 \<le> off" "off + int (length patch) \<le> int kMaxStagedBytes"
    and quota: "CheckQuotaForContentSize s (h_workspace handle) (h_inode handle) (max (int (length content)) (off + int (length patch))) = Inr ()"
  defines "g \<equiv> h_dirty handle + 1"
  shows "\<exists>t. HandleStageWriteFunction (SqlText h) off (SqlBlob patch) (SqlText []) s = (Inr (int g), t) \<and>
    ready_handle t (handle\<lparr>h_dirty := g, h_updated := now_s_ms s\<rparr>) node (overwrite content (nat off) patch) \<and>
    core t = core s \<and> clock t = clock s \<and> apart h s t \<and> (\<forall>h'. h' \<noteq> h \<longrightarrow> FindHandle t h' = FindHandle s h')"
proof -
  from StageWrite_staged[of s handle st content patch off] h(2) st(1) patch obtain t st' where
    t: "StageWrite handle off patch s = (Inr g, t)" "staged t h st' (overwrite content (nat off) patch)" "s_generation st' = g"
      "s_base_manifest st' = s_base_manifest st" "s_base_visible st' = s_base_visible st" "apart h s t"
    unfolding g_def by auto
  note frame = StageWrite_frame[OF t(1) patch(1)]
  have row: "find_staging s h = Some st" "s_logical st = length content" using st(1) by (simp_all add: staged_def)
  have run: "HandleStageWriteFunction (SqlText h) off (SqlBlob patch) (SqlText []) s = (Inr (int g), t)"
    unfolding HandleStageWriteFunction_def replay_integer_def text_arg_def blob_arg_def RequiredText_def RequiredBlob_def
      Let_def StoreRequestInteger_def writable_handle_def
    using h row t(1) patch quota by (simp add: op_simps no_request FindStaging_def)
  have "manifest_of t i m = manifest_of s i m" for i m
    using frame by (simp add: core_def manifest_of_def find_manifest_def manifest_rows_def)
  then have "base_owned t (h_inode handle) st'"
    using st(2) t(4,5) by (simp add: base_owned_def base_manifest_id_def)
  then have "ready_handle t (handle\<lparr>h_dirty := g, h_updated := now_s_ms s\<rparr>) node (overwrite content (nat off) patch)"
    using FindHandle_generation(1)[OF h(1), of t g] frame h node t(2,3) NodeById_core[of t s]
    by (auto simp: ready_handle_def g_def)
  with run frame t(6) FindHandle_generation(2)[of _ h t g s] h(2) show ?thesis by auto
qed

section \<open>Two handles on one file\<close>

text \<open>Writing by path leaves the staging areas alone.\<close>

lemma StoreVersion_overlays:
  assumes wf: "content_wf s" and len: "length content \<le> kMaxStagedBytes"
    and run: "StoreVersion w node content message s = (Inr v, t)"
  shows "overlays t = overlays s"
proof -
  from run obtain prev s1 c s2 r s3 s4 u e where adv: "advance_version (i_id node) (i_version node) (length content) (i_version node + 1) e s = (Inr u, s1)"
    and com: "CreateCommit w message s1 = (Inr c, s2)"
    and man: "StoreManifest (ws_id w) (i_id node) prev content s2 = (Inr r, s3)"
    and ins: "insert_version (i_id node) (i_version node + 1) c (Some (fst r)) (length content) (snd r) None s3 = (Inr u, s4)"
    and idx: "UpdateGrepIndexFromVersion (ws_id w) (i_id node) (i_version node + 1) s4 = (Inr u, t)"
    by (auto simp: StoreVersion_def op_ok split: prod.splits)
  have "content_wf s2"
    using wf advance_ok(2)[OF adv] same_file_tables[OF create_commit_file_tables com] content_tables_cong(1)[of s2 s]
    by (simp add: file_tables_cong)
  from StoreManifest_stored[OF this len, of "ws_id w" "i_id node" prev] man have "overlays s3 = overlays s2"
    by (auto simp: manifest_added_def overlays_def)
  with advance_overlays[OF adv] commit_overlays[of False w message s1 c s2] com insert_version_ok[OF ins] index_overlays[OF idx]
  show ?thesis by (simp add: overlays_def)
qed

lemma create_child_overlays: "create_child ws parent name k mode s = (Inr node, t) \<Longrightarrow> overlays t = overlays s"
proof -
  have acl: "overlays (fold (\<lambda>a. insert_acl_or_ignore (a\<lparr>a_inode := i\<rparr>)) as u) = overlays u" for i as u
    by (induction as arbitrary: u) (simp_all add: insert_acl_or_ignore_def overlays_def)
  have "preserves (\<lambda>t. overlays t = overlays s) (create_child ws parent name k mode)"
    unfolding create_child_def CreateInode_def AddDentry_def insert_dentry_def
    by (intro preserve_intros)
      (simp_all add: acl inherit_acl_def, simp_all add: overlays_def insert_inode_def TouchDirectory_def update_inodes_def)
  then show "create_child ws parent name k mode s = (Inr node, t) \<Longrightarrow> overlays t = overlays s"
    using preservesD[of "\<lambda>t. overlays t = overlays s"] by blast
qed

lemma WritePath_overlays:
  assumes inv: "versions_inv s" and len: "length content \<le> kMaxStagedBytes"
    and run: "WritePath w parts content message s = (Inr v, t)"
  shows "overlays t = overlays s"
proof -
  from run obtain parent :: inode_row and name node s1 where
    node: "(case FindChild s (ws_id w) (i_id parent) name of
              None \<Rightarrow> create_child (ws_id w) (i_id parent) name KFile 420 | Some node \<Rightarrow> ret node) s = (Inr node, s1)"
    and store: "StoreVersion w node content message s1 = (Inr v, t)"
    by (auto simp: WritePath_def op_ok split: prod.splits)
  have "versions_inv s1 \<and> overlays s1 = overlays s"
  proof (cases "FindChild s (ws_id w) (i_id parent) name")
    case None
    with node have child: "create_child (ws_id w) (i_id parent) name KFile 420 s = (Inr node, s1)" by simp
    with preservesD[OF versions_create_child inv child] create_child_overlays[OF child] show ?thesis by simp
  next
    case (Some i)
    with node inv show ?thesis by (auto simp: op_ok)
  qed
  with StoreVersion_overlays[OF versions_content_wf len store] show ?thesis by simp
qed

lemma fresh_overlays: "overlays fresh_ws = ([], [])"
  unfolding fresh_ws_def call_op.simps snd_discard by code_simp

lemma first_file_unstaged:
  assumes "first_file content t node"
  shows "unstaged t h"
proof -
  from assms have "WriteFunction (SqlText ''w'') (SqlText ''/a'') (SqlBlob content) fresh_ws = (Inr 1, t)"
    by (simp add: first_file_def)
  moreover have "versions_inv fresh_ws" using versions_always.execution_kept[OF fresh_execution] by simp
  ultimately have "overlays t = ([], [])"
    using WritePath_overlays fresh_overlays by (auto simp: WriteFunction_ok)
  then show ?thesis by (simp add: unstaged_def overlays_def)
qed

text \<open>What another handle does leaves a handle ready.\<close>

lemma ready_apart:
  assumes ready: "ready_handle s a node content" and apart: "apart h s t" "h \<noteq> h_id a"
    and keys: "distinct (map chunk_key (staging_chunks t))" and core: "core t = core s"
    and handle: "FindHandle t (h_id a) = FindHandle s (h_id a)"
  shows "ready_handle t a node content"
proof -
  have "manifest_of t i m = manifest_of s i m" for i m
    using core by (simp add: core_def manifest_of_def find_manifest_def manifest_rows_def)
  with ready NodeById_core[OF core] handle apart_staged[OF apart(1) _ keys, of "h_id a"] apart(2) show ?thesis
    unfolding ready_handle_def base_owned_def by metis
qed

lemma opened_ready:
  assumes exec: "execution empty_db s" and w: "FindWorkspace s name = Inr w" "PathParts path = Inr parts"
    and node: "Resolve s w parts = Inr node" "i_kind node = KFile" "ReadNode s node = Inr content"
    and fresh: "h \<notin> h_id ` set (handles s)" "unstaged s h"
    and patch: "patch \<noteq> []" "length patch \<le> kMaxStagedBytes" and room: "\<And>n. 0 \<le> n \<Longrightarrow> CheckQuotaForContentSize s (ws_id w) (i_id node) n = Inr ()"
  shows "\<exists>t a. ready_handle t a node (overwrite content 0 patch) \<and> h_id a = h \<and> h_workspace a = ws_id w \<and> h_inode a = i_id node \<and>
    execution empty_db t \<and> core t = core s \<and> clock t = clock s \<and> apart h s t \<and> (\<forall>h'. h' \<noteq> h \<longrightarrow> FindHandle t h' = FindHandle s h')"
proof -
  have inv: "versions_inv s" using versions_always.execution_kept[OF exec] by simp
  from HandleOpen_runs[OF inv w node(1,2), of "''rw''" h] fresh node(3) obtain t1 st where
    t1: "HandleOpenFunction h (SqlText name) (SqlText path) (SqlText ''rw'') (SqlText []) None s = (Inr h, t1)"
      "staged t1 h st content" "base_owned t1 (i_id node) st"
      "handles t1 = handles s @ [new_handle h (ws_id w) (i_id node) ''rw'' True (i_version node) 0 None (now_s_ms s)]"
      "core t1 = core s" "clock t1 = clock s" "apart h s t1" by auto
  let ?r = "new_handle h (ws_id w) (i_id node) ''rw'' True (i_version node) 0 None (now_s_ms s)"
  have r: "h_id ?r = h" "h_state ?r = HOpen" "h_writable ?r" "h_published ?r = 0" "h_dirty ?r = 0" "h_inode ?r = i_id node"
      "h_workspace ?r = ws_id w" "h_expected ?r = i_version node"
    by (simp_all add: new_handle_def)
  have find: "FindHandle t1 h = Inr ?r" "h' \<noteq> h \<Longrightarrow> FindHandle t1 h' = FindHandle s h'" for h'
    using fresh(1) r(1) by (simp_all add: FindHandle_def t1(4) find_append find_fresh_key split: option.splits)
  have exec1: "execution empty_db t1"
    using execution.call[OF exec, of "Handle_Open h (SqlText name) (SqlText path) (SqlText ''rw'') (SqlText []) None"] t1(1) by simp
  have "NodeById s (i_id node) True = Inr node"
  proof -
    have "find (\<lambda>i. i_id i = i_id node \<and> (True \<or> i_deleted i = None)) (inodes s) = Some node"
      using inv Resolve_member[OF node(1)] by (intro find_unique[where key = i_id]) (auto simp: versions_inv_def)
    then show ?thesis by (simp add: NodeById_def)
  qed
  then have "NodeById t1 (h_inode ?r) True = Inr node" using NodeById_core[OF t1(5)] r by simp
  from stage_ready[OF find(1) r(1-3) _ t1(2) _ this node(2) _ patch(1), of 0] r t1(3) patch(2) room quota_core[OF t1(5)]
  obtain t where t: "HandleStageWriteFunction (SqlText h) 0 (SqlBlob patch) (SqlText []) t1 = (Inr 1, t)"
      "ready_handle t (?r\<lparr>h_dirty := 1, h_updated := now_s_ms t1\<rparr>) node (overwrite content 0 patch)"
      "core t = core t1" "clock t = clock t1" "apart h t1 t" "\<forall>h'. h' \<noteq> h \<longrightarrow> FindHandle t h' = FindHandle t1 h'"
    by auto
  have "execution empty_db t"
    using execution.call[OF exec1, of "Handle_Stage_Write (SqlText h) 0 (SqlBlob patch) (SqlText [])"] t(1) by simp
  moreover have "apart h s t" using t1(7) t(5) by (simp add: apart_def)
  ultimately show ?thesis
    using t t1(5,6) find(2) r by (intro exI[of _ t] exI[of _ "?r\<lparr>h_dirty := 1, h_updated := now_s_ms t1\<rparr>"]) simp
qed

lemma two_ready:
  "\<exists>s a b node. execution empty_db s \<and> ready_handle s a node [9, 2, 3] \<and> ready_handle s b node [8, 2, 3] \<and>
     h_id a = ''a'' \<and> h_id b = ''b'' \<and> CheckQuotaForContentSize s (h_workspace a) (h_inode a) 3 = Inr ()"
proof -
  obtain t node where first: "first_file [1, 2, 3] t node" using three_bytes by blast
  then obtain c where w: "FindWorkspace t ''w'' = Inr \<lparr>ws_id = 1, ws_root = 1, ws_head = c\<rparr>"
      "Resolve t \<lparr>ws_id = 1, ws_root = 1, ws_head = c\<rparr> [''a''] = Inr node"
    by (auto simp: first_file_def)
  have f: "execution empty_db t" "i_kind node = KFile" "ReadNode t node = Inr [1, 2, 3]" "handles t = []"
      "\<And>inode n. 0 \<le> n \<Longrightarrow> CheckQuotaForContentSize t 1 inode n = Inr ()"
    using first by (simp_all add: first_file_def ReadNode_def kContentChunkBytes_def)
  have size: "length [x :: byte] \<le> kMaxStagedBytes" for x by (simp add: kMaxStagedBytes_def)
  have over: "overwrite [1, 2, 3] 0 [x] = [x, 2, 3 :: byte]" for x by (simp add: overwrite_def memcpy_at_def resize_def)
  from opened_ready[OF f(1) w(1) first_path w(2) f(2,3) _ first_file_unstaged[OF first], of "''a''" "[9]"] size f(4,5) over
  obtain t1 a where t1: "ready_handle t1 a node [9, 2, 3]" "h_id a = ''a''" "h_workspace a = 1" "h_inode a = i_id node"
      "execution empty_db t1" "core t1 = core t" "clock t1 = clock t" "apart ''a'' t t1"
      "\<forall>h. h \<noteq> ''a'' \<longrightarrow> FindHandle t1 h = FindHandle t h" by auto
  have tables: "workspaces t1 = workspaces t" "inodes t1 = inodes t" "dentries t1 = dentries t"
      "content_tables t1 = content_tables t"
    using t1(6) by (simp_all add: core_def content_tables_def)
  have "''b'' \<notin> h_id ` set (handles t1)"
  proof
    assume "''b'' \<in> h_id ` set (handles t1)"
    then obtain x where "FindHandle t1 ''b'' = Inr x" by (auto simp: FindHandle_ok)
    with t1(9) f(4) show False by (simp add: FindHandle_def)
  qed
  moreover have "unstaged t1 ''b''"
  proof -
    have keys: "distinct (map chunk_key (staging_chunks t1))"
      using t1(1) staged_keys by (auto simp: ready_handle_def)
    have "''b'' \<notin> s_handle ` set (filter (\<lambda>r. s_handle r \<noteq> ''a'') (staging t1))"
        "''b'' \<notin> sc_handle ` set (filter (\<lambda>r. sc_handle r \<noteq> ''a'') (staging_chunks t1))"
      using t1(8) first_file_unstaged[OF first, of "''b''"] by (auto simp: apart_def unstaged_def)
    with keys show ?thesis by (auto simp: unstaged_def)
  qed
  moreover have "FindWorkspace t1 ''w'' = Inr \<lparr>ws_id = 1, ws_root = 1, ws_head = c\<rparr>" using w(1) tables(1) by (simp add: FindWorkspace_def)
  moreover have "tree_extends (\<lambda>i. i) t t1" using tables by (simp add: tree_extends_def)
  then have "Resolve t1 \<lparr>ws_id = 1, ws_root = 1, ws_head = c\<rparr> [''a''] = Inr node" using Resolve_extends[OF _ w(2) refl refl] by blast
  moreover have "ReadNode t1 node = Inr [1, 2, 3]" using f(3) content_tables_reads(2)[OF tables(4)] by (simp add: ReadNode_def split: if_splits)
  ultimately obtain s b where s: "ready_handle s b node [8, 2, 3]" "h_id b = ''b''" "execution empty_db s" "core s = core t1"
      "apart ''b'' t1 s" "\<forall>h. h \<noteq> ''b'' \<longrightarrow> FindHandle s h = FindHandle t1 h"
    using opened_ready[OF t1(5) _ first_path _ f(2), of "''w''" "\<lparr>ws_id = 1, ws_root = 1, ws_head = c\<rparr>" "[1, 2, 3]" "''b''" "[8]"]
      size f(5) over quota_core[OF t1(6)] by auto
  have "distinct (map chunk_key (staging_chunks s))" using s(1) staged_keys by (auto simp: ready_handle_def)
  then have "ready_handle s a node [9, 2, 3]"
    using ready_apart[OF t1(1) s(5) _ _ s(4)] s(6) t1(2) by simp
  moreover have "CheckQuotaForContentSize s (h_workspace a) (h_inode a) 3 = Inr ()"
    using quota_core[OF s(4)] quota_core[OF t1(6)] f(5) t1(3) by simp
  ultimately show ?thesis using s t1(2) by blast
qed

section \<open>Properties\<close>



text \<open>
  C23: Publishing stores what the handle holds: when a handle has unpublished bytes over the current
  version of its file and the quota has room, \<open>vex_fs_handle_publish\<close> succeeds with the next version, that
  version reads as the content the handle held (up to chunks with equal SHA-256), the handle still holds
  this content, is clean and expects the new version, and every older version reads as before.
\<close>

theorem publish_stores_staged:
  assumes "execution empty_db s" "ready_handle s handle node content"
    and "CheckQuotaForContentSize s (h_workspace handle) (h_inode handle) (int (length content)) = Inr ()"
  shows "\<exists>t content' handle'. HandlePublishFunction (SqlText (h_id handle)) (int (h_dirty handle)) (SqlText ''full'') (SqlText []) s =
      (Inr (int (h_expected handle + 1)), t) \<and>
    ReadVersionContent t (h_inode handle) (h_expected handle + 1) = Inr content' \<and>
    length content' = length content \<and> (no_collision (chunks_of kContentChunkBytes content) \<longrightarrow> content' = content) \<and>
    overlay t (h_id handle) content' \<and> FindHandle t (h_id handle) = Inr handle' \<and>
    h_published handle' = h_dirty handle' \<and> h_expected handle' = h_expected handle + 1 \<and>
    (\<forall>i n c. ReadVersionContent s i n = Inr c \<longrightarrow> ReadVersionContent t i n = Inr c)"
proof -
  have inv: "versions_inv s" using versions_always.execution_kept[OF assms(1)] by simp
  from PublishHandleInTransaction_runs[OF inv assms(2,3), of False] obtain t content' where
    t: "PublishHandleInTransaction handle (int (h_dirty handle)) False s = (Inr (h_expected handle + 1), t)"
      "stored_as content content'" "content_extends s t"
      "ReadVersionContent t (h_inode handle) (h_expected handle + 1) = Inr content'" "overlay t (h_id handle) content'"
      "FindHandle t (h_id handle) = Inr (handle\<lparr>h_expected := h_expected handle + 1, h_published := h_dirty handle,
        h_updated := now_s_ms s\<rparr>)"
    by (elim exE conjE) (rule that)
  have "HandlePublishFunction (SqlText (h_id handle)) (int (h_dirty handle)) (SqlText ''full'') (SqlText []) s =
      (Inr (int (h_expected handle + 1)), t)"
    unfolding HandlePublishFunction_def replay_integer_def text_arg_def RequiredText_def Let_def StoreRequestInteger_def
    using assms(2) t(1) by (simp add: op_simps no_request durability_ok_def PublishHandle_def ready_handle_def)
  with t show ?thesis
    using ReadVersionContent_extends[OF t(3)]
    by (intro exI[of _ t] exI[of _ content'] exI) (auto simp: stored_as_def)
qed

theorem publish_stores_staged_witness:
  "\<exists>s a node t. ready_handle s a node [9, 2, 3] \<and>
     HandlePublishFunction (SqlText (h_id a)) (int (h_dirty a)) (SqlText ''full'') (SqlText []) s = (Inr (int (h_expected a + 1)), t) \<and>
     ReadVersionContent t (h_inode a) (h_expected a + 1) = Inr [9, 2, 3]"
proof -
  obtain s a node where s: "execution empty_db s" "ready_handle s a node [9, 2, 3]"
      "CheckQuotaForContentSize s (h_workspace a) (h_inode a) 3 = Inr ()"
    using two_ready by blast
  have "CheckQuotaForContentSize s (h_workspace a) (h_inode a) (int (length [9, 2, 3 :: byte])) = Inr ()"
      "no_collision (chunks_of kContentChunkBytes [9, 2, 3])"
    using s(3) one_chunk[of "[9, 2, 3]"] by (simp_all add: kContentChunkBytes_def)
  with publish_stores_staged[OF s(1,2) this(1)] s(2) show ?thesis by blast
qed

text \<open>
  C24: No update is lost: when two handles hold unpublished bytes over the same version of a file, the
  first one to publish succeeds, and publishing the other then fails with a write conflict and changes
  nothing.
\<close>

theorem no_lost_update:
  assumes "execution empty_db s" "ready_handle s a node content" "ready_handle s b node content_b" "h_id a \<noteq> h_id b"
    and "CheckQuotaForContentSize s (h_workspace a) (h_inode a) (int (length content)) = Inr ()"
  shows "\<exists>t. HandlePublishFunction (SqlText (h_id a)) (int (h_dirty a)) (SqlText ''full'') (SqlText []) s =
      (Inr (int (h_expected a + 1)), t) \<and>
    HandlePublishFunction (SqlText (h_id b)) (int (h_dirty b)) (SqlText ''full'') (SqlText []) t =
      (Inl (SqlError ''write conflict: file changed after handle_open'' SQLITE_CONSTRAINT), t)"
proof -
  have inv: "versions_inv s" using versions_always.execution_kept[OF assms(1)] by simp
  from PublishHandleInTransaction_runs[OF inv assms(2,5), of False] obtain t and content' :: "byte list" where
    t: "PublishHandleInTransaction a (int (h_dirty a)) False s = (Inr (h_expected a + 1), t)"
      "NodeById t (h_inode a) True = Inr (bump node (length content') (now_ms s) node)"
      "\<forall>h. h \<noteq> h_id a \<longrightarrow> FindHandle t h = FindHandle s h"
    by (elim exE conjE) (rule that)
  have b: "FindHandle t (h_id b) = Inr b" "h_state b \<noteq> HClosed" "h_published b < h_dirty b" "i_version node = h_expected b"
    using assms(3,4) t(3) by (auto simp: ready_handle_def)
  have "h_inode b = h_inode a"
    using assms(2,3) NodeById_member unfolding ready_handle_def by metis
  then have "PublishHandleInTransaction b (int (h_dirty b)) False t =
      (Inl (SqlError ''write conflict: file changed after handle_open'' SQLITE_CONSTRAINT), t)"
    using b t(2) by (simp add: PublishHandleInTransaction_def op_simps bump_def)
  then have "HandlePublishFunction (SqlText (h_id b)) (int (h_dirty b)) (SqlText ''full'') (SqlText []) t =
      (Inl (SqlError ''write conflict: file changed after handle_open'' SQLITE_CONSTRAINT), t)"
    unfolding HandlePublishFunction_def replay_integer_def text_arg_def RequiredText_def Let_def StoreRequestInteger_def
    using b(1) by (simp add: op_simps no_request durability_ok_def PublishHandle_def)
  moreover have "HandlePublishFunction (SqlText (h_id a)) (int (h_dirty a)) (SqlText ''full'') (SqlText []) s =
      (Inr (int (h_expected a + 1)), t)"
    unfolding HandlePublishFunction_def replay_integer_def text_arg_def RequiredText_def Let_def StoreRequestInteger_def
    using assms(2) t(1) by (simp add: op_simps no_request durability_ok_def PublishHandle_def ready_handle_def)
  ultimately show ?thesis by blast
qed

theorem no_lost_update_witness:
  "\<exists>s a b node t. ready_handle s a node [9, 2, 3] \<and> ready_handle s b node [8, 2, 3] \<and>
     HandlePublishFunction (SqlText (h_id a)) (int (h_dirty a)) (SqlText ''full'') (SqlText []) s = (Inr (int (h_expected a + 1)), t) \<and>
     HandlePublishFunction (SqlText (h_id b)) (int (h_dirty b)) (SqlText ''full'') (SqlText []) t =
       (Inl (SqlError ''write conflict: file changed after handle_open'' SQLITE_CONSTRAINT), t)"
proof -
  obtain s a b node where s: "execution empty_db s" "ready_handle s a node [9, 2, 3]" "ready_handle s b node [8, 2, 3]"
      "h_id a \<noteq> h_id b" "CheckQuotaForContentSize s (h_workspace a) (h_inode a) 3 = Inr ()"
    using two_ready by auto
  have "CheckQuotaForContentSize s (h_workspace a) (h_inode a) (int (length [9, 2, 3 :: byte])) = Inr ()" using s(5) by simp
  from no_lost_update[OF s(1-4) this] s(2,3) show ?thesis by blast
qed

end
