(* ===== verification/Vex_Errors.thy ===== *)
theory Vex_Errors
  imports Vex_Publish
begin

text \<open>
  What a call that raises leaves behind.
\<close>

section \<open>Atomic calls\<close>











section \<open>Properties\<close>



end
