(* ===== verification/Vex_Requests.thy ===== *)
theory Vex_Requests
  imports Vex_Errors
begin

text \<open>
  The log of requests: a repeated request returns the stored result and changes nothing, and pruning
  bounds the log.
\<close>

section \<open>Replay\<close>

definition recorded_request :: "db \<Rightarrow> string \<Rightarrow> string \<Rightarrow> byte list \<Rightarrow> int option \<Rightarrow> string option \<Rightarrow> bool" where
  "recorded_request s r operation fp n x \<longleftrightarrow>
     (\<exists>row. find (\<lambda>q. r_id q = r) (requests s) = Some row \<and> r_operation row = operation \<and> r_fingerprint row = fp \<and>
        r_integer row = n \<and> r_text row = x)"

lemma store_request_recorded:
  assumes run: "store_request r operation fp n x s = (Inr u, t)" and r: "r \<noteq> []"
  shows "recorded_request t r operation fp n x"
proof -
  define i where "i = next_rowid (map r_rowid (requests s))"
  define row where "row = \<lparr>r_rowid = i, r_id = r, r_operation = operation, r_fingerprint = fp, r_integer = n, r_text = x\<rparr>"
  have free: "r \<notin> r_id ` set (requests s)" and t: "t = MaybePruneRequests i (s\<lparr>requests := requests s @ [row]\<rparr>)"
    using run r by (auto simp: store_request_def op_ok i_def row_def)
  have "0 < i" "r_rowid row = i" by (simp_all add: i_def row_def)
  then have "\<not> r_rowid row \<le> i - kRequestRetentionRows" by (simp add: not_le kRequestRetentionRows_def)
  moreover have "find (\<lambda>q. r_id q = r) (filter p (requests s)) = None" for p
    using free by (auto simp: find_None_iff)
  moreover have "find (\<lambda>q. r_id q = r) (requests s) = None" using free by (auto simp: find_None_iff)
  ultimately have "find (\<lambda>q. r_id q = r) (requests t) = Some row"
    by (auto simp: t MaybePruneRequests_def find_append row_def)
  then show ?thesis by (simp add: recorded_request_def row_def)
qed

lemma recorded_found:
  "recorded_request s r operation fp (Some n) None \<Longrightarrow> r \<noteq> [] \<Longrightarrow> FindRequest s r operation fp = Inr (CInteger n)"
  "recorded_request s r operation fp None (Some x) \<Longrightarrow> r \<noteq> [] \<Longrightarrow> FindRequest s r operation fp = Inr (CText x)"
  by (auto simp: recorded_request_def FindRequest_def)

lemma replay_integer_again:
  assumes run: "replay_integer r operation fp m s = (Inr n, t)" and r: "r \<noteq> []"
    and work: "\<And>s' n' t'. m s' = (Inr n', t') \<Longrightarrow> \<exists>s1 u. StoreRequestInteger r operation fp n' s1 = (Inr u, t')"
  shows "replay_integer r operation fp m' t = (Inr n, t)"
proof -
  from run obtain cached where cached: "FindRequest s r operation fp = Inr cached"
      and rest: "(case cached of CInteger n \<Rightarrow> ret n | _ \<Rightarrow> m) s = (Inr n, t)"
    by (auto simp: replay_integer_def op_ok)
  show ?thesis
  proof (cases "\<exists>k. cached = CInteger k")
    case True
    with cached rest show ?thesis by (auto simp: replay_integer_def op_simps)
  next
    case False
    then have "m s = (Inr n, t)" using rest by (cases cached) auto
    from work[OF this] have "recorded_request t r operation fp (Some n) None"
      using store_request_recorded[OF _ r] by (auto simp: StoreRequestInteger_def)
    with recorded_found(1)[OF _ r] show ?thesis by (simp add: replay_integer_def op_simps)
  qed
qed

lemma replay_text_again:
  assumes run: "replay_text r operation fp m s = (Inr x, t)" and r: "r \<noteq> []"
    and work: "\<And>s' x' t'. m s' = (Inr x', t') \<Longrightarrow> \<exists>s1 u. StoreRequestText r operation fp x' s1 = (Inr u, t')"
  shows "replay_text r operation fp m' t = (Inr x, t)"
proof -
  from run obtain cached where cached: "FindRequest s r operation fp = Inr cached"
      and rest: "(case cached of CText x \<Rightarrow> ret x | _ \<Rightarrow> m) s = (Inr x, t)"
    by (auto simp: replay_text_def op_ok)
  show ?thesis
  proof (cases "\<exists>k. cached = CText k")
    case True
    with cached rest show ?thesis by (auto simp: replay_text_def op_simps)
  next
    case False
    then have "m s = (Inr x, t)" using rest by (cases cached) auto
    from work[OF this] have "recorded_request t r operation fp None (Some x)"
      using store_request_recorded[OF _ r] by (auto simp: StoreRequestText_def)
    with recorded_found(2)[OF _ r] show ?thesis by (simp add: replay_text_def op_simps)
  qed
qed

text \<open>The replayable functions, after their arguments.\<close>

lemma arg_bind:
  "bind (text_arg (SqlText x) name) f = f x" "bind (blob_arg (SqlBlob b) name) g = g b" "bind (optional_text None name) f = f []"
  by (simp_all add: fun_eq_iff text_arg_def blob_arg_def optional_text_def RequiredText_def RequiredBlob_def op_simps)

lemma stage_write_again:
  assumes "HandleStageWriteFunction (SqlText h) off (SqlBlob patch) (SqlText r) s = (Inr g, t)" "r \<noteq> []"
  shows "HandleStageWriteFunction (SqlText h) off (SqlBlob patch) (SqlText r) t = (Inr g, t)"
  using assms unfolding HandleStageWriteFunction_def arg_bind Let_def
  by (rule replay_integer_again) (auto simp: op_ok)

lemma truncate_again:
  assumes "HandleTruncateFunction (SqlText h) n (SqlText r) s = (Inr g, t)" "r \<noteq> []"
  shows "HandleTruncateFunction (SqlText h) n (SqlText r) t = (Inr g, t)"
  using assms unfolding HandleTruncateFunction_def arg_bind Let_def
  by (rule replay_integer_again) (auto simp: op_ok)

lemma append_again:
  assumes "HandleAppendFunction (SqlText h) (SqlBlob tail) (SqlText r) s = (Inr v, t)" "r \<noteq> []"
  shows "HandleAppendFunction (SqlText h) (SqlBlob tail) (SqlText r) t = (Inr v, t)"
  using assms unfolding HandleAppendFunction_def arg_bind Let_def
  by (rule replay_integer_again) (auto simp: op_ok)

lemma publish_again:
  assumes "HandlePublishFunction (SqlText h) n (SqlText d) (SqlText r) s = (Inr v, t)" "r \<noteq> []"
  shows "HandlePublishFunction (SqlText h) n (SqlText d) (SqlText r) t = (Inr v, t)"
  using assms unfolding HandlePublishFunction_def arg_bind Let_def
  by (rule replay_integer_again) (auto simp: op_ok)

lemma close_again:
  assumes "HandleCloseFunction (SqlText h) retain (SqlText r) s = (Inr x, t)" "r \<noteq> []"
  shows "HandleCloseFunction (SqlText h) retain (SqlText r) t = (Inr x, t)"
  using assms unfolding HandleCloseFunction_def arg_bind Let_def
  by (rule replay_text_again) (auto simp: op_ok)

lemma open_again:
  assumes "HandleOpenFunction h (SqlText name) (SqlText path) (SqlText flags) (SqlText r) None s = (Inr x, t)" "r \<noteq> []"
  shows "HandleOpenFunction h' (SqlText name) (SqlText path) (SqlText flags) (SqlText r) None t = (Inr x, t)"
  using assms unfolding HandleOpenFunction_def arg_bind Let_def
  by (rule replay_text_again) (auto simp: op_ok)

section \<open>The size of the log\<close>

text \<open>
  Row ids grow by one, and at every multiple of the interval the rows that are older than the retention
  are deleted.
\<close>

definition newest :: "db \<Rightarrow> nat" where
  "newest s = fold max (map r_rowid (requests s)) 0"

definition log_ok :: "db \<Rightarrow> bool" where
  "log_ok s \<longleftrightarrow> distinct (map r_rowid (requests s)) \<and>
     (\<forall>q \<in> set (requests s). newest s div kRequestPruneInterval * kRequestPruneInterval - kRequestRetentionRows < r_rowid q)"

lemma newest_upper: "q \<in> set (requests s) \<Longrightarrow> r_rowid q \<le> newest s"
  unfolding newest_def by (rule fold_max_in) simp

lemma log_ok_length:
  assumes "log_ok s"
  shows "length (requests s) < kRequestRetentionRows + kRequestPruneInterval"
proof -
  define P where "P = newest s div kRequestPruneInterval * kRequestPruneInterval"
  have "set (map r_rowid (requests s)) \<subseteq> {P - kRequestRetentionRows<..newest s}"
    using assms newest_upper by (auto simp: log_ok_def P_def)
  then have "card (set (map r_rowid (requests s))) \<le> newest s - (P - kRequestRetentionRows)"
    by (metis card_greaterThanAtMost card_mono finite_greaterThanAtMost)
  moreover have "card (set (map r_rowid (requests s))) = length (requests s)"
    using assms by (metis distinct_card length_map log_ok_def)
  moreover have "newest s < P + kRequestPruneInterval"
    using dividend_less_div_times[of kRequestPruneInterval "newest s"] by (simp add: kRequestPruneInterval_def P_def)
  ultimately show ?thesis unfolding kRequestRetentionRows_def kRequestPruneInterval_def by linarith
qed

lemma fold_max_filter:
  "y \<in> set (xs :: nat list) \<Longrightarrow> (\<And>x. x \<in> set xs \<Longrightarrow> x \<le> y) \<Longrightarrow> fold max xs 0 = y"
  unfolding Max.set_eq_fold [symmetric] by (rule Max_eqI) auto

lemma store_request_log: "preserves log_ok (store_request r operation fp n x)"
proof (rule preservesI)
  fix s assume ok: "log_ok s"
  let ?I = kRequestPruneInterval and ?R = kRequestRetentionRows
  show "log_ok (snd (store_request r operation fp n x s))"
  proof (cases "r = [] \<or> r \<in> r_id ` set (requests s)")
    case True
    with ok show ?thesis by (auto simp: store_request_def op_simps)
  next
    case False
    define i where "i = next_rowid (map r_rowid (requests s))"
    define row where "row = \<lparr>r_rowid = i, r_id = r, r_operation = operation, r_fingerprint = fp, r_integer = n, r_text = x\<rparr>"
    define u where "u = s\<lparr>requests := requests s @ [row]\<rparr>"
    have run: "snd (store_request r operation fp n x s) = MaybePruneRequests i u"
      using False by (simp add: store_request_def op_simps i_def row_def u_def)
    have i: "i = Suc (newest s)" by (simp add: i_def next_rowid_def newest_def)
    have below: "q \<in> set (requests s) \<Longrightarrow> r_rowid q < i" for q using newest_upper[of q s] by (simp add: i)
    have dist: "distinct (map r_rowid (requests u))"
      using ok below by (auto simp: log_ok_def u_def row_def)
    have new: "newest u = i" using newest_upper[of _ s] by (simp add: newest_def u_def row_def i_def next_rowid_def)
    show ?thesis
    proof (cases "?R < i \<and> i mod ?I = 0")
      case True
      let ?t = "u\<lparr>requests := filter (\<lambda>q. \<not> r_rowid q \<le> i - ?R) (requests u)\<rparr>"
      have t: "MaybePruneRequests i u = ?t" using True by (simp add: MaybePruneRequests_def)
      have "row \<in> set (requests ?t)" "r_rowid row = i" using True by (auto simp: u_def row_def kRequestRetentionRows_def)
      moreover have "q \<in> set (requests ?t) \<Longrightarrow> r_rowid q \<le> i" for q using newest_upper[of q u] new by simp
      ultimately have "newest ?t = i" unfolding newest_def by (intro fold_max_filter) force+
      moreover have "i div ?I * ?I - ?R < r_rowid q" if "\<not> r_rowid q \<le> i - ?R" for q :: request_row
        using that div_times_less_eq_dividend[of i ?I] by linarith
      ultimately show ?thesis unfolding run t using dist by (simp add: log_ok_def distinct_map_filter)
    next
      case False
      then have t: "MaybePruneRequests i u = u" by (auto simp: MaybePruneRequests_def)
      have "i div ?I * ?I - ?R < r_rowid q" if "q \<in> set (requests u)" for q
      proof (cases "i mod ?I = 0")
        case True
        then have "i \<le> ?R" using False by simp
        then have "i div ?I * ?I - ?R = 0" by (metis diff_is_0_eq div_times_less_eq_dividend le_trans)
        moreover have "0 < r_rowid q"
          using that ok i by (auto simp: u_def row_def log_ok_def)
        ultimately show ?thesis by simp
      next
        case False
        then have "i div ?I = newest s div ?I" by (simp add: i div_Suc)
        moreover have "newest s div ?I * ?I - ?R < i" using div_times_less_eq_dividend[of "newest s" ?I] unfolding i by linarith
        ultimately show ?thesis using that ok by (auto simp: u_def row_def log_ok_def)
      qed
      with dist new show ?thesis unfolding run t by (simp add: log_ok_def)
    qed
  qed
qed

section \<open>Properties\<close>

text \<open>
  C26: A repeated request is answered, not executed: when a handle function has returned a result for a
  non-empty request id, the same call with the same id returns the same result and leaves the database as
  it is, for staging, truncating, appending, publishing, closing and opening; for opening, also when the
  second call would draw another handle id.
\<close>

theorem repeated_request_replayed:
  assumes "r \<noteq> []"
  shows "(HandleStageWriteFunction (SqlText h) off (SqlBlob data) (SqlText r) s = (Inr g, t) \<longrightarrow>
      HandleStageWriteFunction (SqlText h) off (SqlBlob data) (SqlText r) t = (Inr g, t)) \<and>
    (HandleTruncateFunction (SqlText h) n (SqlText r) s = (Inr g, t) \<longrightarrow>
      HandleTruncateFunction (SqlText h) n (SqlText r) t = (Inr g, t)) \<and>
    (HandleAppendFunction (SqlText h) (SqlBlob data) (SqlText r) s = (Inr v, t) \<longrightarrow>
      HandleAppendFunction (SqlText h) (SqlBlob data) (SqlText r) t = (Inr v, t)) \<and>
    (HandlePublishFunction (SqlText h) n (SqlText d) (SqlText r) s = (Inr v, t) \<longrightarrow>
      HandlePublishFunction (SqlText h) n (SqlText d) (SqlText r) t = (Inr v, t)) \<and>
    (HandleCloseFunction (SqlText h) retain (SqlText r) s = (Inr x, t) \<longrightarrow>
      HandleCloseFunction (SqlText h) retain (SqlText r) t = (Inr x, t)) \<and>
    (HandleOpenFunction h (SqlText name) (SqlText path) (SqlText flags) (SqlText r) None s = (Inr x, t) \<longrightarrow>
      HandleOpenFunction h' (SqlText name) (SqlText path) (SqlText flags) (SqlText r) None t = (Inr x, t))"
  using stage_write_again[OF _ assms, of h off data s g t] truncate_again[OF _ assms, of h n s g t]
    append_again[OF _ assms, of h data s v t] publish_again[OF _ assms, of h n d s v t]
    close_again[OF _ assms, of h retain s x t] open_again[OF _ assms, of h name path flags s x t h'] by simp

theorem repeated_request_replayed_witness:
  "\<exists>s t. HandleCloseFunction (SqlText ''h'') False (SqlText ''r'') s = (Inr ''closed'', t) \<and> handles s \<noteq> handles t \<and>
     HandleCloseFunction (SqlText ''h'') False (SqlText ''r'') t = (Inr ''closed'', t)"
proof -
  define s where "s = empty_db\<lparr>handles := [new_handle ''h'' 1 2 ''rw'' True 0 0 None 0]\<rparr>"
  have find: "FindHandle s ''h'' = Inr (new_handle ''h'' 1 2 ''rw'' True 0 0 None 0)"
    by (simp add: s_def FindHandle_def new_handle_def)
  define u where "u = close_handle ''h'' s"
  have u: "requests s = []" "requests u = []" "handles u \<noteq> handles s"
    by (simp_all add: u_def s_def empty_db_def close_handle_def remove_staging_def remove_dirty_chunks_def update_handles_def new_handle_def)
  then obtain t where store: "StoreRequestText ''r'' ''handle_close''
      (fp_Finish (AddInt64 0 (AddText ''h'' (RequestFingerprint ''handle_close'')))) ''closed'' u = (Inr (), t)" "handles t = handles u"
    by (simp add: StoreRequestText_def store_request_def op_simps MaybePruneRequests_def next_rowid_def kRequestRetentionRows_def)
  have run: "HandleCloseFunction (SqlText ''h'') False (SqlText ''r'') s = (Inr ''closed'', t)"
    unfolding HandleCloseFunction_def arg_bind Let_def replay_text_def
    using find store(1) u(1) by (simp add: op_simps FindRequest_def u_def)
  from repeated_request_replayed[of "''r''", THEN conjunct2, THEN conjunct2, THEN conjunct2, THEN conjunct2, THEN conjunct1] run
  have "HandleCloseFunction (SqlText ''h'') False (SqlText ''r'') t = (Inr ''closed'', t)" by blast
  with run store(2) u(3) show ?thesis by metis
qed

text \<open>
  C27: The request log stays bounded: however many requests are recorded, one after the other, starting
  with an empty log, the log never holds as many as 64 Ki + 4 Ki rows.
\<close>

theorem request_log_bounded:
  assumes "requests s = []"
  shows "length (requests (fold (\<lambda>(r, operation, fp, n, x) s. snd (store_request r operation fp n x s)) rs s)) < 69632"
proof -
  have "log_ok s" using assms by (simp add: log_ok_def)
  then have "log_ok (fold (\<lambda>(r, operation, fp, n, x) s. snd (store_request r operation fp n x s)) rs s)"
  proof (induction rs arbitrary: s)
    case (Cons q rs)
    then show ?case using store_request_log by (cases q) (auto simp: preserves_def)
  qed simp
  from log_ok_length[OF this] show ?thesis by (simp add: kRequestRetentionRows_def kRequestPruneInterval_def)
qed

theorem request_log_bounded_witness:
  "requests empty_db = [] \<and>
   length (requests (fold (\<lambda>(r, operation, fp, n, x) s. snd (store_request r operation fp n x s))
     [(''r'', ''handle_close'', [], None, Some ''closed'')] empty_db)) < 69632"
proof -
  have "requests empty_db = []" by (simp add: empty_db_def)
  with request_log_bounded[OF this] show ?thesis by blast
qed

end
