(* ===== verification/Vex_Search.thy ===== *)
theory Vex_Search
  imports Vex_Handles
begin

unbundle bit_operations_syntax

text \<open>
  Searching and listing: \<open>IsUtf8Text\<close>, \<open>LineContains\<close>, \<open>GrepFunction\<close>, \<open>HistoryFunction\<close>,
  \<open>CompareVersionsFunction\<close>, \<open>StatFunction\<close>, \<open>PathFunction\<close>, \<open>ListFunction\<close> and \<open>FindFunction\<close> of
  src/vexdb\_sqlite/src/agent\_files/vexfs\_sqlite.cpp. The functions only read; a result is the JSON text
  that the call returns.

  The matching of a phrase by the FTS5 table is a parameter. A recursive query without \<open>ORDER BY\<close> yields
  its rows level by level, in the order of the tables.
\<close>

section \<open>Texts\<close>

text \<open>The lead byte of a sequence: how many bytes follow, its own bits and the least code point.\<close>

definition utf8_lead :: "byte \<Rightarrow> (nat \<times> 32 word \<times> 32 word) option" where
  "utf8_lead first =
     (if first AND 0xe0 = 0xc0 then Some (1, ucast (first AND 0x1f), 0x80)
      else if first AND 0xf0 = 0xe0 then Some (2, ucast (first AND 0x0f), 0x800)
      else if first AND 0xf8 = 0xf0 then Some (3, ucast (first AND 0x07), 0x10000)
      else None)"

definition utf8_continue :: "byte list \<Rightarrow> 32 word \<Rightarrow> 32 word option" where
  "utf8_continue bytes codepoint =
     foldl (\<lambda>acc next_byte. case acc of
              None \<Rightarrow> None
            | Some c \<Rightarrow> if next_byte AND 0xc0 \<noteq> 0x80 then None
                        else Some (push_bit 6 c OR ucast (next_byte AND 0x3f)))
       (Some codepoint) bytes"

function IsUtf8Text :: "byte list \<Rightarrow> bool" where
  "IsUtf8Text [] = True"
| "IsUtf8Text (first # rest) =
     (if first = 0 then False
      else if first < 0x80 then IsUtf8Text rest
      else case utf8_lead first of
             None \<Rightarrow> False
           | Some (trailing, codepoint, minimum) \<Rightarrow>
               if length rest < trailing then False
               else case utf8_continue (take trailing rest) codepoint of
                      None \<Rightarrow> False
                    | Some c \<Rightarrow>
                        if c < minimum \<or> 0x10ffff < c \<or> (0xd800 \<le> c \<and> c \<le> 0xdfff) then False
                        else IsUtf8Text (drop trailing rest))"
  by pat_completeness auto
termination
  by (relation "measure length") (auto split: if_splits)

declare IsUtf8Text.simps(2) [simp del]

definition FoldAscii :: "byte \<Rightarrow> byte" where
  "FoldAscii b = (if 0x41 \<le> b \<and> b \<le> 0x5a then b + 0x20 else b)"

definition same_byte :: "bool \<Rightarrow> byte \<Rightarrow> byte \<Rightarrow> bool" where
  "same_byte ignore_case l r = (if ignore_case then FoldAscii l = FoldAscii r else l = r)"

text \<open>\<open>std::search\<close>, which finds the empty pattern at once; the result is compared with the end of the line.\<close>

fun search_at :: "(byte \<Rightarrow> byte \<Rightarrow> bool) \<Rightarrow> byte list \<Rightarrow> byte list \<Rightarrow> byte list" where
  "search_at eq [] pattern = []"
| "search_at eq (b # line) pattern =
     (if length pattern \<le> length (b # line) \<and> list_all2 eq (take (length pattern) (b # line)) pattern
      then b # line else search_at eq line pattern)"

definition LineContains :: "byte list \<Rightarrow> byte list \<Rightarrow> bool \<Rightarrow> bool" where
  "LineContains line pattern ignore_case = (search_at (same_byte ignore_case) line pattern \<noteq> [])"

section \<open>JSON texts\<close>

definition json_text :: "string \<Rightarrow> string" where
  "json_text x = [CHR 0x22] @ JsonEscape x @ [CHR 0x22]"

definition json_field :: "string \<Rightarrow> string \<Rightarrow> string" where
  "json_field name val = json_key name @ val"

definition json_commas :: "string list \<Rightarrow> string" where
  "json_commas xs = (case xs of [] \<Rightarrow> [] | y # ys \<Rightarrow> y @ concat (map (\<lambda>x. CHR '','' # x) ys))"

definition json_object :: "string list \<Rightarrow> string" where
  "json_object xs = ''{'' @ json_commas xs @ ''}''"

definition json_array :: "string list \<Rightarrow> string" where
  "json_array xs = ''['' @ json_commas xs @ '']''"

definition json_option :: "('a \<Rightarrow> string) \<Rightarrow> 'a option \<Rightarrow> string" where
  "json_option f x = (case x of None \<Rightarrow> ''null'' | Some y \<Rightarrow> f y)"

definition kind_text :: "kind \<Rightarrow> string" where
  "kind_text k = (case k of KFile \<Rightarrow> ''file'' | KDirectory \<Rightarrow> ''directory'' | KSymlink \<Rightarrow> ''symlink'')"

section \<open>Searching contents\<close>

definition kMaxGrepResults :: nat where
  "kMaxGrepResults = 10 * 1024"

definition kMaxGrepPatternBytes :: nat where
  "kMaxGrepPatternBytes = 4 * 1024"

definition IsSha256 :: "string \<Rightarrow> bool" where
  "IsSha256 v \<longleftrightarrow> length v = 64 \<and>
     list_all (\<lambda>c. (CHR ''0'' \<le> c \<and> c \<le> CHR ''9'') \<or> (CHR ''a'' \<le> c \<and> c \<le> CHR ''f'')) v"

text \<open>A row of the query for files: path, inode, current version, size, checksum.\<close>

record grep_file =
  gf_path :: string
  gf_inode :: nat
  gf_version :: nat
  gf_size :: int
  gf_checksum :: string

record grep_match =
  gm_path :: string
  gm_line :: nat
  gm_text :: "byte list"

definition child_path :: "string \<Rightarrow> string \<Rightarrow> string" where
  "child_path path name = (if path = [kSlash] then kSlash # name else path @ kSlash # name)"

text \<open>
  A recursive query: the first rows, then the rows of one step over them, and so on; the number of steps
  that is enough is shown below.
\<close>

fun levels :: "nat \<Rightarrow> ('r list \<Rightarrow> 'r list) \<Rightarrow> 'r list \<Rightarrow> 'r list" where
  "levels 0 step rows = rows"
| "levels (Suc n) step rows = rows @ levels n step (step rows)"

definition children :: "db \<Rightarrow> nat \<Rightarrow> nat \<Rightarrow> dentry_row list" where
  "children s ws parent = filter (\<lambda>d. d_workspace d = ws \<and> d_parent d = parent) (dentries s)"

definition tree_step :: "db \<Rightarrow> nat \<Rightarrow> (string \<times> inode_row) list \<Rightarrow> (string \<times> inode_row) list" where
  "tree_step s ws rows =
     concat (map (\<lambda>(path, i).
       if i_kind i \<noteq> KDirectory then []
       else concat (map (\<lambda>d. case live_inode s (d_inode d) of
                             None \<Rightarrow> [] | Some c \<Rightarrow> [(child_path path (d_name d), c)])
              (children s ws (i_id i)))) rows)"

definition file_row :: "db \<Rightarrow> string \<times> inode_row \<Rightarrow> grep_file list" where
  "file_row s = (\<lambda>(path, i).
     if i_kind i \<noteq> KFile then []
     else case find_version s (i_id i) (i_version i) of
            None \<Rightarrow> []
          | Some v \<Rightarrow> [\<lparr>gf_path = path, gf_inode = i_id i, gf_version = i_version i, gf_size = i_size i,
                        gf_checksum = v_checksum v\<rparr>])"

definition scan_query :: "db \<Rightarrow> Workspace \<Rightarrow> string \<Rightarrow> nat \<Rightarrow> grep_file list" where
  "scan_query s w path root =
     concat (map (file_row s) (levels (length (dentries s)) (tree_step s (ws_id w))
       (case find (\<lambda>i. i_id i = root \<and> i_workspace i = ws_id w \<and> i_deleted i = None) (inodes s) of
          None \<Rightarrow> [] | Some i \<Rightarrow> [(path, i)])))"

text \<open>The ancestors of the candidates of the index, up to 1024 levels, and the paths that reach the root.\<close>

definition first_ancestors :: "db \<Rightarrow> nat \<Rightarrow> nat list \<Rightarrow> (nat \<times> nat \<times> string) list" where
  "first_ancestors s ws candidates =
     concat (map (\<lambda>inode. map (\<lambda>d. (d_inode d, d_parent d, d_name d))
       (filter (\<lambda>d. d_inode d = inode \<and> d_workspace d = ws) (dentries s))) candidates)"

definition next_ancestors :: "db \<Rightarrow> nat \<Rightarrow> nat \<Rightarrow> (nat \<times> nat \<times> string) list \<Rightarrow> (nat \<times> nat \<times> string) list" where
  "next_ancestors s ws root level =
     concat (map (\<lambda>(inode, parent, path).
       if parent = root then []
       else map (\<lambda>d. (inode, d_parent d, d_name d @ kSlash # path))
              (filter (\<lambda>d. d_inode d = parent \<and> d_workspace d = ws) (dentries s))) level)"

definition below_path :: "string \<Rightarrow> string \<Rightarrow> bool" where
  "below_path root path \<longleftrightarrow> root = [kSlash] \<or> path = root \<or> take (length root + 1) path = root @ [kSlash]"

definition indexed_query :: "(string \<Rightarrow> fts_row \<Rightarrow> bool) \<Rightarrow> db \<Rightarrow> Workspace \<Rightarrow> string \<Rightarrow> string \<Rightarrow> grep_file list" where
  "indexed_query fts_match s w path phrase =
     concat (map (\<lambda>(inode, parent, p).
       if parent = ws_root w \<and> below_path path (kSlash # p)
       then (case live_inode s inode of None \<Rightarrow> [] | Some i \<Rightarrow> file_row s (kSlash # p, i))
       else [])
       (levels 1023 (next_ancestors s (ws_id w) (ws_root w))
          (first_ancestors s (ws_id w) (map f_inode (filter (fts_match phrase) (content_fts s))))))"

definition quoted_pattern :: "string \<Rightarrow> string" where
  "quoted_pattern pattern =
     [CHR 0x22] @ concat (map (\<lambda>c. if c = CHR 0x22 then [CHR 0x22, CHR 0x22] else [c]) pattern) @ [CHR 0x22]"

lemma after_line_shorter: "xs \<noteq> [] \<Longrightarrow> length (dropWhile p xs) - Suc 0 < length xs"
  using length_dropWhile_le[of p xs] by (cases xs) auto

text \<open>The loop over the lines of a file: the matches so far, and whether the limit was reached.\<close>

definition grep_newline :: byte where
  "grep_newline = 10"

function scan_lines ::
  "nat \<Rightarrow> bool \<Rightarrow> bool \<Rightarrow> byte list \<Rightarrow> string \<Rightarrow> byte list \<Rightarrow> nat \<Rightarrow> grep_match list \<Rightarrow> grep_match list \<times> bool" where
  "scan_lines limit files_only ignore_case pattern path content line_number matches =
     (if content = [] then (matches, False)
      else let line = takeWhile (\<lambda>b. b \<noteq> grep_newline) content;
               rest = dropWhile (\<lambda>b. b \<noteq> grep_newline) content;
               hit = LineContains line pattern ignore_case;
               matches' = (if hit then matches @ [\<lparr>gm_path = path, gm_line = line_number, gm_text = line\<rparr>] else matches)
           in if hit \<and> length matches' = limit then (matches', True)
              else if hit \<and> files_only then (matches', False)
              else if rest = [] then (matches', False)
              else scan_lines limit files_only ignore_case pattern path (tl rest) (line_number + 1) matches')"
  by pat_completeness auto
termination
  by (relation "measure (\<lambda>(_, _, _, _, _, content, _, _). length content)") (auto intro: after_line_shorter)

declare scan_lines.simps [simp del]

record grep_result =
  gr_matches :: "grep_match list"
  gr_files :: nat
  gr_bytes :: int
  gr_binary :: nat
  gr_truncated :: bool

definition corrupt_reference :: vex_error where
  "corrupt_reference = SqlError ''current file content reference is corrupt'' SQLITE_CORRUPT"

definition read_grep_file :: "db \<Rightarrow> grep_file \<Rightarrow> byte list result" where
  "read_grep_file s f =
     (if gf_size f < 0 \<or> int kMaxStagedBytes < gf_size f then Inl corrupt_reference
      else res_bind (ReadVersionContent s (gf_inode f) (gf_version f)) (\<lambda>content.
        if int (length content) \<noteq> gf_size f
        then Inl (SqlError ''current file size does not match content'' SQLITE_CORRUPT)
        else if \<not> IsSha256 (gf_checksum f)
        then Inl (SqlError ''current file checksum does not match content'' SQLITE_CORRUPT)
        else Inr content))"

fun scan_files ::
  "db \<Rightarrow> nat \<Rightarrow> bool \<Rightarrow> bool \<Rightarrow> byte list \<Rightarrow> grep_file list \<Rightarrow> grep_result \<Rightarrow> grep_result result" where
  "scan_files s limit files_only ignore_case pattern [] r = Inr r"
| "scan_files s limit files_only ignore_case pattern (f # fs) r =
     res_bind (read_grep_file s f) (\<lambda>content.
       let r' = r\<lparr>gr_files := gr_files r + 1, gr_bytes := gr_bytes r + gf_size f\<rparr>
       in if \<not> IsUtf8Text content
          then scan_files s limit files_only ignore_case pattern fs (r'\<lparr>gr_binary := gr_binary r' + 1\<rparr>)
          else let (matches, truncated) =
                     scan_lines limit files_only ignore_case pattern (gf_path f) content 1 (gr_matches r');
                   r'' = r'\<lparr>gr_matches := matches, gr_truncated := truncated\<rparr>
               in if truncated then Inr r'' else scan_files s limit files_only ignore_case pattern fs r'')"

definition json_match :: "grep_match \<Rightarrow> string" where
  "json_match m = json_object
     [json_field ''path'' (json_text (gm_path m)), json_field ''line'' (to_string (gm_line m)),
      json_field ''text'' (json_text (chars_of (gm_text m)))]"

definition json_grep :: "grep_result \<Rightarrow> bool \<Rightarrow> string" where
  "json_grep r index_used = json_object
     [json_field ''matches'' (json_array (map json_match (gr_matches r))),
      json_field ''match_count'' (to_string (length (gr_matches r))),
      json_field ''files_scanned'' (to_string (gr_files r)),
      json_field ''bytes_scanned'' (int_text (gr_bytes r)),
      json_field ''binary_files_skipped'' (to_string (gr_binary r)),
      json_field ''index_used'' (json_bool index_used),
      json_field ''truncated'' (json_bool (gr_truncated r))]"

definition no_matches :: grep_result where
  "no_matches = \<lparr>gr_matches = [], gr_files = 0, gr_bytes = 0, gr_binary = 0, gr_truncated = False\<rparr>"

definition pattern_characters :: "byte list \<Rightarrow> nat" where
  "pattern_characters pattern = (if IsUtf8Text pattern then length (filter (\<lambda>b. b AND 0xc0 \<noteq> 0x80) pattern) else 0)"

definition GrepFunction ::
  "(string \<Rightarrow> fts_row \<Rightarrow> bool) \<Rightarrow> sql_value \<Rightarrow> sql_value \<Rightarrow> sql_value \<Rightarrow> sql_value \<Rightarrow> sql_value \<Rightarrow> string vexfs" where
  "GrepFunction fts_match v0 v1 v2 v3 v4 =
     bind (workspace_arg v0) (\<lambda>w.
     bind (parts_arg v1 ''path'') (\<lambda>parts.
     bind (query (\<lambda>s. Resolve s w parts)) (\<lambda>root.
     bind (text_arg v2 ''pattern'') (\<lambda>pattern.
     bind (query (\<lambda>_. RequiredNonnegativeInteger v3 ''flags'')) (\<lambda>flags.
     bind (inode_arg v4 ''limit'') (\<lambda>limit.
     require (\<not> (pattern = [] \<or> kMaxGrepPatternBytes < length pattern))
       (SqlError ''grep pattern must be 1..4096 bytes'' SQLITE_RANGE)
     (require (flags \<le> 3) (SqlError ''unsupported grep flags'' SQLITE_RANGE)
     (require (limit \<le> kMaxGrepResults) (SqlError ''grep limit must be at most 10240'' SQLITE_RANGE)
     (query (\<lambda>s.
        let ignore_case = (flags mod 2 = 1);
            files_only = (2 \<le> flags);
            bytes = bytes_of pattern;
            index_used = (grep_state s = GrepAvailable \<and> 3 \<le> pattern_characters bytes);
            path = CanonicalPath parts;
            files = (if index_used then indexed_query fts_match s w path (quoted_pattern pattern)
                     else scan_query s w path (i_id root))
        in res_bind (scan_files s limit files_only ignore_case bytes files no_matches) (\<lambda>r.
             Inr (json_grep r index_used))))))))))))"

section \<open>The history of a file\<close>

definition history_rows :: "db \<Rightarrow> nat \<Rightarrow> nat \<Rightarrow> (version_row \<times> commit_row) list" where
  "history_rows s inode before_version =
     rev (sort_key (\<lambda>(v, c). v_no v)
       (concat (map (\<lambda>v. map (Pair v) (filter (\<lambda>c. c_id c = v_commit v) (commits s)))
          (filter (\<lambda>v. v_inode v = inode \<and> (before_version = 0 \<or> v_no v < before_version)) (file_versions s)))))"

definition json_version :: "nat \<Rightarrow> version_row \<times> commit_row \<Rightarrow> string" where
  "json_version current = (\<lambda>(v, c). json_object
     [json_field ''version'' (to_string (v_no v)), json_field ''commit'' (to_string (v_commit v)),
      json_field ''parent_commit'' (json_option to_string (c_parent c)),
      json_field ''size'' (int_text (v_size v)), json_field ''created_at'' (int_text (v_created v)),
      json_field ''message'' (json_text (c_message c)), json_field ''checksum'' (json_text (v_checksum v)),
      json_field ''current'' (json_bool (v_no v = current))])"

text \<open>One page: at most \<open>limit\<close> rows, and the version to continue before when there are more.\<close>

definition history_page ::
  "db \<Rightarrow> nat \<Rightarrow> nat \<Rightarrow> nat \<Rightarrow> (version_row \<times> commit_row) list \<times> nat option" where
  "history_page s inode limit before_version =
     (let rows = take (limit + 1) (history_rows s inode before_version);
          entries = take limit rows
      in (entries, if limit < length rows then Some (v_no (fst (last entries))) else None))"

definition HistoryFunction :: "sql_value \<Rightarrow> sql_value \<Rightarrow> (sql_value \<times> sql_value) option \<Rightarrow> string vexfs" where
  "HistoryFunction v0 v1 paging =
     bind (workspace_arg v0) (\<lambda>w.
     bind (parts_arg v1 ''path'') (\<lambda>parts.
     bind (query (\<lambda>s. Resolve s w parts)) (\<lambda>node.
     require (i_kind node = KFile) not_a_file
     (bind (case paging of None \<Rightarrow> ret 100 | Some (v2, _) \<Rightarrow> inode_arg v2 ''limit'') (\<lambda>limit.
      bind (case paging of None \<Rightarrow> ret 0 | Some (_, v3) \<Rightarrow> query (\<lambda>_. RequiredNonnegativeInteger v3 ''before version''))
        (\<lambda>before_version.
      require (limit \<le> 1000) (SqlError ''history limit must be at most 1000'' SQLITE_RANGE)
      (gets (\<lambda>s.
        let (rows, next_before) = history_page s (i_id node) limit (nat before_version);
            entries = json_array (map (json_version (i_version node)) rows)
        in if paging = None then entries
           else json_object [json_field ''entries'' entries,
                             json_field ''next_before'' (json_option to_string next_before)]))))))))"

section \<open>Comparing two versions\<close>

text \<open>One of the two manifests: the rows that are left, and what was gathered.\<close>

record compare_side =
  cs_rows :: "(nat \<times> chunk_row) list"
  cs_chunks :: "ManifestChunkChecksum list"
  cs_count :: nat
  cs_bytes :: nat

definition compare_corrupt :: "nat \<Rightarrow> nat \<times> chunk_row \<Rightarrow> bool" where
  "compare_corrupt chunk_no = (\<lambda>(no, c).
     no \<noteq> chunk_no \<or> ch_size c \<noteq> length (ch_content c) \<or> ch_content c = [] \<or>
     kContentChunkBytes < length (ch_content c) \<or> Sha256Hex (ch_content c) \<noteq> Inr (ch_checksum c))"

definition compare_row :: "nat \<Rightarrow> compare_side \<Rightarrow> (byte list \<times> compare_side) result" where
  "compare_row chunk_no side =
     (case cs_rows side of
        [] \<Rightarrow> Inr ([], side)
      | row # rows \<Rightarrow>
          if compare_corrupt chunk_no row
          then Inl (SqlError ''file manifest chunk is corrupt'' SQLITE_CORRUPT)
          else let chunk = ch_content (snd row)
               in Inr (chunk, \<lparr>cs_rows = rows,
                    cs_chunks = cs_chunks side @ [\<lparr>mcc_size = length chunk, mcc_checksum = ch_checksum (snd row)\<rparr>],
                    cs_count = cs_count side + 1, cs_bytes = cs_bytes side + length chunk\<rparr>))"

function compare_loop ::
  "nat \<Rightarrow> compare_side \<Rightarrow> compare_side \<Rightarrow> bool \<Rightarrow> bool \<Rightarrow> (compare_side \<times> compare_side \<times> bool \<times> bool) result" where
  "compare_loop chunk_no a b changed binary =
     (if cs_rows a = [] \<and> cs_rows b = [] then Inr (a, b, changed, binary)
      else case compare_row chunk_no a of
             Inl e \<Rightarrow> Inl e
           | Inr (from_chunk, a') \<Rightarrow>
               (case compare_row chunk_no b of
                  Inl e \<Rightarrow> Inl e
                | Inr (to_chunk, b') \<Rightarrow>
                    compare_loop (chunk_no + 1) a' b' (changed \<or> from_chunk \<noteq> to_chunk)
                      (binary \<or> 0 \<in> set from_chunk \<or> 0 \<in> set to_chunk)))"
  by pat_completeness auto
termination
  by (relation "measure (\<lambda>(_, a, b, _). length (cs_rows a) + length (cs_rows b))")
    (auto simp: compare_row_def Let_def neq_Nil_conv split: list.splits if_splits)

declare compare_loop.simps [simp del]

definition compare_start :: "db \<Rightarrow> VersionStorage \<Rightarrow> compare_side" where
  "compare_start s v = \<lparr>cs_rows = manifest_rows s (vs_manifest v), cs_chunks = [], cs_count = 0, cs_bytes = 0\<rparr>"

definition compare_total :: "VersionStorage \<Rightarrow> compare_side \<Rightarrow> bool" where
  "compare_total v side \<longleftrightarrow> cs_bytes side = vs_size v \<and> cs_count side = vs_chunk_count v \<and>
     ManifestChecksum (vs_size v) kContentChunkBytes (cs_chunks side) = Inr (vs_checksum v)"

definition compare_versions :: "db \<Rightarrow> VersionStorage \<Rightarrow> VersionStorage \<Rightarrow> (bool \<times> bool) result" where
  "compare_versions s from to =
     res_bind (compare_loop 0 (compare_start s from) (compare_start s to) (vs_size from \<noteq> vs_size to) False)
       (\<lambda>(a, b, changed, binary).
       if compare_total from a \<and> compare_total to b then Inr (changed, binary)
       else Inl (SqlError ''file version checksum does not match content'' SQLITE_CORRUPT))"

definition json_compare :: "string \<Rightarrow> nat \<Rightarrow> nat \<Rightarrow> bool \<Rightarrow> bool \<Rightarrow> nat \<Rightarrow> nat \<Rightarrow> string" where
  "json_compare path from_version to_version changed binary from_size to_size = json_object
     [json_field ''path'' (json_text path), json_field ''from'' (to_string from_version),
      json_field ''to'' (to_string to_version), json_field ''changed'' (json_bool changed),
      json_field ''binary'' (json_bool binary), json_field ''from_size'' (to_string from_size),
      json_field ''to_size'' (to_string to_size)]"

definition CompareVersionsFunction :: "sql_value \<Rightarrow> sql_value \<Rightarrow> sql_value \<Rightarrow> sql_value \<Rightarrow> string vexfs" where
  "CompareVersionsFunction v0 v1 v2 v3 =
     bind (text_arg v1 ''path'') (\<lambda>path.
     bind (workspace_arg v0) (\<lambda>w.
     bind (query (\<lambda>_. PathParts path)) (\<lambda>parts.
     bind (query (\<lambda>s. Resolve s w parts)) (\<lambda>node.
     require (i_kind node = KFile) not_a_file
     (bind (inode_arg v2 ''from version'') (\<lambda>from_version.
      bind (inode_arg v3 ''to version'') (\<lambda>to_version.
      bind (query (\<lambda>s. ResolveVersionStorage s (i_id node) from_version)) (\<lambda>from.
      bind (query (\<lambda>s. ResolveVersionStorage s (i_id node) to_version)) (\<lambda>to.
      bind (query (\<lambda>s. compare_versions s from to)) (\<lambda>(changed, binary).
      ret (json_compare path from_version to_version changed binary (vs_size from) (vs_size to))))))))))))"

section \<open>Listings\<close>

definition StatFunction :: "sql_value \<Rightarrow> sql_value \<Rightarrow> string vexfs" where
  "StatFunction v0 v1 =
     bind (text_arg v1 ''path'') (\<lambda>path.
     bind (workspace_arg v0) (\<lambda>w.
     bind (query (\<lambda>_. PathParts path)) (\<lambda>parts.
     bind (query (\<lambda>s. Resolve s w parts)) (\<lambda>node.
     bind (query (\<lambda>s.
       if i_kind node \<noteq> KDirectory \<and> 0 < i_version node
       then (case find_version s (i_id node) (i_version node) of
               None \<Rightarrow> Inl (SqlError ''current file version is missing'' SQLITE_CORRUPT)
             | Some v \<Rightarrow> Inr (v_checksum v))
       else Inr [])) (\<lambda>checksum.
     bind (query (\<lambda>s. LinkCount s w (i_id node))) (\<lambda>links.
     ret (json_object
       [json_field ''path'' (json_text path), json_field ''inode'' (to_string (i_id node)),
        json_field ''kind'' ([CHR 0x22] @ kind_text (i_kind node) @ [CHR 0x22]),
        json_field ''mode'' (to_string (i_mode node)), json_field ''owner_principal'' (json_text (i_owner node)),
        json_field ''uid'' (int_text (i_uid node)), json_field ''gid'' (int_text (i_gid node)),
        json_field ''size'' (int_text (i_size node)), json_field ''link_count'' (to_string links),
        json_field ''version'' (to_string (i_version node)),
        json_field ''checksum'' (if checksum = [] then ''null'' else json_text checksum),
        json_field ''created_at'' (int_text (i_created node)),
        json_field ''accessed_at'' (int_text (i_accessed node)),
        json_field ''updated_at'' (int_text (i_updated node)),
        json_field ''changed_at'' (int_text (i_changed node))])))))))"

definition PathFunction :: "sql_value \<Rightarrow> nat \<Rightarrow> string vexfs" where
  "PathFunction v0 inode = bind (workspace_arg v0) (\<lambda>w. query (\<lambda>s. PathForInode s w inode))"

definition list_rows :: "db \<Rightarrow> nat \<Rightarrow> nat \<Rightarrow> (string \<times> inode_row) list" where
  "list_rows s ws directory =
     sort_key fst (concat (map (\<lambda>d. case live_inode s (d_inode d) of None \<Rightarrow> [] | Some i \<Rightarrow> [(d_name d, i)])
       (children s ws directory)))"

definition json_entry :: "db \<Rightarrow> Workspace \<Rightarrow> string \<times> inode_row \<Rightarrow> string result" where
  "json_entry s w = (\<lambda>(name, i).
     res_bind (LinkCount s w (i_id i)) (\<lambda>links.
     Inr (json_object
       [json_field ''name'' (json_text name), json_field ''inode'' (to_string (i_id i)),
        json_field ''kind'' ([CHR 0x22] @ kind_text (i_kind i) @ [CHR 0x22]),
        json_field ''size'' (int_text (i_size i)), json_field ''version'' (to_string (i_version i)),
        json_field ''mode'' (to_string (i_mode i)), json_field ''owner_principal'' (json_text (i_owner i)),
        json_field ''uid'' (int_text (i_uid i)), json_field ''gid'' (int_text (i_gid i)),
        json_field ''created_at'' (int_text (i_created i)), json_field ''accessed_at'' (int_text (i_accessed i)),
        json_field ''updated_at'' (int_text (i_updated i)), json_field ''changed_at'' (int_text (i_changed i)),
        json_field ''link_count'' (to_string links)])))"

primrec res_map :: "('a \<Rightarrow> 'b result) \<Rightarrow> 'a list \<Rightarrow> 'b list result" where
  "res_map f [] = Inr []"
| "res_map f (x # xs) = res_bind (f x) (\<lambda>y. res_bind (res_map f xs) (\<lambda>ys. Inr (y # ys)))"

definition ListFunction :: "sql_value \<Rightarrow> sql_value \<Rightarrow> string vexfs" where
  "ListFunction v0 v1 =
     bind (workspace_arg v0) (\<lambda>w.
     bind (parts_arg v1 ''path'') (\<lambda>parts.
     bind (query (\<lambda>s. Resolve s w parts)) (\<lambda>directory.
     require (i_kind directory = KDirectory) (SqlError ''path is not a directory'' SQLITE_MISMATCH)
     (query (\<lambda>s. res_bind (res_map (json_entry s w) (list_rows s (ws_id w) (i_id directory))) (\<lambda>entries.
        Inr (json_array entries)))))))"

section \<open>Finding entries\<close>

record find_row =
  fr_path :: string
  fr_name :: string
  fr_inode :: inode_row

definition live_child :: "db \<Rightarrow> nat \<Rightarrow> nat \<Rightarrow> inode_row option" where
  "live_child s ws inode = find (\<lambda>i. i_id i = inode \<and> i_workspace i = ws \<and> i_deleted i = None) (inodes s)"

text \<open>The entries of the directories of a level; the next level are the directories among them.\<close>

definition find_entries :: "db \<Rightarrow> nat \<Rightarrow> (string \<times> nat) list \<Rightarrow> find_row list" where
  "find_entries s ws directories =
     concat (map (\<lambda>(path, inode).
       concat (map (\<lambda>d. case live_child s ws (d_inode d) of
                       None \<Rightarrow> []
                     | Some i \<Rightarrow> [\<lparr>fr_path = child_path path (d_name d), fr_name = d_name d, fr_inode = i\<rparr>])
         (children s ws inode))) directories)"

definition find_step :: "db \<Rightarrow> nat \<Rightarrow> (string \<times> nat) list \<Rightarrow> (string \<times> nat) list" where
  "find_step s ws directories =
     map (\<lambda>r. (fr_path r, i_id (fr_inode r)))
       (filter (\<lambda>r. i_kind (fr_inode r) = KDirectory) (find_entries s ws directories))"

definition find_directories :: "db \<Rightarrow> nat \<Rightarrow> string \<Rightarrow> nat \<Rightarrow> (string \<times> nat) list" where
  "find_directories s ws root_path root =
     levels (length (dentries s)) (find_step s ws)
       (map (\<lambda>i. (root_path, i_id i))
          (filter (\<lambda>i. i_id i = root \<and> i_workspace i = ws \<and> i_kind i = KDirectory) (inodes s)))"

definition find_tree :: "db \<Rightarrow> nat \<Rightarrow> string \<Rightarrow> string \<Rightarrow> nat \<Rightarrow> find_row list" where
  "find_tree s ws root_path root_name root =
     map (\<lambda>i. \<lparr>fr_path = root_path, fr_name = root_name, fr_inode = i\<rparr>)
       (filter (\<lambda>i. i_id i = root \<and> i_workspace i = ws) (inodes s)) @
     find_entries s ws (find_directories s ws root_path root)"

record find_filter =
  ff_kind :: string
  ff_min_size :: int
  ff_max_size :: int
  ff_after :: int
  ff_before :: int

definition find_where :: "find_filter \<Rightarrow> find_row \<Rightarrow> bool" where
  "find_where f r \<longleftrightarrow>
     (ff_kind f = [] \<or> kind_text (i_kind (fr_inode r)) = ff_kind f) \<and>
     (ff_min_size f < 0 \<or> ff_min_size f \<le> i_size (fr_inode r)) \<and>
     (ff_max_size f < 0 \<or> i_size (fr_inode r) \<le> ff_max_size f) \<and>
     (ff_after f < 0 \<or> ff_after f \<le> i_updated (fr_inode r)) \<and>
     (ff_before f < 0 \<or> i_updated (fr_inode r) \<le> ff_before f)"

definition name_matches :: "string \<Rightarrow> find_row \<Rightarrow> bool" where
  "name_matches name_pattern r \<longleftrightarrow> name_pattern = [] \<or> FindGlobMatches name_pattern (fr_name r) = Some True"

text \<open>The loop over the rows: it stops once it holds one match more than the limit.\<close>

fun find_loop :: "nat \<Rightarrow> string \<Rightarrow> find_row list \<Rightarrow> find_row list \<Rightarrow> find_row list" where
  "find_loop limit name_pattern [] matches = matches"
| "find_loop limit name_pattern (r # rows) matches =
     (if \<not> name_matches name_pattern r then find_loop limit name_pattern rows matches
      else if limit < length (matches @ [r]) then matches @ [r]
      else find_loop limit name_pattern rows (matches @ [r]))"

definition find_page :: "nat \<Rightarrow> string \<Rightarrow> find_filter \<Rightarrow> find_row list \<Rightarrow> string \<Rightarrow> find_row list \<times> string option" where
  "find_page limit name_pattern f tree after_path =
     (let matches = find_loop limit name_pattern
            (sort_key fr_path (filter (\<lambda>r. after_path < fr_path r \<and> find_where f r) tree)) [];
          entries = take limit matches
      in (entries, if limit < length matches \<and> entries \<noteq> [] then Some (fr_path (last entries)) else None))"

definition json_find_row :: "find_row \<Rightarrow> string" where
  "json_find_row r = json_object
     [json_field ''path'' (json_text (fr_path r)), json_field ''name'' (json_text (fr_name r)),
      json_field ''inode'' (to_string (i_id (fr_inode r))),
      json_field ''kind'' (json_text (kind_text (i_kind (fr_inode r)))),
      json_field ''size'' (int_text (i_size (fr_inode r))),
      json_field ''version'' (to_string (i_version (fr_inode r))),
      json_field ''modified_at'' (int_text (i_updated (fr_inode r)))]"

definition optional_text :: "sql_value \<Rightarrow> string \<Rightarrow> string vexfs" where
  "optional_text v name = (if v = SqlNull then ret [] else text_arg v name)"

definition optional_number :: "sql_value \<Rightarrow> string \<Rightarrow> int vexfs" where
  "optional_number v name = (if v = SqlNull then ret (- 1) else query (\<lambda>_. RequiredNonnegativeInteger v name))"

definition kMaximumTimestampMilliseconds :: int where
  "kMaximumTimestampMilliseconds = 253402300799999"

definition FindFunction ::
  "sql_value \<Rightarrow> sql_value \<Rightarrow> sql_value \<Rightarrow> sql_value \<Rightarrow> sql_value \<Rightarrow> sql_value \<Rightarrow> sql_value \<Rightarrow> sql_value \<Rightarrow>
   sql_value \<Rightarrow> sql_value \<Rightarrow> string vexfs" where
  "FindFunction v0 v1 v2 v3 v4 v5 v6 v7 v8 v9 =
     bind (workspace_arg v0) (\<lambda>w.
     bind (parts_arg v1 ''path'') (\<lambda>root_parts.
     bind (query (\<lambda>s. Resolve s w root_parts)) (\<lambda>root.
     bind (optional_text v2 ''name pattern'') (\<lambda>name_pattern.
     bind (optional_text v3 ''kind'') (\<lambda>k.
     bind (optional_number v4 ''minimum size'') (\<lambda>min_size.
     bind (optional_number v5 ''maximum size'') (\<lambda>max_size.
     bind (optional_number v6 ''modified after'') (\<lambda>modified_after.
     bind (optional_number v7 ''modified before'') (\<lambda>modified_before.
     bind (optional_text v8 ''cursor'') (\<lambda>after_path.
     bind (inode_arg v9 ''limit'') (\<lambda>limit.
     require (\<not> (v2 \<noteq> SqlNull \<and> (name_pattern = [] \<or> 255 < length name_pattern)))
       (SqlError ''name pattern must be 1..255 bytes'' SQLITE_RANGE)
     (require (\<not> (v3 \<noteq> SqlNull \<and> k \<noteq> ''file'' \<and> k \<noteq> ''directory'' \<and> k \<noteq> ''symlink''))
       (SqlError ''kind must be file, directory or symlink'' SQLITE_MISMATCH)
     (require (\<not> (v8 \<noteq> SqlNull \<and> after_path = []))
       (SqlError ''cursor must be an absolute path'' SQLITE_MISMATCH)
     (require (limit \<le> 1000) (SqlError ''limit must be at most 1000'' SQLITE_RANGE)
     (require (\<not> (0 \<le> min_size \<and> 0 \<le> max_size \<and> max_size < min_size))
       (SqlError ''minimum size must not exceed maximum size'' SQLITE_RANGE)
     (require (\<not> (0 \<le> modified_after \<and> 0 \<le> modified_before \<and> modified_before < modified_after))
       (SqlError ''modified after must not exceed modified before'' SQLITE_RANGE)
     (require (\<not> (kMaximumTimestampMilliseconds < modified_after \<or> kMaximumTimestampMilliseconds < modified_before))
       (SqlError ''modified time is outside the supported range'' SQLITE_RANGE)
     (andthen (op_when (after_path \<noteq> [])
        (bind (query (\<lambda>_. PathParts after_path)) (\<lambda>cursor_parts.
         require (CanonicalPath cursor_parts = after_path)
           (SqlError ''cursor must be a canonical absolute path'' SQLITE_MISMATCH) (ret ()))))
     (gets (\<lambda>s.
        let root_path = CanonicalPath root_parts;
            root_name = (if root_parts = [] then [kSlash] else last root_parts);
            (entries, next_cursor) = find_page limit name_pattern
              \<lparr>ff_kind = k, ff_min_size = min_size, ff_max_size = max_size, ff_after = modified_after,
               ff_before = modified_before\<rparr>
              (find_tree s (ws_id w) root_path root_name (i_id root)) after_path
        in json_object
             [json_field ''root'' (json_text root_path),
              json_field ''entries'' (json_array (map json_find_row entries)),
              json_field ''next_cursor'' (json_option json_text next_cursor)]))))))))))))))))))))"

end
