(* ===== verification/Vex_Utf8.thy ===== *)
theory Vex_Utf8
  imports Vex_Search
begin

unbundle bit_operations_syntax

text \<open>
  What \<open>IsUtf8Text\<close> accepts: the concatenations of the UTF-8 sequences of scalar values other than zero,
  and nothing else. The encoder is the table of RFC 3629, written with division and remainder.
\<close>

definition text_point :: "nat \<Rightarrow> bool" where
  "text_point c \<longleftrightarrow> 0 < c \<and> c \<le> 0x10ffff \<and> \<not> (0xd800 \<le> c \<and> c \<le> 0xdfff)"

definition utf8_encode :: "nat \<Rightarrow> byte list" where
  "utf8_encode c =
     map of_nat
       (if c < 0x80 then [c]
        else if c < 0x800 then [0xc0 + c div 64, 0x80 + c mod 64]
        else if c < 0x10000 then [0xe0 + c div 4096, 0x80 + c div 64 mod 64, 0x80 + c mod 64]
        else [0xf0 + c div 262144, 0x80 + c div 4096 mod 64, 0x80 + c div 64 mod 64, 0x80 + c mod 64])"

section \<open>Bytes\<close>

lemma unat_byte: "unat (b :: byte) < 256"
  using unsigned_less[of b, where 'a = nat] by simp

text \<open>The masks of the code, as ranges of the value of the byte.\<close>

lemma unat_low: "unat ((b :: byte) AND mask k) = unat b mod 2 ^ k"
  by (simp only: take_bit_eq_mask [symmetric] unsigned_take_bit_eq) (simp add: take_bit_eq_mod)

lemma unat_high: "unat ((b :: byte) AND NOT (mask k)) = unat b div 2 ^ k * 2 ^ k"
proof -
  have le: "b AND mask k \<le> b" by (simp only: word_le_nat_alt unat_low mod_less_eq_dividend)
  have "(b AND NOT (mask k)) + (b AND mask k) = b"
    by (subst disjunctive_add) (auto simp: bit_simps intro: bit_eqI)
  then have "b AND NOT (mask k) = b - (b AND mask k)" by (metis add_diff_cancel_right')
  then show ?thesis using le by (simp only: unat_sub unat_low minus_mod_eq_div_mult)
qed

lemma div_range: "0 < k \<Longrightarrow> (n :: nat) div k = q \<longleftrightarrow> k * q \<le> n \<and> n < k * Suc q"
  by (metis div_nat_eqI dividend_less_times_div times_div_less_eq_dividend mult_Suc_right add.commute)

lemma byte_masks:
  "unat ((b :: byte) AND 0x1f) = unat b mod 32" "unat (b AND 0x0f) = unat b mod 16"
  "unat (b AND 0x07) = unat b mod 8" "unat (b AND 0x3f) = unat b mod 64"
  using unat_low[of b 5] unat_low[of b 4] unat_low[of b 3] unat_low[of b 6] by (simp_all add: mask_eq_exp_minus_1)

lemma high_bits: "n < 256 \<Longrightarrow> (b :: byte) AND NOT (mask k) = of_nat n \<longleftrightarrow> unat b div 2 ^ k * 2 ^ k = n"
  by (simp only: word_unat_eq_iff unat_high unsigned_of_nat) (simp add: take_bit_nat_eq_self)

lemma byte_ranges:
  "(b :: byte) AND 0xe0 = 0xc0 \<longleftrightarrow> 192 \<le> unat b \<and> unat b < 224"
  "b AND 0xf0 = 0xe0 \<longleftrightarrow> 224 \<le> unat b \<and> unat b < 240"
  "b AND 0xf8 = 0xf0 \<longleftrightarrow> 240 \<le> unat b \<and> unat b < 248"
  "b AND 0xc0 = 0x80 \<longleftrightarrow> 128 \<le> unat b \<and> unat b < 192"
proof -
  have m: "(0xe0 :: byte) = NOT (mask 5)" "(0xf0 :: byte) = NOT (mask 4)" "(0xf8 :: byte) = NOT (mask 3)"
    "(0xc0 :: byte) = NOT (mask 6)" by (simp_all add: mask_eq_exp_minus_1)
  show "b AND 0xe0 = 0xc0 \<longleftrightarrow> 192 \<le> unat b \<and> unat b < 224"
    using high_bits[of 192 b 5] unfolding m(1) by (simp add: div_range)
  show "b AND 0xf0 = 0xe0 \<longleftrightarrow> 224 \<le> unat b \<and> unat b < 240"
    using high_bits[of 224 b 4] unfolding m(2) by (simp add: div_range)
  show "b AND 0xf8 = 0xf0 \<longleftrightarrow> 240 \<le> unat b \<and> unat b < 248"
    using high_bits[of 240 b 3] unfolding m(3) by (simp add: div_range)
  show "b AND 0xc0 = 0x80 \<longleftrightarrow> 128 \<le> unat b \<and> unat b < 192"
    using high_bits[of 128 b 6] unfolding m(4) by (simp add: div_range)
qed

lemma unat_widen: "unat (ucast (b :: byte) :: 32 word) = unat b"
  using unat_byte[of b] by (simp add: unsigned_ucast_eq take_bit_nat_eq_self_iff)

lemma unat_shift_or:
  assumes "unat c < 2 ^ 20" "unat y < 64"
  shows "unat (push_bit 6 c OR (y :: 32 word)) = unat c * 64 + unat y"
proof -
  have y: "y AND mask 6 = y" using assms(2) by (simp add: less_mask_eq word_less_nat_alt)
  have "push_bit 6 c OR y = push_bit 6 c + y"
    by (rule disjunctive_add [symmetric]) (metis y bit_and_iff bit_mask_iff bit_push_bit_iff not_less)
  moreover have "unat (push_bit 6 c) = unat c * 64"
    using assms(1) by (simp add: push_bit_eq_mult unat_word_ariths)
  ultimately show ?thesis using assms by (simp add: unat_word_ariths)
qed

section \<open>Sequences\<close>

definition continuation :: "byte \<Rightarrow> bool" where
  "continuation b \<longleftrightarrow> 128 \<le> unat b \<and> unat b < 192"

definition shift_in :: "32 word \<Rightarrow> byte \<Rightarrow> 32 word" where
  "shift_in c b = push_bit 6 c OR ucast (b AND 0x3f)"

lemma unat_shift_in: "unat c < 2 ^ 20 \<Longrightarrow> unat (shift_in c b) = unat c * 64 + unat b mod 64"
  by (simp add: shift_in_def unat_shift_or unat_widen byte_masks)

lemma continue_none: "foldl (\<lambda>acc b. case acc of None \<Rightarrow> None | Some c \<Rightarrow> f c b) None bs = None"
  by (induction bs) simp_all

lemma utf8_continue_simps:
  "utf8_continue [] c = Some c"
  "utf8_continue (b # bs) c = (if continuation b then utf8_continue bs (shift_in c b) else None)"
  by (simp_all add: utf8_continue_def byte_ranges continuation_def shift_in_def continue_none)

lemma utf8_lead_eq:
  "utf8_lead b =
     (if 192 \<le> unat b \<and> unat b < 224 then Some (1, ucast (b AND 0x1f), 0x80)
      else if 224 \<le> unat b \<and> unat b < 240 then Some (2, ucast (b AND 0x0f), 0x800)
      else if 240 \<le> unat b \<and> unat b < 248 then Some (3, ucast (b AND 0x07), 0x10000)
      else None)"
  by (simp add: utf8_lead_def byte_ranges)

definition valid_point :: "nat \<Rightarrow> nat \<Rightarrow> bool" where
  "valid_point least c \<longleftrightarrow> least \<le> c \<and> c \<le> 0x10ffff \<and> \<not> (0xd800 \<le> c \<and> c \<le> 0xdfff)"

lemma point_rejected:
  "((c :: 32 word) < m \<or> 0x10ffff < c \<or> (0xd800 \<le> c \<and> c \<le> 0xdfff)) = (\<not> valid_point (unat m) (unat c))"
  by (auto simp: valid_point_def word_less_nat_alt word_le_nat_alt)

text \<open>The code, one clause for each length of a sequence.\<close>

lemma IsUtf8Text_one: "0 < unat a \<Longrightarrow> unat a < 128 \<Longrightarrow> IsUtf8Text (a # rest) = IsUtf8Text rest"
  by (auto simp: word_less_nat_alt IsUtf8Text.simps)

lemma lead_byte: "128 \<le> unat (a :: byte) \<Longrightarrow> a \<noteq> 0 \<and> \<not> a < 0x80"
  by (auto simp: word_less_nat_alt)

lemma IsUtf8Text_lead:
  assumes "128 \<le> unat a" "utf8_lead a = Some (n, c, m)"
  shows "IsUtf8Text (a # rest) \<longleftrightarrow> n \<le> length rest \<and>
    (\<exists>p. utf8_continue (take n rest) c = Some p \<and> valid_point (unat m) (unat p)) \<and> IsUtf8Text (drop n rest)"
  using assms lead_byte[of a] point_rejected[of _ m]
  by (subst IsUtf8Text.simps) (auto split: option.split)

lemma mod_small:
  "(x :: nat) mod 32 < 1048576" "x mod 16 < 1048576" "x mod 8 < 1048576"
  "x mod 16 * 64 + y mod 64 < 1048576" "x mod 8 * 64 + y mod 64 < 1048576"
  "(x mod 8 * 64 + y mod 64) * 64 + z mod 64 < 1048576"
proof -
  have small: "a < 8 \<Longrightarrow> b < 64 \<Longrightarrow> c < 64 \<Longrightarrow> (a * 64 + b) * 64 + c < 1048576" for a b c :: nat
    by (simp add: add_mult_distrib)
  show "(x mod 8 * 64 + y mod 64) * 64 + z mod 64 < 1048576" by (rule small) simp_all
  have "x mod 32 < 32" "x mod 16 < 16" "x mod 8 < 8" "y mod 64 < 64" by simp_all
  then show "x mod 32 < 1048576" "x mod 16 < 1048576" "x mod 8 < 1048576"
    "x mod 16 * 64 + y mod 64 < 1048576" "x mod 8 * 64 + y mod 64 < 1048576"
    by linarith+
qed

lemmas sequence_value = utf8_continue_simps unat_shift_in unat_widen byte_masks mod_small

lemma IsUtf8Text_two:
  assumes "192 \<le> unat a" "unat a < 224"
  shows "IsUtf8Text (a # rest) \<longleftrightarrow> (\<exists>b rest'. rest = b # rest' \<and> continuation b \<and>
    valid_point 0x80 (unat a mod 32 * 64 + unat b mod 64) \<and> IsUtf8Text rest')"
proof -
  have l: "utf8_lead a = Some (1, ucast (a AND 0x1f), 0x80)" using assms by (simp add: utf8_lead_eq)
  show ?thesis
    using assms by (cases rest) (auto simp: IsUtf8Text_lead[OF _ l] sequence_value)
qed

lemma IsUtf8Text_three:
  assumes "224 \<le> unat a" "unat a < 240"
  shows "IsUtf8Text (a # rest) \<longleftrightarrow> (\<exists>b c rest'. rest = b # c # rest' \<and> continuation b \<and> continuation c \<and>
    valid_point 0x800 ((unat a mod 16 * 64 + unat b mod 64) * 64 + unat c mod 64) \<and> IsUtf8Text rest')"
proof -
  have l: "utf8_lead a = Some (2, ucast (a AND 0x0f), 0x800)" using assms by (simp add: utf8_lead_eq)
  consider "length rest < 2" | b c rest' where "rest = b # c # rest'" by (metis Suc_leI list.exhaust list.size(3,4) less_2_cases_iff add.right_neutral add_Suc_right One_nat_def not_less_eq)
  then show ?thesis
    using assms by cases (auto simp: IsUtf8Text_lead[OF _ l] sequence_value)
qed

lemma IsUtf8Text_four:
  assumes "240 \<le> unat a" "unat a < 248"
  shows "IsUtf8Text (a # rest) \<longleftrightarrow> (\<exists>b c d rest'. rest = b # c # d # rest' \<and> continuation b \<and> continuation c \<and> continuation d \<and>
    valid_point 0x10000 (((unat a mod 8 * 64 + unat b mod 64) * 64 + unat c mod 64) * 64 + unat d mod 64) \<and> IsUtf8Text rest')"
proof -
  have l: "utf8_lead a = Some (3, ucast (a AND 0x07), 0x10000)" using assms by (simp add: utf8_lead_eq)
  show ?thesis
    using assms by (cases rest; cases "tl rest"; cases "tl (tl rest)") (auto simp: IsUtf8Text_lead[OF _ l] sequence_value)
qed

lemma IsUtf8Text_bad: "128 \<le> unat a \<Longrightarrow> unat a < 192 \<or> 248 \<le> unat a \<Longrightarrow> \<not> IsUtf8Text (a # rest)"
  using lead_byte[of a] by (auto simp: IsUtf8Text.simps utf8_lead_eq)

section \<open>Every accepted text is a concatenation of sequences\<close>

lemma encode_two: "x < 32 \<Longrightarrow> y < 64 \<Longrightarrow> 0x80 \<le> x * 64 + y \<Longrightarrow> utf8_encode (x * 64 + y) = map of_nat [192 + x, 128 + y]"
  by (simp add: utf8_encode_def)

lemma base64: "l < 64 \<Longrightarrow> (h * 64 + l) div 64 = h" "l < 64 \<Longrightarrow> (h * 64 + l) mod 64 = l" for h l :: nat
  by simp_all

lemma div_twice: "(c :: nat) div 4096 = c div 64 div 64" "c div 262144 = c div 64 div 64 div 64"
  by (simp_all add: div_mult2_eq [symmetric])

lemma encode_three:
  assumes "x < 16" "y < 64" "z < 64" "0x800 \<le> (x * 64 + y) * 64 + z"
  shows "utf8_encode ((x * 64 + y) * 64 + z) = map of_nat [224 + x, 128 + y, 128 + z]"
proof -
  have "(x * 64 + y) * 64 + z < 0x10000" using assms(1-3) by simp
  then show ?thesis
    using assms(4) unfolding utf8_encode_def div_twice base64[OF assms(3)] base64[OF assms(2)] by simp
qed

lemma encode_four:
  assumes "x < 8" "y < 64" "z < 64" "u < 64" "0x10000 \<le> ((x * 64 + y) * 64 + z) * 64 + u"
  shows "utf8_encode (((x * 64 + y) * 64 + z) * 64 + u) = map of_nat [240 + x, 128 + y, 128 + z, 128 + u]"
  using assms(5) unfolding utf8_encode_def div_twice base64[OF assms(4)] base64[OF assms(3)] base64[OF assms(2)] by simp

lemma byte_value:
  "192 \<le> a \<Longrightarrow> a < 224 \<Longrightarrow> 192 + a mod 32 = a" "224 \<le> a \<Longrightarrow> a < 240 \<Longrightarrow> 224 + a mod 16 = a"
  "240 \<le> a \<Longrightarrow> a < 248 \<Longrightarrow> 240 + a mod 8 = a" "128 \<le> a \<Longrightarrow> a < 192 \<Longrightarrow> 128 + a mod 64 = a" for a :: nat
  using mod_nat_eqI[of "a - 192" 32 a] mod_nat_eqI[of "a - 224" 16 a] mod_nat_eqI[of "a - 240" 8 a]
    mod_nat_eqI[of "a - 128" 64 a]
  by simp_all

lemma sequence_bytes:
  "192 \<le> unat a \<Longrightarrow> unat a < 224 \<Longrightarrow> of_nat (192 + unat a mod 32) = (a :: byte)"
  "224 \<le> unat a \<Longrightarrow> unat a < 240 \<Longrightarrow> of_nat (224 + unat a mod 16) = a"
  "240 \<le> unat a \<Longrightarrow> unat a < 248 \<Longrightarrow> of_nat (240 + unat a mod 8) = a"
  "continuation b \<Longrightarrow> of_nat (128 + unat b mod 64) = b"
  unfolding continuation_def by (simp_all only: byte_value unsigned_of_nat word_unat_eq_iff) (simp_all add: take_bit_nat_eq_self unat_byte[simplified])

lemma text_point_valid: "valid_point m c \<Longrightarrow> 0 < m \<Longrightarrow> text_point c"
  by (auto simp: valid_point_def text_point_def)

lemma IsUtf8Text_head:
  assumes "IsUtf8Text (a # rest)"
  shows "\<exists>c rest'. text_point c \<and> a # rest = utf8_encode c @ rest' \<and> IsUtf8Text rest' \<and> length rest' \<le> length rest"
proof -
  have a: "unat a < 256" "a \<noteq> 0" using unat_byte[of a] assms by (auto simp: IsUtf8Text.simps)
  consider "unat a < 128" | "192 \<le> unat a" "unat a < 224" | "224 \<le> unat a" "unat a < 240" | "240 \<le> unat a" "unat a < 248"
    using IsUtf8Text_bad[of a rest] assms by linarith
  then show ?thesis
  proof cases
    case 1
    then have "IsUtf8Text rest" using a assms IsUtf8Text_one[of a rest] by (simp add: unat_gt_0)
    moreover have "utf8_encode (unat a) = [a]" "text_point (unat a)"
      using 1 a by (simp_all add: utf8_encode_def text_point_def unat_gt_0)
    ultimately show ?thesis by (intro exI[of _ "unat a"] exI[of _ rest]) simp
  next
    case 2
    then obtain b rest' where r: "rest = b # rest'" "continuation b"
      "valid_point 0x80 (unat a mod 32 * 64 + unat b mod 64)" "IsUtf8Text rest'"
      using assms IsUtf8Text_two[of a rest] by blast
    have "utf8_encode (unat a mod 32 * 64 + unat b mod 64) = [a, b]"
      using encode_two[of "unat a mod 32" "unat b mod 64"] r(3) sequence_bytes(1)[OF 2] sequence_bytes(4)[OF r(2)]
      by (simp add: valid_point_def)
    then show ?thesis using r text_point_valid[OF r(3)] by (intro exI[of _ "unat a mod 32 * 64 + unat b mod 64"] exI[of _ rest']) simp
  next
    case 3
    then obtain b c rest' where r: "rest = b # c # rest'" "continuation b" "continuation c"
      "valid_point 0x800 ((unat a mod 16 * 64 + unat b mod 64) * 64 + unat c mod 64)" "IsUtf8Text rest'"
      using assms IsUtf8Text_three[of a rest] by blast
    have "utf8_encode ((unat a mod 16 * 64 + unat b mod 64) * 64 + unat c mod 64) = [a, b, c]"
      using encode_three[of "unat a mod 16" "unat b mod 64" "unat c mod 64"] r(4) sequence_bytes(2)[OF 3]
        sequence_bytes(4)[OF r(2)] sequence_bytes(4)[OF r(3)]
      by (simp add: valid_point_def)
    then show ?thesis using r text_point_valid[OF r(4)]
      by (intro exI[of _ "(unat a mod 16 * 64 + unat b mod 64) * 64 + unat c mod 64"] exI[of _ rest']) simp
  next
    case 4
    then obtain b c d rest' where r: "rest = b # c # d # rest'" "continuation b" "continuation c" "continuation d"
      "valid_point 0x10000 (((unat a mod 8 * 64 + unat b mod 64) * 64 + unat c mod 64) * 64 + unat d mod 64)" "IsUtf8Text rest'"
      using assms IsUtf8Text_four[of a rest] by blast
    have "utf8_encode (((unat a mod 8 * 64 + unat b mod 64) * 64 + unat c mod 64) * 64 + unat d mod 64) = [a, b, c, d]"
      using encode_four[of "unat a mod 8" "unat b mod 64" "unat c mod 64" "unat d mod 64"] r(5) sequence_bytes(3)[OF 4]
        sequence_bytes(4)[OF r(2)] sequence_bytes(4)[OF r(3)] sequence_bytes(4)[OF r(4)]
      by (simp add: valid_point_def)
    then show ?thesis using r text_point_valid[OF r(5)]
      by (intro exI[of _ "((unat a mod 8 * 64 + unat b mod 64) * 64 + unat c mod 64) * 64 + unat d mod 64"] exI[of _ rest']) simp
  qed
qed

section \<open>Every concatenation of sequences is accepted\<close>

lemma unat_of_byte: "n < 256 \<Longrightarrow> unat (of_nat n :: byte) = n"
  by (simp add: unsigned_of_nat take_bit_nat_eq_self)

lemma continuation_of: "y < 64 \<Longrightarrow> continuation (of_nat (128 + y)) \<and> unat (of_nat (128 + y) :: byte) mod 64 = y"
  using byte_value(4)[of "128 + y"] by (simp only: continuation_def unat_of_byte) simp

lemma IsUtf8Text_encode:
  assumes "text_point c"
  shows "IsUtf8Text (utf8_encode c @ rest) = IsUtf8Text rest"
proof -
  define u z y x where d: "u = c mod 64" "z = c div 64 mod 64" "y = c div 4096 mod 64" "x = c div 262144"
  have b: "u < 64" "z < 64" "y < 64" by (simp_all add: d)
  note k = continuation_of[OF b(1)] continuation_of[OF b(2)] continuation_of[OF b(3)]
  consider "c < 0x80" | "0x80 \<le> c" "c < 0x800" | "0x800 \<le> c" "c < 0x10000" | "0x10000 \<le> c" by linarith
  then show ?thesis
  proof cases
    case 1
    then show ?thesis using assms unat_of_byte[of c] IsUtf8Text_one[of "of_nat c" rest]
      by (simp add: utf8_encode_def text_point_def)
  next
    case 2
    have x: "c div 64 < 32" and c: "c = c div 64 * 64 + u" using 2 by (auto simp: d)
    have a: "unat (of_nat (192 + c div 64) :: byte) = 192 + c div 64" using x by (intro unat_of_byte) simp
    have m: "(192 + c div 64) mod 32 = c div 64" using byte_value(1)[of "192 + c div 64"] x by simp
    have "utf8_encode c = [of_nat (192 + c div 64), of_nat (128 + u)]" using 2 by (simp add: utf8_encode_def d)
    then show ?thesis
      using IsUtf8Text_two[of "of_nat (192 + c div 64)" "of_nat (128 + u) # rest"] x k(1) assms 2 c
      unfolding a m by (simp add: valid_point_def text_point_def)
  next
    case 3
    have x: "c div 4096 < 16" using 3 by auto
    have "c = c div 64 * 64 + u" "c div 64 = c div 64 div 64 * 64 + z" by (simp_all add: d)
    then have c: "c = (c div 4096 * 64 + z) * 64 + u" by (simp add: div_twice)
    have a: "unat (of_nat (224 + c div 4096) :: byte) = 224 + c div 4096" using x by (intro unat_of_byte) simp
    have m: "(224 + c div 4096) mod 16 = c div 4096" using byte_value(2)[of "224 + c div 4096"] x by simp
    have "utf8_encode c = [of_nat (224 + c div 4096), of_nat (128 + z), of_nat (128 + u)]"
      using 3 by (simp add: utf8_encode_def d)
    then show ?thesis
      using IsUtf8Text_three[of "of_nat (224 + c div 4096)" "of_nat (128 + z) # of_nat (128 + u) # rest"] x k assms 3 c
      unfolding a m by (simp add: valid_point_def text_point_def)
  next
    case 4
    have x: "x < 8" using assms by (auto simp: text_point_def d)
    have "c = c div 64 * 64 + u" "c div 64 = c div 64 div 64 * 64 + z" "c div 64 div 64 = x * 64 + y"
      by (simp_all add: d div_twice)
    then have c: "c = ((x * 64 + y) * 64 + z) * 64 + u" by simp
    have a: "unat (of_nat (240 + x) :: byte) = 240 + x" using x by (intro unat_of_byte) simp
    have m: "(240 + x) mod 8 = x" using byte_value(3)[of "240 + x"] x by simp
    have "utf8_encode c = [of_nat (240 + x), of_nat (128 + y), of_nat (128 + z), of_nat (128 + u)]"
      using 4 by (simp add: utf8_encode_def d)
    then show ?thesis
      using IsUtf8Text_four[of "of_nat (240 + x)" "of_nat (128 + y) # of_nat (128 + z) # of_nat (128 + u) # rest"] x k assms 4 c
      unfolding a m by (simp add: valid_point_def text_point_def)
  qed
qed

text \<open>
  C28: \<open>IsUtf8Text\<close> accepts a content exactly when the content is the UTF-8 form of some sequence of Unicode
  scalar values other than zero: no overlong form, no surrogate, nothing above 0x10ffff and no truncated
  sequence is accepted, and no text is rejected.
\<close>

theorem is_utf8_text_exact:
  "IsUtf8Text bytes \<longleftrightarrow> (\<exists>points. list_all text_point points \<and> bytes = concat (map utf8_encode points))"
proof
  show "IsUtf8Text bytes \<Longrightarrow> \<exists>points. list_all text_point points \<and> bytes = concat (map utf8_encode points)"
  proof (induction "length bytes" arbitrary: bytes rule: less_induct)
    case less
    show ?case
    proof (cases bytes)
      case Nil
      then show ?thesis by (intro exI[of _ "[]"]) simp
    next
      case (Cons a rest)
      from IsUtf8Text_head[OF less.prems[unfolded Cons]] obtain c rest' where
        h: "text_point c" "bytes = utf8_encode c @ rest'" "IsUtf8Text rest'" "length rest' < length bytes"
        using Cons by (metis le_imp_less_Suc length_Cons)
      from less.hyps[OF h(4,3)] obtain points where "list_all text_point points" "rest' = concat (map utf8_encode points)"
        by blast
      then show ?thesis using h(1,2) by (intro exI[of _ "c # points"]) simp
    qed
  qed
next
  have "list_all text_point points \<Longrightarrow> IsUtf8Text (concat (map utf8_encode points))" for points
    by (induction points) (simp_all add: IsUtf8Text_encode)
  then show "\<exists>points. list_all text_point points \<and> bytes = concat (map utf8_encode points) \<Longrightarrow> IsUtf8Text bytes" by blast
qed

end
