(* ===== verification/Spec2Isabelle.thy ===== *)
theory Spec2Isabelle
  imports Vex_Checksum Vex_Text Vex_History Vex_Overlay Vex_Requests Vex_Utf8
begin

text \<open>
  VexFS, the versioned file system of VexDB-Lite that lives inside a SQLite database
  (src/vexdb\_sqlite/src/agent\_files/vexfs\_sqlite.cpp), and the checksums it shares with its mounts
  (src/agent\_files/mount/common/src/vexfs\_checksum.cpp).

  \<^bold>\<open>The program.\<close> Every operation is a SQL function (\<open>vex_fs_write\<close>, \<open>vex_fs_rename\<close>, ...): it reads its
  arguments, opens a savepoint, runs statements on the \<open>_vexfs_*\<close> tables, releases the savepoint or,
  when an exception leaves the block, rolls back to it. Files are inodes named by directory entries;
  a file's content is a sequence of versions, each pointing at a manifest of 64 KiB chunks with their
  SHA-256 checksums; chunks are shared between versions. A mount writes through handles: a handle
  stages dirty chunks over the chunks of its base version and publishes them as a new version if the
  base is still current. Every change ends in a commit, which copies the rows that the history
  triggers marked dirty.

  \<^bold>\<open>The theories.\<close>
  \<^item> \<open>Vex_Prelude\<close>: the operations (state in, result and state out) with their combinators, savepoints,
    and the rules that carry a relation between the state before and after through an operation;
    lists of bytes cut into chunks.
  \<^item> \<open>Vex_Checksum\<close>: \<open>Sha256\<close>, \<open>Hex\<close>, \<open>ManifestChecksum\<close>. The streaming class computes the digest of the
    padded message (locale \<open>streaming_hash\<close>, interpreted on it), and the manifest checksum accepts
    and hashes exactly the well-formed manifests.
  \<^item> \<open>Vex_Text\<close>: \<open>PathParts\<close>, \<open>CanonicalPath\<close>, \<open>FindGlobMatches\<close>, \<open>JsonEscape\<close>.
  \<^item> \<open>Vex_Schema\<close>: one record per table, the state \<open>db\<close>, and the trigger functions through which every
    later definition changes inodes, directory entries and access lists.
  \<^item> \<open>Vex_Content\<close>: manifests and chunks: storing a version's bytes, resolving and reading them back
    whole or by range.
  \<^item> \<open>Vex_Namespace\<close>: arguments, workspaces, quotas, path resolution.
  \<^item> \<open>Vex_Commits\<close>: commits and history rows, creation of inodes and entries, the grep index.
  \<^item> \<open>Vex_Files\<close>: the SQL functions on paths and inodes.
  \<^item> \<open>Vex_Staging\<close>: the overlay of dirty chunks.
  \<^item> \<open>Vex_Handles\<close>: handles, request replay, mount sessions.

  \<^bold>\<open>Correspondence.\<close> A definition has the name of the C++ function it translates. A table is a list of
  records in the field of its name, in the order of its rows; an AUTOINCREMENT or rowid key is one
  more than the largest. A thrown \<open>SqlError\<close> is \<open>Inl\<close>, with the message and the result code; a constraint
  failure that SQLite reports is the same value. The clock, the process's user and group are
  fields of the state, random identifiers are arguments.

  \<^bold>\<open>Bounds and fuel.\<close> \<open>climb\<close> takes at most 1024 levels, the bound written in the recursive query of
  \<open>PathForInode\<close>; \<open>tree_levels\<close> takes as many levels as there are directory entries, which a walk of the
  tree cannot exceed. \<open>glob_loop\<close> is a partial function that is proved to return. All other loops are
  structural or come with a termination measure.

  \<^bold>\<open>Not modelled.\<close> Schema creation and migration; snapshots, retention, garbage collection, the integrity
  check, content search and the JSON listings of vexfs\_sqlite.cpp; the command line, the mounts and
  the vector index (src/agent\_files/cli, src/agent\_files/mount, src/common, src/vexdb\_duckdb,
  src/vexdb\_pg), which are process and kernel I/O, floating-point kernels and glue to database engines.
\<close>

end
